(* ===== verification/Prelude.thy ===== *)
theory Prelude
  imports Main "HOL-Library.Monad_Syntax" "HOL-Library.List_Lexorder" "HOL-Library.Char_ord"
    "HOL-Library.Multiset"
begin

text \<open>
  What every component of the development shares: the conventions for panics and errors,
  Go maps with their unspecified iteration order, and the generic list lemmas the component
  proofs use.

  \<^item> A Go function that may panic (a nil pointer dereference, a failed type assertion)
    returns an \<open>option\<close>; \<open>None\<close> is the panic.
  \<^item> A Go function with an \<^verbatim>\<open>error\<close> result returns a sum; \<open>Inl\<close> is the error. A function
    whose only result is an \<^verbatim>\<open>error\<close> returns \<open>err option\<close>; \<open>None\<close> is Go's \<^verbatim>\<open>nil\<close>.
  \<^item> A Go map is an association list with strictly ascending keys, so that two maps are
    equal exactly when they hold the same entries. The order in which a \<^verbatim>\<open>range\<close> loop visits
    a map is not specified by the language: it is a parameter of each definition that ranges
    over a map, a function from the keys to the same keys in the order they are visited.
\<close>

named_theorems go_map_simps \<open>facts on Go maps\<close>
named_theorems go_string_simps \<open>facts on Go strings\<close>

type_synonym 'a go = "'a option"

datatype err =
    Err string        \<comment> \<open>\<^verbatim>\<open>errors.New\<close> and \<^verbatim>\<open>fmt.Errorf\<close>\<close>
  | NotFound string   \<comment> \<open>\<^verbatim>\<open>engine.NotFoundError\<close> of vulcand, error 100 of etcd\<close>
  | AlreadyExists string   \<comment> \<open>\<^verbatim>\<open>engine.AlreadyExistsError\<close> of vulcand\<close>
  | Remote string     \<comment> \<open>any other error a service hands back\<close>

type_synonym ('k, 'v) gomap = "('k \<times> 'v) list"
type_synonym annotations = "(string, string) gomap"

section \<open>Go maps\<close>

definition gm_wf :: "('k::linorder, 'v) gomap \<Rightarrow> bool" where
  "gm_wf m \<longleftrightarrow> sorted_wrt (<) (map fst m)"

abbreviation gm_get :: "('k, 'v) gomap \<Rightarrow> 'k \<Rightarrow> 'v option" where
  "gm_get m k \<equiv> map_of m k"

fun gm_put :: "'k::linorder \<Rightarrow> 'v \<Rightarrow> ('k, 'v) gomap \<Rightarrow> ('k, 'v) gomap" where
  "gm_put k v [] = [(k, v)]"
| "gm_put k v (e # m) =
     (if fst e < k then e # gm_put k v m
      else if k < fst e then (k, v) # e # m
      else (k, v) # m)"

definition gm_del :: "'k \<Rightarrow> ('k, 'v) gomap \<Rightarrow> ('k, 'v) gomap" where
  "gm_del k m = filter (\<lambda>e. fst e \<noteq> k) m"

text \<open>The entries a \<^verbatim>\<open>range\<close> loop visits, in its order.\<close>

definition gm_range :: "('k list \<Rightarrow> 'k list) \<Rightarrow> ('k, 'v) gomap \<Rightarrow> ('k \<times> 'v) list" where
  "gm_range rng m = List.map_filter (\<lambda>k. map_option (Pair k) (map_of m k)) (rng (map fst m))"

text \<open>What Go promises of the iteration order: each entry is visited once.\<close>

definition range_ok :: "('k list \<Rightarrow> 'k list) \<Rightarrow> bool" where
  "range_ok rng \<longleftrightarrow> (\<forall>ks. mset (rng ks) = mset ks)"

lemma range_ok_id [simp, intro]: "range_ok (\<lambda>ks. ks)"
  by (simp add: range_ok_def)

lemma range_ok_rev [simp, intro]: "range_ok rev"
  by (simp add: range_ok_def)

lemma gm_wf_Nil [simp]: "gm_wf []"
  by (simp add: gm_wf_def)

lemma gm_wf_Cons: "gm_wf (e # m) \<longleftrightarrow> gm_wf m \<and> (\<forall>x \<in> set m. fst e < fst x)"
  by (auto simp: gm_wf_def)

lemma gm_wf_distinct: "gm_wf m \<Longrightarrow> distinct (map fst m)"
  by (simp add: gm_wf_def strict_sorted_iff)

lemma set_gm_put: "set (gm_put k v m) \<subseteq> insert (k, v) (set m)"
  by (induction m) auto

lemma gm_wf_put [simp, intro]: "gm_wf m \<Longrightarrow> gm_wf (gm_put k v m)"
proof (induction m)
  case Nil
  then show ?case by (simp add: gm_wf_def)
next
  case (Cons e m)
  then have "gm_wf m" and "\<forall>x \<in> set m. fst e < fst x" and "gm_wf (gm_put k v m)"
    by (auto simp: gm_wf_Cons)
  then show ?case
    using set_gm_put [of k v m] by (fastforce simp: gm_wf_Cons)
qed

lemma gm_wf_del [simp, intro]: "gm_wf m \<Longrightarrow> gm_wf (gm_del k m)"
  by (induction m) (auto simp: gm_del_def gm_wf_Cons)

lemma gm_get_put [simp, go_map_simps]:
  "gm_wf m \<Longrightarrow> gm_get (gm_put k v m) j = (if j = k then Some v else gm_get m j)"
proof (induction m)
  case Nil
  then show ?case by simp
next
  case (Cons e m)
  have "map_of m k = None" if "k < fst e"
    using that Cons.prems by (fastforce simp: gm_wf_Cons map_of_eq_None_iff)
  moreover have "gm_wf m" using Cons.prems by (simp add: gm_wf_Cons)
  ultimately show ?case using Cons.IH by (cases e) auto
qed

lemma gm_get_del [simp, go_map_simps]:
  "gm_get (gm_del k m) j = (if j = k then None else gm_get m j)"
  by (induction m) (auto simp: gm_del_def)

lemma gm_eqI:
  assumes "gm_wf m" and "gm_wf n" and "\<And>k. gm_get m k = gm_get n k"
  shows "m = n"
proof -
  have expand: "l = map (\<lambda>k. (k, the (map_of l k))) (map fst l)" if "gm_wf l" for l :: "('a, 'b) gomap"
  proof (rule nth_equalityI)
    fix i assume "i < length l"
    then show "l ! i = map (\<lambda>k. (k, the (map_of l k))) (map fst l) ! i"
      using gm_wf_distinct [OF that]
      by (simp add: prod_eq_iff) (metis map_of_eq_Some_iff nth_mem option.sel prod.collapse)
  qed simp
  have "set (map fst m) = set (map fst n)"
    using assms(3) by (metis dom_map_of_conv_image_fst image_set domIff subsetI subset_antisym)
  then have "map fst m = map fst n"
    using assms(1,2) strict_sorted_equal unfolding gm_wf_def by blast
  moreover have "map_of m = map_of n" using assms(3) by auto
  ultimately show ?thesis using expand [OF assms(1)] expand [OF assms(2)] by simp
qed

text \<open>A \<^verbatim>\<open>range\<close> loop visits a permutation of the entries.\<close>

lemma mset_gm_range_distinct:
  assumes dist: "distinct (map fst m)" and "range_ok rng"
  shows "mset (gm_range rng m) = mset m"
proof -
  let ?f = "\<lambda>k. map_option (Pair k) (map_of m k)"
  have filt: "List.map_filter ?f ks = map (\<lambda>k. (k, the (map_of m k))) ks"
    if "set ks \<subseteq> set (map fst m)" for ks
    using that dist
    by (induction ks) (auto simp: List.map_filter_simps(1) List.map_filter_simps(2) dest: map_of_is_SomeI)
  have keys: "mset (rng (map fst m)) = mset (map fst m)"
    using assms(2) by (simp add: range_ok_def)
  then have "set (rng (map fst m)) = set (map fst m)" by (metis set_mset_mset)
  then have "mset (gm_range rng m) = mset (map (\<lambda>k. (k, the (map_of m k))) (rng (map fst m)))"
    by (simp only: gm_range_def filt)
  also have "\<dots> = image_mset (\<lambda>k. (k, the (map_of m k))) (mset (map fst m))"
    by (simp only: mset_map keys)
  also have "\<dots> = mset (map (\<lambda>e. (fst e, the (map_of m (fst e)))) m)"
    by (simp add: image_mset.compositionality comp_def)
  also have "map (\<lambda>e. (fst e, the (map_of m (fst e)))) m = map (\<lambda>e. e) m"
    using dist by (intro map_cong refl) (auto simp: prod_eq_iff)
  finally show ?thesis by simp
qed

lemma set_gm_range_distinct: "distinct (map fst m) \<Longrightarrow> range_ok rng \<Longrightarrow> set (gm_range rng m) = set m"
  by (metis mset_gm_range_distinct set_mset_mset)

lemma mset_gm_range: "gm_wf m \<Longrightarrow> range_ok rng \<Longrightarrow> mset (gm_range rng m) = mset m"
  by (simp add: mset_gm_range_distinct gm_wf_distinct)

lemma set_gm_range: "gm_wf m \<Longrightarrow> range_ok rng \<Longrightarrow> set (gm_range rng m) = set m"
  by (metis mset_gm_range set_mset_mset)

lemma gm_range_id: "gm_wf m \<Longrightarrow> gm_range (\<lambda>ks. ks) m = m"
proof -
  assume wf: "gm_wf m"
  have "List.map_filter (\<lambda>k. map_option (Pair k) (map_of m k)) (map fst l) = l"
    if "set l \<subseteq> set m" for l
    using that gm_wf_distinct [OF wf]
    by (induction l) (auto simp: List.map_filter_def)
  then show ?thesis by (simp add: gm_range_def)
qed

section \<open>The interface of a keyed store\<close>

text \<open>
  Every store of the program (a Go map, the object cache, the tables of the load balancer)
  promises the same of its operations: an update is seen by a later look-up of the same key
  and by no other. Clients use what follows from these laws.
\<close>

locale keyed_store =
  fixes get :: "'m \<Rightarrow> 'k \<Rightarrow> 'v option"
    and put :: "'k \<Rightarrow> 'v \<Rightarrow> 'm \<Rightarrow> 'm"
    and del :: "'k \<Rightarrow> 'm \<Rightarrow> 'm"
    and inv :: "'m \<Rightarrow> bool"
  assumes get_put: "inv m \<Longrightarrow> get (put k v m) j = (if j = k then Some v else get m j)"
    and get_del: "inv m \<Longrightarrow> get (del k m) j = (if j = k then None else get m j)"
    and inv_put: "inv m \<Longrightarrow> inv (put k v m)"
    and inv_del: "inv m \<Longrightarrow> inv (del k m)"
begin

lemma inv_put_all: "inv m \<Longrightarrow> inv (fold (\<lambda>e. put (fst e) (snd e)) es m)"
  by (induction es arbitrary: m) (auto intro: inv_put)

lemma inv_del_all: "inv m \<Longrightarrow> inv (fold del ks m)"
  by (induction ks arbitrary: m) (auto intro: inv_del)

text \<open>After a batch of updates a look-up sees the last one for its key.\<close>

lemma get_put_all:
  "inv m \<Longrightarrow> get (fold (\<lambda>e. put (fst e) (snd e)) es m) j =
     (case map_of (rev es) j of Some v \<Rightarrow> Some v | None \<Rightarrow> get m j)"
proof (induction es arbitrary: m)
  case Nil
  then show ?case by simp
next
  case (Cons e es)
  then show ?case
    by (cases e) (auto simp: get_put inv_put map_of_append map_add_def split: option.splits)
qed

lemma get_del_all:
  "inv m \<Longrightarrow> get (fold del ks m) j = (if j \<in> set ks then None else get m j)"
  by (induction ks arbitrary: m) (auto simp: get_del inv_del)

end

interpretation gm: keyed_store map_of gm_put gm_del gm_wf
  by unfold_locales auto

section \<open>Lists\<close>

lemma filter_unique:
  assumes "mset xs = mset ys" and "length (filter P xs) \<le> 1"
  shows "filter P xs = filter P ys"
proof -
  have eq: "mset (filter P xs) = mset (filter P ys)" using assms(1) by simp
  show ?thesis
  proof (cases "filter P xs")
    case Nil
    with eq show ?thesis by simp
  next
    case (Cons x t)
    with assms(2) have "filter P xs = [x]" by simp
    moreover from this eq have "filter P ys = [x]"
      by (metis mset_single_iff_right mset.simps(1,2) mset_single_iff)
    ultimately show ?thesis by simp
  qed
qed

lemma filter_concat_map: "filter P (concat (map f xs)) = concat (map (\<lambda>x. filter P (f x)) xs)"
  by (induction xs) auto

lemma mset_concat_map: "mset xs = mset ys \<Longrightarrow> mset (concat (map f xs)) = mset (concat (map f ys))"
proof -
  have sum: "mset (concat (map f zs)) = sum_mset (image_mset (\<lambda>z. mset (f z)) (mset zs))" for zs
    by (induction zs) auto
  assume "mset xs = mset ys"
  then show ?thesis by (simp only: sum)
qed

text \<open>The pieces of a list that satisfy a predicate come from one source element only.\<close>

lemma filter_concat_single:
  assumes "distinct (map fst es)" and "\<And>e. e \<in> set es \<Longrightarrow> fst e \<noteq> k \<Longrightarrow> filter P (f e) = []"
  shows "filter P (concat (map f es)) = (case map_of es k of None \<Rightarrow> [] | Some v \<Rightarrow> filter P (f (k, v)))"
  using assms
proof (induction es)
  case Nil
  then show ?case by simp
next
  case (Cons e es)
  show ?case
  proof (cases "fst e = k")
    case True
    have "filter P (f x) = []" if "x \<in> set es" for x
      using that Cons.prems True by (metis distinct.simps(2) imageI list.set_intros(2) list.set_map list.simps(9))
    then have "filter P (concat (map f es)) = []" by (auto simp: filter_concat_map)
    with True show ?thesis by (cases e) auto
  next
    case False
    with Cons show ?thesis by (cases e) auto
  qed
qed

section \<open>sort.Sort\<close>

text \<open>
  Go's \<^verbatim>\<open>sort.Sort\<close> sorts a short slice by insertion: each element moves left past the
  elements it is less than. (On a slice of more than a dozen elements Go starts with a
  quicksort, which may order elements that are not less than each other differently; every
  fact used below about the order holds for it too.) The sorted part is kept reversed here.
\<close>

fun go_insert :: "('a \<Rightarrow> 'a \<Rightarrow> bool) \<Rightarrow> 'a \<Rightarrow> 'a list \<Rightarrow> 'a list" where
  "go_insert lt x [] = [x]"
| "go_insert lt x (y # ys) = (if lt x y then y # go_insert lt x ys else x # y # ys)"

definition go_sort :: "('a \<Rightarrow> 'a \<Rightarrow> bool) \<Rightarrow> 'a list \<Rightarrow> 'a list" where
  "go_sort lt xs = rev (fold (go_insert lt) xs [])"

lemma mset_go_insert: "mset (go_insert lt x ys) = add_mset x (mset ys)"
  by (induction ys) auto

lemma mset_go_fold: "mset (fold (go_insert lt) xs ys) = mset xs + mset ys"
  by (induction xs arbitrary: ys) (auto simp: mset_go_insert)

lemma mset_go_sort [simp]: "mset (go_sort lt xs) = mset xs"
  by (simp add: go_sort_def mset_go_fold)

lemma set_go_sort [simp]: "set (go_sort lt xs) = set xs"
  by (metis mset_go_sort set_mset_mset)

lemma length_go_sort [simp]: "length (go_sort lt xs) = length xs"
  by (metis mset_go_sort size_mset)

text \<open>By a key in a linear order it is the stable sort of the library.\<close>

lemma sorted_go_insert:
  "sorted (map f (rev ys)) \<Longrightarrow> sorted (map f (rev (go_insert (\<lambda>a b. f a < f b) x ys)))"
proof (induction ys)
  case Nil
  then show ?case by simp
next
  case (Cons y ys)
  have "set (go_insert (\<lambda>a b. f a < f b) x ys) = insert x (set ys)"
    using mset_go_insert [of "\<lambda>a b. f a < f b" x ys] by (metis set_mset_add_mset_insert set_mset_mset)
  with Cons show ?case by (auto simp: sorted_append not_less)
qed

lemma sorted_go_fold:
  "sorted (map f (rev ys)) \<Longrightarrow> sorted (map f (rev (fold (go_insert (\<lambda>a b. f a < f b)) xs ys)))"
  by (induction xs arbitrary: ys) (auto simp: sorted_go_insert)

lemma filter_go_insert:
  fixes f :: "'a \<Rightarrow> 'b::linorder"
  shows
  "filter (\<lambda>z. f z = k) (rev (go_insert (\<lambda>a b. f a < f b) x ys)) =
     filter (\<lambda>z. f z = k) (rev ys @ [x])"
  by (induction ys) auto

lemma filter_go_fold:
  fixes f :: "'a \<Rightarrow> 'b::linorder"
  shows
  "filter (\<lambda>z. f z = k) (rev (fold (go_insert (\<lambda>a b. f a < f b)) xs ys)) =
     filter (\<lambda>z. f z = k) (rev ys @ xs)"
  by (induction xs arbitrary: ys) (auto simp: filter_go_insert)

lemma go_sort_key: "go_sort (\<lambda>a b. f a < f b) xs = sort_key f xs"
proof -
  let ?ys = "go_sort (\<lambda>a b. f a < f b) xs"
  have "filter (\<lambda>x. f k = f x) ?ys = filter (\<lambda>x. f k = f x) xs" for k
    using filter_go_fold [of f "f k" xs "[]"] by (simp add: go_sort_def eq_commute [of "f k"])
  moreover have "sorted (map f ?ys)"
    using sorted_go_fold [of f "[]" xs] by (simp add: go_sort_def)
  ultimately show ?thesis by (intro properties_for_sort_key [symmetric]) auto
qed

end
