(* ===== verification/Go_Strings.thy ===== *)
theory Go_Strings
  imports Prelude
begin

text \<open>
  The functions of Go's \<^verbatim>\<open>strings\<close>, \<^verbatim>\<open>strconv\<close>, \<^verbatim>\<open>path\<close> and \<^verbatim>\<open>fmt\<close> packages that the program
  calls, on byte strings. They are exact on ASCII text: bytes above 127 are ordinary characters
  here (no Unicode white space, no Unicode upper case). A machine \<^verbatim>\<open>int\<close> is the 64-bit one; the
  integers the program prints and parses are modelled as \<open>int\<close> with the range written out.
\<close>

section \<open>strings\<close>

definition has_prefix :: "string \<Rightarrow> string \<Rightarrow> bool" where
  "has_prefix s p \<longleftrightarrow> take (length p) s = p"

definition has_suffix :: "string \<Rightarrow> string \<Rightarrow> bool" where
  "has_suffix s p \<longleftrightarrow> length p \<le> length s \<and> drop (length s - length p) s = p"

text \<open>\<^verbatim>\<open>cut\<close> splits at the first occurrence of a non-empty separator.\<close>

fun cut :: "string \<Rightarrow> string \<Rightarrow> (string \<times> string) option" where
  "cut sep [] = None"
| "cut sep (c # cs) =
     (if has_prefix (c # cs) sep then Some ([], drop (length sep) (c # cs))
      else map_option (apfst (Cons c)) (cut sep cs))"

definition split_n2 :: "string \<Rightarrow> string \<Rightarrow> string list" where
  "split_n2 s sep = (case cut sep s of None \<Rightarrow> [s] | Some (a, b) \<Rightarrow> [a, b])"

text \<open>The pieces between the characters that satisfy a predicate, empty ones included.\<close>

fun split_by :: "(char \<Rightarrow> bool) \<Rightarrow> string \<Rightarrow> string list" where
  "split_by p [] = [[]]"
| "split_by p (c # cs) =
     (if p c then [] # split_by p cs
      else (case split_by p cs of [] \<Rightarrow> [[c]] | w # ws \<Rightarrow> (c # w) # ws))"

definition split_on :: "char \<Rightarrow> string \<Rightarrow> string list" where
  "split_on d s = split_by (\<lambda>c. c = d) s"

fun join :: "string \<Rightarrow> string list \<Rightarrow> string" where
  "join sep [] = []"
| "join sep [w] = w"
| "join sep (w # ws) = w @ sep @ join sep ws"

definition is_space :: "char \<Rightarrow> bool" where
  "is_space c \<longleftrightarrow> of_char c \<in> {9, 10, 11, 12, 13, 32 :: nat}"

text \<open>\<^verbatim>\<open>strings.FieldsFunc\<close> and \<^verbatim>\<open>strings.Fields\<close>: the maximal runs of other characters.\<close>

definition fields_func :: "(char \<Rightarrow> bool) \<Rightarrow> string \<Rightarrow> string list" where
  "fields_func p s = filter (\<lambda>w. w \<noteq> []) (split_by p s)"

definition str_fields :: "string \<Rightarrow> string list" where
  "str_fields s = fields_func is_space s"

definition remove_char :: "char \<Rightarrow> string \<Rightarrow> string" where
  "remove_char d s = filter (\<lambda>c. c \<noteq> d) s"

definition trim :: "char \<Rightarrow> string \<Rightarrow> string" where
  "trim d s = rev (dropWhile (\<lambda>c. c = d) (rev (dropWhile (\<lambda>c. c = d) s)))"

definition to_upper_char :: "char \<Rightarrow> char" where
  "to_upper_char c =
     (if 97 \<le> (of_char c :: nat) \<and> (of_char c :: nat) \<le> 122 then char_of (of_char c - 32 :: nat) else c)"

definition to_upper :: "string \<Rightarrow> string" where
  "to_upper s = map to_upper_char s"

definition to_lower_char :: "char \<Rightarrow> char" where
  "to_lower_char c =
     (if of_char c \<ge> (65::nat) \<and> of_char c \<le> (90::nat) then char_of (of_char c + (32::nat)) else c)"

definition to_lower :: "string \<Rightarrow> string" where
  "to_lower s = map to_lower_char s"

fun contains :: "string \<Rightarrow> string \<Rightarrow> bool" where
  "contains [] sub = (sub = [])"
| "contains (c # cs) sub = (has_prefix (c # cs) sub \<or> contains cs sub)"

section \<open>strconv and fmt\<close>

text \<open>\<^verbatim>\<open>ParseBool\<close>: \<open>None\<close> is the syntax error (the value is then false).\<close>

definition parse_bool :: "string \<Rightarrow> bool option" where
  "parse_bool s =
     (if s \<in> {''1'', ''t'', ''T'', ''true'', ''TRUE'', ''True''} then Some True
      else if s \<in> {''0'', ''f'', ''F'', ''false'', ''FALSE'', ''False''} then Some False
      else None)"

definition digit :: "nat \<Rightarrow> char" where
  "digit n = char_of (48 + n)"

fun nat_digits :: "nat \<Rightarrow> string" where
  "nat_digits n = (if n < 10 then [digit n] else nat_digits (n div 10) @ [digit (n mod 10)])"

declare nat_digits.simps [simp del]

definition itoa :: "int \<Rightarrow> string" where
  "itoa i = (if i < 0 then CHR ''-'' # nat_digits (nat (- i)) else nat_digits (nat i))"

datatype num_result = Num int | SyntaxError | RangeError int

definition digit_val :: "char \<Rightarrow> nat option" where
  "digit_val c = (if 48 \<le> (of_char c :: nat) \<and> (of_char c :: nat) \<le> 57 then Some (of_char c - 48) else None)"

text \<open>
  \<^verbatim>\<open>ParseUint\<close> in base ten reads from the left and stops at the first character it cannot
  take: a character that is no digit, or a digit that passes the range.
\<close>

fun parse_uint :: "int \<Rightarrow> string \<Rightarrow> num_result" where
  "parse_uint n [] = Num n"
| "parse_uint n (c # cs) =
     (case digit_val c of
        None \<Rightarrow> SyntaxError
      | Some d \<Rightarrow> if n * 10 + int d < 2 ^ 64 then parse_uint (n * 10 + int d) cs
                  else RangeError (2 ^ 64 - 1))"

definition parse_int :: "string \<Rightarrow> num_result" where
  "parse_int s =
     (if s = [] then SyntaxError
      else
        (let neg = (hd s = CHR ''-'');
             body = (if hd s = CHR ''-'' \<or> hd s = CHR ''+'' then tl s else s)
         in if body = [] then SyntaxError
            else (case parse_uint 0 body of
                    SyntaxError \<Rightarrow> SyntaxError
                  | Num u \<Rightarrow>
                      if \<not> neg \<and> 2 ^ 63 \<le> u then RangeError (2 ^ 63 - 1)
                      else if neg \<and> 2 ^ 63 < u then RangeError (- (2 ^ 63))
                      else Num (if neg then - u else u)
                  | RangeError u \<Rightarrow> RangeError (if neg then - (2 ^ 63) else 2 ^ 63 - 1))))"

text \<open>\<^verbatim>\<open>Atoi\<close>: the value, which Go returns also beside an error, and whether there is none.\<close>

definition atoi :: "string \<Rightarrow> int \<times> bool" where
  "atoi s = (case parse_int s of Num i \<Rightarrow> (i, True) | SyntaxError \<Rightarrow> (0, False) | RangeError i \<Rightarrow> (i, False))"

definition hex_digit :: "nat \<Rightarrow> char" where
  "hex_digit n = (if n < 10 then char_of (48 + n) else char_of (87 + n))"

text \<open>\<^verbatim>\<open>%q\<close>: the characters \<^verbatim>\<open>strconv.Quote\<close> escapes.\<close>

definition quote_char :: "char \<Rightarrow> string" where
  "quote_char c =
     (let n = of_char c :: nat; bs = CHR 0x5C in
      if c = CHR 0x22 \<or> c = bs then [bs, c]
      else if n = 7 then [bs, CHR ''a''] else if n = 8 then [bs, CHR ''b'']
      else if n = 12 then [bs, CHR ''f''] else if n = 10 then [bs, CHR ''n'']
      else if n = 13 then [bs, CHR ''r''] else if n = 9 then [bs, CHR ''t'']
      else if n = 11 then [bs, CHR ''v'']
      else if n < 32 \<or> n = 127 then [bs, CHR ''x'', hex_digit (n div 16), hex_digit (n mod 16)]
      else [c])"

definition quote :: "string \<Rightarrow> string" where
  "quote s = [CHR 0x22] @ concat (map quote_char s) @ [CHR 0x22]"

section \<open>path\<close>

definition path_base :: "string \<Rightarrow> string" where
  "path_base p =
     (if p = [] then ''.''
      else
        (let q = rev (dropWhile (\<lambda>c. c = CHR ''/'') (rev p));
             b = rev (takeWhile (\<lambda>c. c \<noteq> CHR ''/'') (rev q))
         in if b = [] then ''/'' else b))"

text \<open>\<^verbatim>\<open>Clean\<close> keeps the path read so far as a stack of elements.\<close>

fun clean_step :: "bool \<Rightarrow> string \<Rightarrow> string list \<Rightarrow> string list" where
  "clean_step rooted c st =
     (if c = [] \<or> c = ''.'' then st
      else if c = ''..'' then
        (case st of
           [] \<Rightarrow> if rooted then [] else [''..'']
         | t # ts \<Rightarrow> if t = ''..'' then ''..'' # st else ts)
      else c # st)"

definition path_clean :: "string \<Rightarrow> string" where
  "path_clean p =
     (if p = [] then ''.''
      else
        (let rooted = (hd p = CHR ''/'');
             body = join ''/'' (rev (fold (clean_step rooted) (split_on CHR ''/'' p) []))
         in if rooted then CHR ''/'' # body else if body = [] then ''.'' else body))"

definition path_join :: "string list \<Rightarrow> string" where
  "path_join es =
     (case dropWhile (\<lambda>e. e = []) es of [] \<Rightarrow> [] | e # r \<Rightarrow> path_clean (join ''/'' (e # r)))"

section \<open>Prefixes, cutting and joining\<close>

lemma has_prefix_append [simp, go_string_simps]: "has_prefix (p @ s) p"
  by (simp add: has_prefix_def)

lemma has_prefix_iff: "has_prefix s p \<longleftrightarrow> (\<exists>t. s = p @ t)"
  unfolding has_prefix_def by (metis append_take_drop_id append_eq_conv_conj)

lemma has_suffix_iff: "has_suffix s p \<longleftrightarrow> (\<exists>t. s = t @ p)"
  unfolding has_suffix_def
  by (metis append_eq_conv_conj append_take_drop_id diff_add_inverse2 length_append le_add2)

lemma has_prefix_Cons [simp]: "has_prefix (c # cs) (d # ds) \<longleftrightarrow> c = d \<and> has_prefix cs ds"
  by (auto simp: has_prefix_def)

lemma has_prefix_Nil [simp]: "has_prefix s []"
  by (simp add: has_prefix_def)

text \<open>Cutting at a single character.\<close>

lemma cut_char_None: "d \<notin> set s \<Longrightarrow> cut [d] s = None"
  by (induction s) auto

lemma cut_char_append: "d \<notin> set a \<Longrightarrow> cut [d] (a @ d # b) = Some (a, b)"
  by (induction a) auto

lemma split_n2_None [simp, go_string_simps]: "d \<notin> set s \<Longrightarrow> split_n2 s [d] = [s]"
  by (simp add: split_n2_def cut_char_None)

lemma split_n2_append [simp, go_string_simps]: "d \<notin> set a \<Longrightarrow> split_n2 (a @ d # b) [d] = [a, b]"
  by (simp add: split_n2_def cut_char_append)

lemma cut_Some_append: "cut sep s = Some (a, b) \<Longrightarrow> s = a @ sep @ b"
proof (induction s arbitrary: a)
  case Nil
  then show ?case by simp
next
  case (Cons c cs)
  show ?case
  proof (cases "has_prefix (c # cs) sep")
    case True
    with Cons.prems show ?thesis by (auto simp: has_prefix_iff)
  next
    case False
    with Cons.prems obtain a' where "cut sep cs = Some (a', b)" and "a = c # a'" by auto
    with Cons.IH show ?thesis by simp
  qed
qed

text \<open>\<^verbatim>\<open>Join\<close> undoes what \<^verbatim>\<open>SplitN\<close> did.\<close>

lemma join_split_n2: "join sep (split_n2 s sep) = s"
  by (auto simp: split_n2_def split: option.split dest: cut_Some_append)

lemma length_split_n2: "length (split_n2 s sep) = 1 \<or> length (split_n2 s sep) = 2"
  by (auto simp: split_n2_def split: option.split)

lemma split_by_neq_Nil [simp]: "split_by p s \<noteq> []"
  by (induction s) (auto split: list.split)

lemma split_by_none: "\<forall>c \<in> set s. \<not> p c \<Longrightarrow> split_by p s = [s]"
  by (induction s) auto

lemma split_by_append:
  "\<forall>c \<in> set w. \<not> p c \<Longrightarrow> p d \<Longrightarrow> split_by p (w @ d # s) = w # split_by p s"
  by (induction w) auto

lemma split_on_join:
  assumes "ws \<noteq> []" and "\<forall>w \<in> set ws. d \<notin> set w"
  shows "split_on d (join [d] ws) = ws"
  using assms
proof (induction "[d]" ws rule: join.induct)
  case (3 w v vs)
  then have "split_by (\<lambda>c. c = d) (w @ d # join [d] (v # vs)) = w # split_by (\<lambda>c. c = d) (join [d] (v # vs))"
    by (intro split_by_append) auto
  with 3 show ?case by (simp add: split_on_def)
qed (auto simp: split_on_def intro!: split_by_none)

section \<open>Numbers\<close>

lemma of_char_digit [simp]: "n < 10 \<Longrightarrow> (of_char (digit n) :: nat) = 48 + n"
  by (simp add: digit_def)

lemma digit_val_digit [simp]: "n < 10 \<Longrightarrow> digit_val (digit n) = Some n"
  by (simp add: digit_val_def)

lemma nat_digits_neq_Nil [simp]: "nat_digits n \<noteq> []"
  by (subst nat_digits.simps) simp

lemma parse_uint_nat_digits:
  "int n < 2 ^ 64 \<Longrightarrow> parse_uint 0 (nat_digits n @ cs) = parse_uint (int n) cs"
proof (induction n arbitrary: cs rule: nat_digits.induct)
  case (1 n)
  show ?case
  proof (cases "n < 10")
    case True
    with "1.prems" show ?thesis by (simp add: nat_digits.simps [of n])
  next
    case False
    have small: "int (n div 10) < 2 ^ 64" using "1.prems" by linarith
    have "n div 10 * 10 + n mod 10 = n" by simp
    then have ten: "int (n div 10) * 10 + int (n mod 10) = int n"
      by (metis of_nat_add of_nat_mult of_nat_numeral)
    from small
    have "parse_uint 0 (nat_digits (n div 10) @ digit (n mod 10) # cs)
        = parse_uint (int (n div 10)) (digit (n mod 10) # cs)"
      using "1.IH" [OF False] by blast
    also have "\<dots> = parse_uint (int n) cs"
      using "1.prems" ten by (simp del: of_nat_mod of_nat_div)
    finally show ?thesis using False by (simp add: nat_digits.simps [of n])
  qed
qed

lemma digits_of_nat_digits: "c \<in> set (nat_digits n) \<Longrightarrow> \<exists>k < 10. c = digit k"
proof (induction n rule: nat_digits.induct)
  case (1 n)
  show ?case
  proof (cases "n < 10")
    case True
    with "1.prems" show ?thesis by (auto simp: nat_digits.simps [of n])
  next
    case False
    with "1.prems" have "c \<in> set (nat_digits (n div 10)) \<or> c = digit (n mod 10)"
      by (auto simp: nat_digits.simps [of n])
    then show ?thesis
      using "1.IH" [OF False] by (metis mod_less_divisor zero_less_numeral)
  qed
qed

lemma nat_digits_char: "c \<in> set (nat_digits n) \<Longrightarrow> 48 \<le> (of_char c :: nat) \<and> (of_char c :: nat) \<le> 57"
  using digits_of_nat_digits by fastforce

lemma hd_nat_digits: "hd (nat_digits n) \<noteq> CHR ''-''" "hd (nat_digits n) \<noteq> CHR ''+''"
  using nat_digits_char [of "hd (nat_digits n)" n] by auto

lemma atoi_itoa: "- (2 ^ 63) \<le> i \<Longrightarrow> i < 2 ^ 63 \<Longrightarrow> atoi (itoa i) = (i, True)"
  using parse_uint_nat_digits [of "nat i" "[]"] parse_uint_nat_digits [of "nat (- i)" "[]"]
  by (auto simp: atoi_def itoa_def parse_int_def Let_def hd_nat_digits)

lemma dot_notin_itoa [simp]: "CHR ''.'' \<notin> set (itoa i)"
  using nat_digits_char [of "CHR ''.''"] by (auto simp: itoa_def)

lemma slash_notin_itoa [simp]: "CHR ''/'' \<notin> set (itoa i)"
  using nat_digits_char [of "CHR ''/''"] by (auto simp: itoa_def)

section \<open>Paths\<close>

text \<open>A path element in normal form: what a Kubernetes name is.\<close>

definition path_elem :: "string \<Rightarrow> bool" where
  "path_elem e \<longleftrightarrow> e \<noteq> [] \<and> e \<noteq> ''.'' \<and> e \<noteq> ''..'' \<and> CHR ''/'' \<notin> set e"

lemma fold_clean_step:
  "\<forall>e \<in> set es. path_elem e \<Longrightarrow> fold (clean_step r) es st = rev es @ st"
  by (induction es arbitrary: st) (auto simp: path_elem_def)

text \<open>Joining a clean rooted prefix with clean elements appends them.\<close>

lemma path_join_rooted:
  assumes "\<forall>e \<in> set (p # es). path_elem e"
  shows "path_join ((CHR ''/'' # p) # es) = CHR ''/'' # join ''/'' (p # es)"
proof -
  have "join ''/'' ((CHR ''/'' # p) # es) = CHR ''/'' # join ''/'' (p # es)"
    by (cases es) auto
  moreover have "split_on CHR ''/'' (CHR ''/'' # join ''/'' (p # es)) = [] # p # es"
    using split_on_join [of "p # es" "CHR ''/''"] assms by (auto simp: split_on_def path_elem_def)
  moreover have "fold (clean_step True) ([] # p # es) [] = rev (p # es)"
    using fold_clean_step [OF assms, of True "[]"] by simp
  ultimately show ?thesis by (simp add: path_join_def path_clean_def)
qed

lemma join_append: "xs \<noteq> [] \<Longrightarrow> ys \<noteq> [] \<Longrightarrow> join sep (xs @ ys) = join sep xs @ sep @ join sep ys"
  by (induction sep xs rule: join.induct) (auto simp: neq_Nil_conv)

lemma join_snoc: "ws \<noteq> [] \<Longrightarrow> join sep (ws @ [w]) = join sep ws @ sep @ w"
  by (induction sep ws rule: join.induct) auto

text \<open>Two joined paths of clean elements are equal only when the elements are.\<close>

lemma join_slash_inject:
  assumes "es \<noteq> []" and "fs \<noteq> []" and "\<forall>e \<in> set es \<union> set fs. path_elem e"
    and "join ''/'' es = join ''/'' fs"
  shows "es = fs"
proof -
  have "split_on CHR ''/'' (join ''/'' gs) = gs" if "gs = es \<or> gs = fs" for gs
    using that assms(1-3) by (intro split_on_join) (auto simp: path_elem_def)
  with assms(4) show ?thesis by metis
qed

lemma path_base_elem: "path_elem e \<Longrightarrow> path_base (p @ CHR ''/'' # e) = e"
proof -
  assume e: "path_elem e"
  then have noslash: "\<forall>c \<in> set (rev e). c \<noteq> CHR ''/''" and "rev e \<noteq> []" by (auto simp: path_elem_def)
  then have "dropWhile (\<lambda>c. c = CHR ''/'') (rev e @ CHR ''/'' # rev p) = rev e @ CHR ''/'' # rev p"
    by (cases "rev e") auto
  moreover have "takeWhile (\<lambda>c. c \<noteq> CHR ''/'') (rev e @ CHR ''/'' # rev p) = rev e"
    using noslash by (simp add: takeWhile_append)
  ultimately show ?thesis using e by (simp add: path_base_def path_elem_def)
qed

end
