(* ===== verification/Kube_Api.thy ===== *)
theory Kube_Api
  imports Go_Strings "HOL-Library.Word"
begin

text \<open>
  The Kubernetes objects the program reads and the helper functions of
  \<^verbatim>\<open>kubernetes/util.go\<close> on them. The records keep the fields the program uses. A Go pointer
  field is an option; \<open>None\<close> is \<^verbatim>\<open>nil\<close>.
\<close>

section \<open>API objects\<close>

record object_meta =
  om_name :: string
  om_namespace :: string
  om_annotations :: annotations

record intstr =
  is_type :: int
  is_intval :: "32 word"
  is_strval :: string

abbreviation intstr_Int :: int where "intstr_Int \<equiv> 0"
abbreviation intstr_String :: int where "intstr_String \<equiv> 1"

record service_port =
  sp_name :: string
  sp_port :: int

record service =
  svc_meta :: object_meta
  svc_type :: string
  svc_ports :: "service_port list"
  svc_clusterIP :: string
  svc_externalIPs :: "string list"

record endpoint_address =
  ea_ip :: string
  ea_uid :: "string option"   \<comment> \<open>\<^verbatim>\<open>TargetRef.UID\<close>; \<open>None\<close> when \<^verbatim>\<open>TargetRef\<close> is nil\<close>

record endpoint_port =
  ep_name :: string
  ep_port :: int
  ep_protocol :: string

record endpoint_subset =
  ss_addresses :: "endpoint_address list"
  ss_notready :: "endpoint_address list"
  ss_ports :: "endpoint_port list"

record endpoints =
  en_meta :: object_meta
  en_subsets :: "endpoint_subset list"

record ingress_backend =
  ib_serviceName :: string
  ib_servicePort :: intstr

record http_ingress_path =
  hp_path :: string
  hp_backend :: ingress_backend

record ingress_rule =
  ir_host :: string
  ir_http :: "http_ingress_path list option"

record ingress =
  ing_meta :: object_meta
  ing_backend :: "ingress_backend option"
  ing_rules :: "ingress_rule list"

text \<open>
  An \<^verbatim>\<open>interface{}\<close> the watchers hand over: a pointer to one of the three kinds, the
  tombstone \<^verbatim>\<open>cache.DeletedFinalStateUnknown\<close> (its key and the last known object), or a
  value of any other type.
\<close>

datatype kobject =
    KIngress ingress
  | KService service
  | KEndpoints endpoints
  | KTombstone string "kobject option"
  | KOther

section \<open>intstr\<close>

definition IntValue :: "intstr \<Rightarrow> int" where
  "IntValue i = (if is_type i = intstr_String then fst (atoi (is_strval i)) else sint (is_intval i))"

definition IntStrString :: "intstr \<Rightarrow> string" where
  "IntStrString i = (if is_type i = intstr_String then is_strval i else itoa (IntValue i))"

definition FromInt :: "int \<Rightarrow> intstr" where
  "FromInt v = \<lparr>is_type = intstr_Int, is_intval = word_of_int v, is_strval = []\<rparr>"

definition FromString :: "string \<Rightarrow> intstr" where
  "FromString v = \<lparr>is_type = intstr_String, is_intval = 0, is_strval = v\<rparr>"

section \<open>kubernetes/util.go\<close>

definition hashLen :: nat where "hashLen = 8"

definition IsServiceIPSet :: "service \<Rightarrow> bool" where
  "IsServiceIPSet s \<longleftrightarrow> svc_clusterIP s \<noteq> ''None'' \<and> svc_clusterIP s \<noteq> []"

definition HasServiceIP :: "service \<Rightarrow> bool" where
  "HasServiceIP s \<longleftrightarrow> svc_type s = ''ClusterIP'' \<and> IsServiceIPSet s"

definition GetServicePort :: "service \<Rightarrow> intstr \<Rightarrow> service_port option" where
  "GetServicePort svc port =
     find (\<lambda>sp. IntStrString port = sp_name sp \<or> IntValue port = sp_port sp) (svc_ports svc)"

definition GenResourceID :: "string \<Rightarrow> string \<Rightarrow> intstr \<Rightarrow> string" where
  "GenResourceID namespace name port = join ''.'' [namespace, name, IntStrString port]"

text \<open>
  \<^verbatim>\<open>util.Hashf\<close> of gearbox writes each argument with \<^verbatim>\<open>%v\<close> into the hash and prints the
  digest in hexadecimal; \<open>md5\<close> is that digest of a string.
\<close>

definition Hashf :: "(string \<Rightarrow> string) \<Rightarrow> string list \<Rightarrow> string" where
  "Hashf md5 ss = (if length ss < 1 then [] else md5 (concat ss))"

definition GenServerID :: "(string \<Rightarrow> string) \<Rightarrow> string \<Rightarrow> string \<Rightarrow> string \<Rightarrow> int \<Rightarrow> string" where
  "GenServerID md5 namespace name ip port =
     join ''.'' [namespace, name, take hashLen (Hashf md5 [ip, itoa port, namespace, name])]"

definition matchPort :: "service_port \<Rightarrow> endpoint_port \<Rightarrow> bool" where
  "matchPort a b = (if sp_name a \<noteq> [] \<and> ep_name b \<noteq> [] then sp_name a = ep_name b else True)"

definition matchIntStr :: "string \<Rightarrow> int \<Rightarrow> intstr \<Rightarrow> bool" where
  "matchIntStr str num i =
     (if is_type i = intstr_Int then num \<noteq> 0 \<and> IntValue i = num
      else if is_type i = intstr_String then str \<noteq> [] \<and> IntStrString i = str
      else False)"

definition matchIngressBackend :: "string \<Rightarrow> service_port \<Rightarrow> ingress_backend \<Rightarrow> bool" where
  "matchIngressBackend serviceName servicePort backend \<longleftrightarrow>
     serviceName = ib_serviceName backend \<and>
     matchIntStr (sp_name servicePort) (sp_port servicePort) (ib_servicePort backend)"

definition cacheLookupKey :: "string \<Rightarrow> string \<Rightarrow> string" where
  "cacheLookupKey namespace name = (if namespace = [] then name else namespace @ ''/'' @ name)"

definition intstrFromPort :: "string \<Rightarrow> int \<Rightarrow> intstr" where
  "intstrFromPort name port =
     \<lparr>is_type = (if name \<noteq> [] then intstr_String else intstr_Int),
      is_intval = word_of_int port, is_strval = name\<rparr>"

definition isRegexp :: "string \<Rightarrow> bool" where
  "isRegexp expr \<longleftrightarrow> has_prefix expr ''|'' \<and> has_suffix expr ''|''"

section \<open>Lemmas\<close>

lemma sint_of_int32: "- (2 ^ 31) \<le> p \<Longrightarrow> p < 2 ^ 31 \<Longrightarrow> sint (word_of_int p :: 32 word) = p"
  by (subst sint_sbintrunc') (simp add: signed_take_bit_int_eq_self)

lemma IntStrString_from_port_name:
  "n \<noteq> [] \<Longrightarrow> IntStrString (intstrFromPort n p) = n"
  by (simp add: IntStrString_def intstrFromPort_def)

lemma IntStrString_from_port_int:
  "- (2 ^ 31) \<le> p \<Longrightarrow> p < 2 ^ 31 \<Longrightarrow> IntStrString (intstrFromPort [] p) = itoa p"
  by (simp add: IntStrString_def IntValue_def intstrFromPort_def sint_of_int32)

lemma join_dot_inject:
  assumes "CHR ''.'' \<notin> set a" and "CHR ''.'' \<notin> set a'" and "a @ CHR ''.'' # b = a' @ CHR ''.'' # b'"
  shows "a = a' \<and> b = b'"
proof -
  have "cut ''.'' (a @ CHR ''.'' # b) = cut ''.'' (a' @ CHR ''.'' # b')"
    using assms(3) by (rule arg_cong)
  then show ?thesis
    unfolding cut_char_append [OF assms(1)] cut_char_append [OF assms(2)] by simp
qed

lemma GetServicePort_Some:
  "GetServicePort svc port = Some sp \<Longrightarrow>
     sp \<in> set (svc_ports svc) \<and> (IntStrString port = sp_name sp \<or> IntValue port = sp_port sp)"
  by (auto simp: GetServicePort_def find_Some_iff)

lemma cacheLookupKey_inject:
  assumes "CHR ''/'' \<notin> set ns" and "CHR ''/'' \<notin> set n" and "CHR ''/'' \<notin> set ns'" and "CHR ''/'' \<notin> set n'"
    and "cacheLookupKey ns n = cacheLookupKey ns' n'"
  shows "ns = ns' \<and> n = n'"
proof -
  have cuts: "cut ''/'' (cacheLookupKey a b) = (if a = [] then None else Some (a, b))"
    if "CHR ''/'' \<notin> set a" and "CHR ''/'' \<notin> set b" for a b
    using that by (simp add: cacheLookupKey_def cut_char_None cut_char_append)
  have "cut ''/'' (cacheLookupKey ns n) = cut ''/'' (cacheLookupKey ns' n')"
    using assms(5) by (rule arg_cong)
  then have "(if ns = [] then None else Some (ns, n)) = (if ns' = [] then None else Some (ns', n'))"
    unfolding cuts [OF assms(1,2)] cuts [OF assms(3,4)] .
  moreover have "n = n'" if "ns = []" and "ns' = []"
    using assms(5) that by (simp add: cacheLookupKey_def)
  ultimately show ?thesis by (auto split: if_splits)
qed

section \<open>Properties\<close>

text \<open>
  C27: resource identifiers are unambiguous. When namespaces and Service names hold no dot, as
  Kubernetes requires of them, two ports get the same identifier only if namespace, name and
  printed port agree; so no two Services share a frontend or a backend.
\<close>

theorem gen_resource_id_inject:
  assumes "CHR ''.'' \<notin> set ns" and "CHR ''.'' \<notin> set n" and "CHR ''.'' \<notin> set ns'" and "CHR ''.'' \<notin> set n'"
    and "GenResourceID ns n port = GenResourceID ns' n' port'"
  shows "ns = ns' \<and> n = n' \<and> IntStrString port = IntStrString port'"
proof -
  have eq: "ns @ CHR ''.'' # n @ CHR ''.'' # IntStrString port = ns' @ CHR ''.'' # n' @ CHR ''.'' # IntStrString port'"
    using assms(5) by (simp add: GenResourceID_def)
  from join_dot_inject [OF assms(1,3) eq]
  have "ns = ns'" and rest: "n @ CHR ''.'' # IntStrString port = n' @ CHR ''.'' # IntStrString port'" by auto
  with join_dot_inject [OF assms(2,4) rest] show ?thesis by simp
qed

theorem gen_resource_id_inject_witness:
  "GenResourceID ''test'' ''web'' (FromInt 80) = GenResourceID ''test'' ''web'' (FromString ''80'') \<and>
   IntStrString (FromInt 80) = IntStrString (FromString ''80'')"
proof -
  have eq: "GenResourceID ''test'' ''web'' (FromInt 80) = GenResourceID ''test'' ''web'' (FromString ''80'')"
    by code_simp
  show ?thesis
    using eq gen_resource_id_inject [of "''test''" "''web''" "''test''" "''web''" "FromInt 80" "FromString ''80''"] by simp
qed

text \<open>
  The identifier of a port that has no name carries its number: the port is stored as a
  32-bit integer in between, and for every port in the range of that type (all TCP ports among
  them) nothing is lost; a named port is identified by its name.
\<close>

lemma gen_resource_id_port:
  assumes "- (2 ^ 31) \<le> p" and "p < 2 ^ 31"
  shows "GenResourceID ns n (intstrFromPort name p) =
     ns @ ''.'' @ n @ ''.'' @ (if name = [] then itoa p else name)"
  using assms by (simp add: GenResourceID_def IntStrString_from_port_name IntStrString_from_port_int)

text \<open>
  Server identifiers are not unique. The address and the port are written into the hash
  one after the other with nothing between, so two different servers of one Service get the
  same identifier, whatever the hash function.
\<close>

lemma gen_server_id_collision:
  "GenServerID md5 ns n ''10.0.0.1'' 180 = GenServerID md5 ns n ''10.0.0.11'' 80"
proof -
  have "itoa 180 = ''180''" and "itoa 80 = ''80''" by code_simp+
  then show ?thesis by (simp add: GenServerID_def Hashf_def)
qed

text \<open>
  An Ingress that names its port by a numeric string is resolved when the Ingress is
  handled and not when the Service is. \<^verbatim>\<open>GetServicePort\<close> reads the string as a number,
  \<^verbatim>\<open>matchIngressBackend\<close> compares it with the name of the port only.
\<close>

lemma numeric_string_port_mismatch:
  assumes "svc_ports svc = [p]" and "sp_name p = ''web''" and "sp_port p = 80"
  shows "GetServicePort svc (FromString ''80'') = Some p \<and>
     \<not> matchIngressBackend n p \<lparr>ib_serviceName = n, ib_servicePort = FromString ''80''\<rparr>"
proof -
  have "IntValue (FromString ''80'') = 80" and "IntStrString (FromString ''80'') = ''80''" by code_simp+
  with assms show ?thesis
    by (simp add: GetServicePort_def matchIngressBackend_def matchIntStr_def) (simp add: FromString_def)
qed

end
