(* ===== verification/Kube_Cache.thy ===== *)
theory Kube_Cache
  imports Kube_Api
begin

text \<open>
  The object stores of the Kubernetes client library that the program keeps its objects in
  (\<^verbatim>\<open>pkg/client/cache\<close>: the plain store and the store whose entries expire) and the program's
  own cache over three of them, \<^verbatim>\<open>kubernetes/cache.go\<close>.

  A store is read at a time \<open>now\<close>, in nanoseconds. The Go store deletes an expired entry in
  the background; here it stays and is never returned, as expired. The indices of the Go
  store are empty in every store the program makes and are left out.
\<close>

section \<open>Stores\<close>

datatype store_arg = ExplicitKey string | Obj kobject

definition metaKey :: "object_meta \<Rightarrow> string" where
  "metaKey m = (if length (om_namespace m) > 0 then om_namespace m @ ''/'' @ om_name m else om_name m)"

fun MetaNamespaceKeyFunc :: "store_arg \<Rightarrow> err + string" where
  "MetaNamespaceKeyFunc (ExplicitKey k) = Inr k"
| "MetaNamespaceKeyFunc (Obj (KIngress i)) = Inr (metaKey (ing_meta i))"
| "MetaNamespaceKeyFunc (Obj (KService s)) = Inr (metaKey (svc_meta s))"
| "MetaNamespaceKeyFunc (Obj (KEndpoints e)) = Inr (metaKey (en_meta e))"
| "MetaNamespaceKeyFunc (Obj (KTombstone k obj)) = Inl (Err ''object has no meta'')"
| "MetaNamespaceKeyFunc (Obj KOther) = Inl (Err ''object has no meta'')"

fun DeletionHandlingMetaNamespaceKeyFunc :: "store_arg \<Rightarrow> err + string" where
  "DeletionHandlingMetaNamespaceKeyFunc (Obj (KTombstone k obj)) = Inr k"
| "DeletionHandlingMetaNamespaceKeyFunc a = MetaNamespaceKeyFunc a"

text \<open>
  \<open>CacheStore\<close> is what \<^verbatim>\<open>NewStore(keyFunc)\<close> makes for one of two key functions, \<open>TTLStore\<close> what
  \<^verbatim>\<open>NewTTLStore(DeletionHandlingMetaNamespaceKeyFunc, ttl)\<close> makes: its entries carry the
  time they were added.
\<close>

datatype key_func = MetaNamespaceKey | DeletionHandlingKey

fun applyKeyFunc :: "key_func \<Rightarrow> store_arg \<Rightarrow> err + string" where
  "applyKeyFunc MetaNamespaceKey = MetaNamespaceKeyFunc"
| "applyKeyFunc DeletionHandlingKey = DeletionHandlingMetaNamespaceKeyFunc"

datatype store =
    CacheStore key_func "(string, kobject) gomap"
  | TTLStore "(string, kobject \<times> int) gomap" int

definition NewStore :: "key_func \<Rightarrow> store" where
  "NewStore kf = CacheStore kf []"

definition NewTTLStore :: "int \<Rightarrow> store" where
  "NewTTLStore ttl = TTLStore [] ttl"

definition IsExpired :: "int \<Rightarrow> int \<Rightarrow> int \<Rightarrow> bool" where
  "IsExpired ttl now ts \<longleftrightarrow> 0 < ttl \<and> ttl < now - ts"

definition getOrExpire :: "int \<Rightarrow> (string, kobject \<times> int) gomap \<Rightarrow> int \<Rightarrow> string \<Rightarrow> kobject option" where
  "getOrExpire now items ttl key =
     (case gm_get items key of
        None \<Rightarrow> None
      | Some (obj, ts) \<Rightarrow> if IsExpired ttl now ts then None else Some obj)"

fun StoreKey :: "store \<Rightarrow> store_arg \<Rightarrow> err + string" where
  "StoreKey (CacheStore kf items) a = applyKeyFunc kf a"
| "StoreKey (TTLStore items ttl) a = DeletionHandlingMetaNamespaceKeyFunc a"

text \<open>\<^verbatim>\<open>Get\<close>: the error of the key function, or the item if it exists.\<close>

fun StoreGetByKey :: "int \<Rightarrow> store \<Rightarrow> string \<Rightarrow> kobject option" where
  "StoreGetByKey now (CacheStore kf items) key = gm_get items key"
| "StoreGetByKey now (TTLStore items ttl) key = getOrExpire now items ttl key"

definition StoreGet :: "int \<Rightarrow> store \<Rightarrow> store_arg \<Rightarrow> err + kobject option" where
  "StoreGet now st a =
     (case StoreKey st a of Inl e \<Rightarrow> Inl e | Inr key \<Rightarrow> Inr (StoreGetByKey now st key))"

text \<open>\<^verbatim>\<open>List\<close> and \<^verbatim>\<open>ListKeys\<close>, in the order of a loop over the map; a store with expiry lists the keys of expired entries too.\<close>

fun StoreList :: "int \<Rightarrow> (string list \<Rightarrow> string list) \<Rightarrow> store \<Rightarrow> kobject list" where
  "StoreList now rng (CacheStore kf items) = map snd (gm_range rng items)"
| "StoreList now rng (TTLStore items ttl) =
     map (fst \<circ> snd) (filter (\<lambda>e. \<not> IsExpired ttl now (snd (snd e))) (gm_range rng items))"

fun StoreListKeys :: "(string list \<Rightarrow> string list) \<Rightarrow> store \<Rightarrow> string list" where
  "StoreListKeys rng (CacheStore kf items) = rng (map fst items)"
| "StoreListKeys rng (TTLStore items ttl) = rng (map fst items)"

fun storePut :: "int \<Rightarrow> string \<Rightarrow> kobject \<Rightarrow> store \<Rightarrow> store" where
  "storePut now key obj (CacheStore kf items) = CacheStore kf (gm_put key obj items)"
| "storePut now key obj (TTLStore items ttl) = TTLStore (gm_put key (obj, now) items) ttl"

fun storeDel :: "string \<Rightarrow> store \<Rightarrow> store" where
  "storeDel key (CacheStore kf items) = CacheStore kf (gm_del key items)"
| "storeDel key (TTLStore items ttl) = TTLStore (gm_del key items) ttl"

definition StoreAdd :: "int \<Rightarrow> kobject \<Rightarrow> store \<Rightarrow> err option \<times> store" where
  "StoreAdd now obj st =
     (case StoreKey st (Obj obj) of Inl e \<Rightarrow> (Some e, st) | Inr key \<Rightarrow> (None, storePut now key obj st))"

definition StoreUpdate :: "int \<Rightarrow> kobject \<Rightarrow> store \<Rightarrow> err option \<times> store" where
  "StoreUpdate now obj st = StoreAdd now obj st"

definition StoreDelete :: "kobject \<Rightarrow> store \<Rightarrow> err option \<times> store" where
  "StoreDelete obj st =
     (case StoreKey st (Obj obj) of Inl e \<Rightarrow> (Some e, st) | Inr key \<Rightarrow> (None, storeDel key st))"

fun storeClear :: "store \<Rightarrow> store" where
  "storeClear (CacheStore kf items) = CacheStore kf []"
| "storeClear (TTLStore items ttl) = TTLStore [] ttl"

text \<open>\<^verbatim>\<open>Replace\<close> keys the whole list first and changes the store only when that succeeds.\<close>

fun keyAll :: "store \<Rightarrow> kobject list \<Rightarrow> err + (string \<times> kobject) list" where
  "keyAll st [] = Inr []"
| "keyAll st (obj # objs) =
     (case StoreKey st (Obj obj) of
        Inl e \<Rightarrow> Inl e
      | Inr key \<Rightarrow> (case keyAll st objs of Inl e \<Rightarrow> Inl e | Inr r \<Rightarrow> Inr ((key, obj) # r)))"

definition StoreReplace :: "int \<Rightarrow> kobject list \<Rightarrow> store \<Rightarrow> err option \<times> store" where
  "StoreReplace now objs st =
     (case keyAll st objs of
        Inl e \<Rightarrow> (Some e, st)
      | Inr r \<Rightarrow> (None, fold (\<lambda>e. storePut now (fst e) (snd e)) r (storeClear st)))"

section \<open>kubernetes/cache.go\<close>

record kcache =
  kc_ingress :: store
  kc_service :: store
  kc_endpoints :: store
  kc_ingMap :: "(string, string) gomap"

text \<open>The calls of the API client: the object of a namespace and a name, or an error.\<close>

record kube_client =
  cl_endpoints :: "string \<Rightarrow> string \<Rightarrow> err + endpoints"
  cl_services :: "string \<Rightarrow> string \<Rightarrow> err + service"
  cl_ingress :: "string \<Rightarrow> string \<Rightarrow> err + ingress"

definition NewCache :: kcache where
  "NewCache = \<lparr>kc_ingress = NewStore MetaNamespaceKey, kc_service = NewStore MetaNamespaceKey,
     kc_endpoints = NewStore MetaNamespaceKey, kc_ingMap = []\<rparr>"

definition SetIngressStore :: "store \<Rightarrow> kcache \<Rightarrow> kcache" where
  "SetIngressStore st k = k\<lparr>kc_ingress := st\<rparr>"

definition SetServiceStore :: "store \<Rightarrow> kcache \<Rightarrow> kcache" where
  "SetServiceStore st k = k\<lparr>kc_service := st\<rparr>"

definition SetEndpointsStore :: "store \<Rightarrow> kcache \<Rightarrow> kcache" where
  "SetEndpointsStore st k = k\<lparr>kc_endpoints := st\<rparr>"

definition MapServiceToIngress :: "string \<Rightarrow> string \<Rightarrow> string \<Rightarrow> kcache \<Rightarrow> kcache" where
  "MapServiceToIngress namespace serviceName ingressName k =
     k\<lparr>kc_ingMap := gm_put (cacheLookupKey namespace serviceName)
                          (cacheLookupKey namespace ingressName) (kc_ingMap k)\<rparr>"

definition ServiceDeleted :: "string \<Rightarrow> string \<Rightarrow> kcache \<Rightarrow> kcache" where
  "ServiceDeleted namespace name k = k\<lparr>kc_ingMap := gm_del (cacheLookupKey namespace name) (kc_ingMap k)\<rparr>"

definition GetEndpoints ::
  "int \<Rightarrow> kube_client \<Rightarrow> string \<Rightarrow> string \<Rightarrow> kcache \<Rightarrow> (err + endpoints) \<times> kcache" where
  "GetEndpoints now client namespace name k =
     (let key = cacheLookupKey namespace name in
      case StoreGet now (kc_endpoints k) (ExplicitKey key) of
        Inl er \<Rightarrow> (Inl er, k)
      | Inr None \<Rightarrow>
          (case cl_endpoints client namespace name of
             Inr en \<Rightarrow> (Inr en, k\<lparr>kc_endpoints := snd (StoreAdd now (KEndpoints en) (kc_endpoints k))\<rparr>)
           | Inl _ \<Rightarrow> (Inl (Err (''Could not find Endpoints '' @ quote key)), k))
      | Inr (Some (KEndpoints s)) \<Rightarrow> (Inr s, k)
      | Inr (Some _) \<Rightarrow> (Inl (Err ''Endpoints cache returned non-Endpoints object''), k))"

definition GetService ::
  "int \<Rightarrow> kube_client \<Rightarrow> string \<Rightarrow> string \<Rightarrow> kcache \<Rightarrow> (err + service) \<times> kcache" where
  "GetService now client namespace name k =
     (let key = cacheLookupKey namespace name in
      case StoreGet now (kc_service k) (ExplicitKey key) of
        Inl er \<Rightarrow> (Inl er, k)
      | Inr None \<Rightarrow>
          (case cl_services client namespace name of
             Inr sv \<Rightarrow> (Inr sv, k\<lparr>kc_service := snd (StoreAdd now (KService sv) (kc_service k))\<rparr>)
           | Inl _ \<Rightarrow> (Inl (Err (''Could not find Service '' @ quote key)), k))
      | Inr (Some (KService s)) \<Rightarrow> (Inr s, k)
      | Inr (Some _) \<Rightarrow> (Inl (Err ''Service cache returned non-Service object''), k))"

definition GetIngress ::
  "int \<Rightarrow> kube_client \<Rightarrow> string \<Rightarrow> string \<Rightarrow> kcache \<Rightarrow> (err + ingress) \<times> kcache" where
  "GetIngress now client namespace name k =
     (let sk = cacheLookupKey namespace name in
      case gm_get (kc_ingMap k) sk of
        None \<Rightarrow> (Inl (Err (''No Ingress associated with Service('' @ quote sk @ '')'')), k)
      | Some key \<Rightarrow>
          (case StoreGet now (kc_ingress k) (ExplicitKey key) of
             Inl er \<Rightarrow> (Inl er, k)
           | Inr None \<Rightarrow>
               (case cl_ingress client namespace name of
                  Inr i \<Rightarrow> (Inr i, k\<lparr>kc_ingress := snd (StoreAdd now (KIngress i) (kc_ingress k))\<rparr>)
                | Inl _ \<Rightarrow> (Inl (Err (''Could not find Ingress '' @ quote key)), k))
           | Inr (Some (KIngress s)) \<Rightarrow> (Inr s, k)
           | Inr (Some _) \<Rightarrow> (Inl (Err ''Ingress cache returned non-Ingress object''), k)))"

definition getFromCache :: "int \<Rightarrow> store \<Rightarrow> string \<Rightarrow> string \<Rightarrow> string \<Rightarrow> err + kobject" where
  "getFromCache now st kind namespace name =
     (let key = cacheLookupKey namespace name in
      case StoreGet now st (ExplicitKey key) of
        Inl er \<Rightarrow> Inl er
      | Inr None \<Rightarrow> Inl (Err (''Could not find '' @ kind @ '' '' @ quote key))
      | Inr (Some obj) \<Rightarrow> Inr obj)"

section \<open>The contract of a store\<close>

fun store_wf :: "store \<Rightarrow> bool" where
  "store_wf (CacheStore kf items) = gm_wf items"
| "store_wf (TTLStore items ttl) = gm_wf items"

definition cache_wf :: "kcache \<Rightarrow> bool" where
  "cache_wf k \<longleftrightarrow> store_wf (kc_ingress k) \<and> store_wf (kc_service k) \<and> store_wf (kc_endpoints k) \<and> gm_wf (kc_ingMap k)"

lemma applyKeyFunc_objects [simp]:
  "applyKeyFunc kf (ExplicitKey k) = Inr k"
  "applyKeyFunc kf (Obj (KService s)) = Inr (metaKey (svc_meta s))"
  "applyKeyFunc kf (Obj (KEndpoints e)) = Inr (metaKey (en_meta e))"
  "applyKeyFunc kf (Obj (KIngress i)) = Inr (metaKey (ing_meta i))"
  by (cases kf; simp)+

lemma StoreKey_objects [simp]:
  "StoreKey st (ExplicitKey k) = Inr k"
  "StoreKey st (Obj (KService s)) = Inr (metaKey (svc_meta s))"
  "StoreKey st (Obj (KEndpoints e)) = Inr (metaKey (en_meta e))"
  "StoreKey st (Obj (KIngress i)) = Inr (metaKey (ing_meta i))"
  by (cases st; simp)+

text \<open>At a fixed time both stores are keyed stores: the plain one and the one that expires.\<close>

interpretation st: keyed_store "StoreGetByKey now" "storePut now" storeDel store_wf for now
proof unfold_locales
  fix m k v j assume "store_wf m"
  then show "StoreGetByKey now (storePut now k v m) j = (if j = k then Some v else StoreGetByKey now m j)"
    by (cases m) (auto simp: getOrExpire_def IsExpired_def)
next
  fix m k j assume "store_wf m"
  then show "StoreGetByKey now (storeDel k m) j = (if j = k then None else StoreGetByKey now m j)"
    by (cases m) (auto simp: getOrExpire_def)
next
  fix m k v assume "store_wf m"
  then show "store_wf (storePut now k v m)" by (cases m) auto
next
  fix m k assume "store_wf m"
  then show "store_wf (storeDel k m)" by (cases m) auto
qed

lemma store_wf_clear [simp]: "store_wf (storeClear st)"
  by (cases st) auto

lemma store_wf_Add [simp, intro]: "store_wf st \<Longrightarrow> store_wf (snd (StoreAdd now obj st))"
  by (auto simp: StoreAdd_def st.inv_put split: sum.split)

lemma store_wf_Replace [simp, intro]: "store_wf st \<Longrightarrow> store_wf (snd (StoreReplace now objs st))"
  by (auto simp: StoreReplace_def st.inv_put_all split: sum.split)

lemma StoreGetByKey_clear [simp]: "StoreGetByKey now (storeClear st) k = None"
  by (cases st) (auto simp: getOrExpire_def)

lemma metaKey_lookup: "metaKey m = cacheLookupKey (om_namespace m) (om_name m)"
  by (simp add: metaKey_def cacheLookupKey_def)

lemma cache_wf_NewCache [simp]: "cache_wf NewCache"
  by (simp add: cache_wf_def NewCache_def NewStore_def)

lemma cache_wf_Get [simp, intro]:
  assumes "cache_wf k"
  shows "cache_wf (snd (GetService now cl ns n k))" "cache_wf (snd (GetEndpoints now cl ns n k))"
    "cache_wf (snd (GetIngress now cl ns n k))"
  using assms
  by (auto simp: cache_wf_def GetService_def GetEndpoints_def GetIngress_def Let_def
      split: sum.split option.split kobject.split)

lemma cache_wf_map [simp, intro]:
  "cache_wf k \<Longrightarrow> cache_wf (MapServiceToIngress ns s i k)" "cache_wf k \<Longrightarrow> cache_wf (ServiceDeleted ns s k)"
  by (auto simp: cache_wf_def MapServiceToIngress_def ServiceDeleted_def)

text \<open>What the API server answers carries the name and the namespace it was asked for.\<close>

definition client_ok :: "kube_client \<Rightarrow> bool" where
  "client_ok cl \<longleftrightarrow>
     (\<forall>ns n s. cl_services cl ns n = Inr s \<longrightarrow> om_namespace (svc_meta s) = ns \<and> om_name (svc_meta s) = n) \<and>
     (\<forall>ns n e. cl_endpoints cl ns n = Inr e \<longrightarrow> om_namespace (en_meta e) = ns \<and> om_name (en_meta e) = n) \<and>
     (\<forall>ns n i. cl_ingress cl ns n = Inr i \<longrightarrow> om_namespace (ing_meta i) = ns \<and> om_name (ing_meta i) = n)"

section \<open>Properties\<close>

text \<open>
  The cache is read through. Once a Service was found, on the server or in the store,
  asking again at the same time is answered from the store: any other client, even one whose
  every call fails, gets the same Service, and the cache no longer changes.
\<close>

lemma get_service_read_through:
  assumes "cache_wf k" and "client_ok cl" and "GetService now cl ns n k = (Inr svc, k')"
  shows "GetService now cl' ns n k' = (Inr svc, k') \<and> cache_wf k'"
proof (cases "StoreGetByKey now (kc_service k) (cacheLookupKey ns n)")
  case None
  with assms(3) have cl: "cl_services cl ns n = Inr svc"
      and k': "k' = k\<lparr>kc_service := snd (StoreAdd now (KService svc) (kc_service k))\<rparr>"
    by (auto simp: GetService_def StoreGet_def split: sum.splits)
  have "metaKey (svc_meta svc) = cacheLookupKey ns n"
    using assms(2) cl by (auto simp: client_ok_def metaKey_lookup)
  then have "StoreGetByKey now (kc_service k') (cacheLookupKey ns n) = Some (KService svc)"
    using assms(1) by (simp add: k' StoreAdd_def cache_wf_def st.get_put)
  then show ?thesis
    using assms(1) by (simp add: GetService_def StoreGet_def k' cache_wf_def)
next
  case (Some obj)
  with assms(3) have "obj = KService svc" and "k' = k"
    by (auto simp: GetService_def StoreGet_def split: kobject.splits)
  with Some assms(1) show ?thesis by (simp add: GetService_def StoreGet_def)
qed

definition sample_service :: service where
  "sample_service = \<lparr>svc_meta = \<lparr>om_name = ''bar'', om_namespace = ''test'', om_annotations = []\<rparr>,
     svc_type = ''ClusterIP'', svc_ports = [\<lparr>sp_name = ''web'', sp_port = 80\<rparr>],
     svc_clusterIP = ''1.2.3.4'', svc_externalIPs = []\<rparr>"

definition sample_client :: kube_client where
  "sample_client = \<lparr>cl_endpoints = (\<lambda>_ _. Inl (Remote ''timeout'')),
     cl_services = (\<lambda>ns n. if ns = ''test'' \<and> n = ''bar'' then Inr sample_service else Inl (Remote ''timeout'')),
     cl_ingress = (\<lambda>_ _. Inl (Remote ''timeout''))\<rparr>"

lemma client_ok_sample: "client_ok sample_client"
  by (auto simp: client_ok_def sample_client_def sample_service_def split: if_splits)

text \<open>
  When the Ingress a Service is mapped to is not in the store, the server is asked for an
  Ingress with the name of the Service, not for the one the map names. The answer for the
  mapped name is never used.
\<close>

lemma get_ingress_asks_for_service_name:
  assumes "gm_get (kc_ingMap k) (cacheLookupKey ns svc) = Some (cacheLookupKey ns ing)"
    and "StoreGetByKey now (kc_ingress k) (cacheLookupKey ns ing) = None"
    and "cl_ingress cl ns svc = Inl e"
  shows "GetIngress now (cl\<lparr>cl_ingress := (cl_ingress cl)(ns := (cl_ingress cl ns)(ing := answer))\<rparr>) ns svc k =
     (if ing = svc then GetIngress now (cl\<lparr>cl_ingress := (\<lambda>_ _. answer)\<rparr>) ns svc k
      else (Inl (Err (''Could not find Ingress '' @ quote (cacheLookupKey ns ing))), k))"
  using assms by (auto simp: GetIngress_def StoreGet_def split: sum.split)

text \<open>
  The map from Services to Ingresses. After a Service is mapped, looking the Ingress up
  under that Service uses the new entry and the entries of all other Services are as before;
  after the Service is deleted, the look-up fails at once, without asking store or server.
  (Names and namespaces hold no slash.)
\<close>

lemma ingress_map_roundtrip:
  assumes "cache_wf k" and "CHR ''/'' \<notin> set ns" and "CHR ''/'' \<notin> set s" and "CHR ''/'' \<notin> set ns'" and "CHR ''/'' \<notin> set s'"
  shows "gm_get (kc_ingMap (MapServiceToIngress ns s i k)) (cacheLookupKey ns' s') =
       (if ns' = ns \<and> s' = s then Some (cacheLookupKey ns i) else gm_get (kc_ingMap k) (cacheLookupKey ns' s')) \<and>
     gm_get (kc_ingMap (ServiceDeleted ns s k)) (cacheLookupKey ns' s') =
       (if ns' = ns \<and> s' = s then None else gm_get (kc_ingMap k) (cacheLookupKey ns' s')) \<and>
     GetIngress now cl ns s (ServiceDeleted ns s k) =
       (Inl (Err (''No Ingress associated with Service('' @ quote (cacheLookupKey ns s) @ '')'')), ServiceDeleted ns s k)"
proof -
  have same: "cacheLookupKey ns' s' = cacheLookupKey ns s \<longleftrightarrow> ns' = ns \<and> s' = s"
    using cacheLookupKey_inject [OF assms(4,5,2,3)] by blast
  have "gm_wf (kc_ingMap k)" using assms(1) by (simp add: cache_wf_def)
  then show ?thesis
    by (simp add: MapServiceToIngress_def ServiceDeleted_def GetIngress_def Let_def same)
qed

end
