(* ===== verification/Kube_Route.thy ===== *)
theory Kube_Route
  imports Kube_Api
begin

text \<open>
  The routes of \<^verbatim>\<open>kubernetes/resource.go\<close> and \<^verbatim>\<open>kubernetes/types.go\<close>: route parts, the
  operations on a route and \<^verbatim>\<open>NewRoute\<close>, which reads a route from annotations.

  \<^verbatim>\<open>regexp.Compile\<close> is a parameter \<open>rx\<close>: whether it accepts an expression. The text of a
  compiled expression is the expression itself.
\<close>

record route_part =
  rp_kind :: string
  rp_header :: string
  rp_value :: string
  rp_regex :: bool

record kroute =
  rt_parts :: "route_part list"

abbreviation HostPart :: string where "HostPart \<equiv> ''host''"
abbreviation PathPart :: string where "PathPart \<equiv> ''path''"
abbreviation PrefixPart :: string where "PrefixPart \<equiv> ''prefix''"
abbreviation MethodPart :: string where "MethodPart \<equiv> ''method''"
abbreviation HeaderPart :: string where "HeaderPart \<equiv> ''header''"

abbreviation HostKey :: string where "HostKey \<equiv> ''host''"
abbreviation PathKey :: string where "PathKey \<equiv> ''path''"
abbreviation PrefixKey :: string where "PrefixKey \<equiv> ''prefix''"
abbreviation MethodsKey :: string where "MethodsKey \<equiv> ''methods''"
abbreviation HeadersKey :: string where "HeadersKey \<equiv> ''headers''"

definition RouteEmpty :: "kroute \<Rightarrow> bool" where
  "RouteEmpty r \<longleftrightarrow> length (rt_parts r) < 1"

text \<open>\<^verbatim>\<open>add\<close> returns the new route and the error; on an error the route is unchanged.\<close>

definition route_add :: "(string \<Rightarrow> bool) \<Rightarrow> route_part \<Rightarrow> string \<Rightarrow> kroute \<Rightarrow> kroute \<times> err option" where
  "route_add rx part val r =
     (if isRegexp val then
        (let expr = trim CHR ''|'' val
         in if rx expr
            then (r\<lparr>rt_parts := rt_parts r @ [part\<lparr>rp_value := expr, rp_regex := True\<rparr>]\<rparr>, None)
            else (r, Some (Err (''error parsing regexp: '' @ expr))))
      else (r\<lparr>rt_parts := rt_parts r @ [part]\<rparr>, None))"

definition AddHost :: "(string \<Rightarrow> bool) \<Rightarrow> string \<Rightarrow> kroute \<Rightarrow> kroute \<times> err option" where
  "AddHost rx host = route_add rx \<lparr>rp_kind = HostPart, rp_header = [], rp_value = host, rp_regex = False\<rparr> host"

definition AddPath :: "(string \<Rightarrow> bool) \<Rightarrow> string \<Rightarrow> kroute \<Rightarrow> kroute \<times> err option" where
  "AddPath rx path = route_add rx \<lparr>rp_kind = PathPart, rp_header = [], rp_value = path, rp_regex = False\<rparr> path"

definition AddHeader :: "(string \<Rightarrow> bool) \<Rightarrow> string \<Rightarrow> string \<Rightarrow> kroute \<Rightarrow> kroute \<times> err option" where
  "AddHeader rx header value =
     route_add rx \<lparr>rp_kind = HeaderPart, rp_header = header, rp_value = value, rp_regex = False\<rparr> value"

definition AddMethod :: "(string \<Rightarrow> bool) \<Rightarrow> string \<Rightarrow> kroute \<Rightarrow> kroute \<times> err option" where
  "AddMethod rx m = route_add rx \<lparr>rp_kind = MethodPart, rp_header = [], rp_value = m, rp_regex = False\<rparr> m"

definition AddPrefix :: "(string \<Rightarrow> bool) \<Rightarrow> string \<Rightarrow> kroute \<Rightarrow> kroute \<times> err option" where
  "AddPrefix rx pre = route_add rx \<lparr>rp_kind = PrefixPart, rp_header = [], rp_value = pre, rp_regex = False\<rparr> pre"

definition route_delete :: "string \<Rightarrow> kroute \<Rightarrow> kroute" where
  "route_delete kind r = r\<lparr>rt_parts := filter (\<lambda>p. rp_kind p \<noteq> kind) (rt_parts r)\<rparr>"

definition RouteParts :: "kroute \<Rightarrow> route_part list" where
  "RouteParts r = rt_parts r"

definition routePartString :: "route_part \<Rightarrow> string" where
  "routePartString r =
     (let kind = (if rp_regex r then rp_kind r @ ''Regexp'' else rp_kind r);
          val = (if rp_header r \<noteq> [] then ''`'' @ rp_header r @ ''`, `'' @ rp_value r @ ''`''
                 else ''`'' @ rp_value r @ ''`'')
      in kind @ ''('' @ val @ '')'')"

definition RouteString :: "kroute \<Rightarrow> string" where
  "RouteString r = ''Route('' @ join '' && '' (sort (map routePartString (rt_parts r))) @ '')''"

text \<open>
  The body of the loop of \<^verbatim>\<open>NewRoute\<close>. An error of an \<^verbatim>\<open>Add\<close> operation is logged and dropped.
\<close>

definition splitHeaderValues :: "string \<Rightarrow> string list" where
  "splitHeaderValues val = str_fields (remove_char CHR '';'' val)"

definition addHeaderValue :: "(string \<Rightarrow> bool) \<Rightarrow> string \<Rightarrow> kroute \<Rightarrow> kroute" where
  "addHeaderValue rx v rt =
     (case split_n2 v ''='' of
        [h, x] \<Rightarrow> fst (AddHeader rx h x rt)
      | _ \<Rightarrow> rt)"

definition addMethodValue :: "(string \<Rightarrow> bool) \<Rightarrow> string \<Rightarrow> kroute \<Rightarrow> kroute" where
  "addMethodValue rx v rt = fst (AddMethod rx (to_upper v) rt)"

definition NewRoute_step :: "(string \<Rightarrow> bool) \<Rightarrow> string \<times> string \<Rightarrow> kroute \<Rightarrow> kroute" where
  "NewRoute_step rx kv rt =
     (case kv of (key, val) \<Rightarrow>
        if key = HeadersKey then fold (addHeaderValue rx) (splitHeaderValues val) rt
        else if key = MethodsKey then fold (addMethodValue rx) (splitHeaderValues val) rt
        else if key = HostKey then fst (AddHost rx val rt)
        else if key = PathKey then fst (AddPath rx val rt)
        else if key = PrefixKey then fst (AddPrefix rx val rt)
        else rt)"

definition NewRoute :: "(string \<Rightarrow> bool) \<Rightarrow> (string list \<Rightarrow> string list) \<Rightarrow> annotations \<Rightarrow> kroute" where
  "NewRoute rx rng anno = fold (NewRoute_step rx) (gm_range rng anno) \<lparr>rt_parts = []\<rparr>"

section \<open>What an operation adds to a route\<close>

text \<open>
  Every step of \<^verbatim>\<open>NewRoute\<close> appends parts of one kind that do not depend on the route so far.
\<close>

definition appends :: "string \<Rightarrow> (kroute \<Rightarrow> kroute) \<Rightarrow> bool" where
  "appends kind f \<longleftrightarrow>
     (\<exists>ps. (\<forall>p \<in> set ps. rp_kind p = kind) \<and> (\<forall>r. f r = r\<lparr>rt_parts := rt_parts r @ ps\<rparr>))"

lemma appendsI:
  "(\<And>p. p \<in> set ps \<Longrightarrow> rp_kind p = kind) \<Longrightarrow> (\<And>r. f r = r\<lparr>rt_parts := rt_parts r @ ps\<rparr>) \<Longrightarrow> appends kind f"
  by (auto simp: appends_def)

lemma appends_id: "appends kind (\<lambda>r. r)"
  by (rule appendsI [of "[]"]) simp_all

lemma appends_comp: "appends kind f \<Longrightarrow> appends kind g \<Longrightarrow> appends kind (\<lambda>r. g (f r))"
proof -
  assume "appends kind f" and "appends kind g"
  then obtain ps qs where "\<forall>p \<in> set ps. rp_kind p = kind" "\<forall>r. f r = r\<lparr>rt_parts := rt_parts r @ ps\<rparr>"
      "\<forall>p \<in> set qs. rp_kind p = kind" "\<forall>r. g r = r\<lparr>rt_parts := rt_parts r @ qs\<rparr>"
    by (auto simp: appends_def)
  then show ?thesis by (intro appendsI [of "ps @ qs"]) auto
qed

lemma appends_fold: "(\<And>x. appends kind (f x)) \<Longrightarrow> appends kind (fold f xs)"
proof (induction xs)
  case Nil
  then show ?case using appends_id by (simp add: id_def)
next
  case (Cons x xs)
  then show ?case using appends_comp [of kind "f x" "fold f xs"] by (simp add: comp_def)
qed

lemma route_add_appends: "appends (rp_kind part) (\<lambda>r. fst (route_add rx part val r))"
proof (cases "isRegexp val \<and> rx (trim CHR ''|'' val)")
  case True
  then show ?thesis
    by (intro appendsI [of "[part\<lparr>rp_value := trim CHR ''|'' val, rp_regex := True\<rparr>]"])
      (simp_all add: route_add_def)
next
  case False
  then show ?thesis
    by (intro appendsI [of "if isRegexp val then [] else [part]"])
      (auto simp: route_add_def Let_def split: if_splits)
qed

lemma Add_appends:
  "appends HostPart (\<lambda>r. fst (AddHost rx v r))" "appends PathPart (\<lambda>r. fst (AddPath rx v r))"
  "appends PrefixPart (\<lambda>r. fst (AddPrefix rx v r))" "appends MethodPart (\<lambda>r. fst (AddMethod rx v r))"
  "appends HeaderPart (\<lambda>r. fst (AddHeader rx h v r))"
  using route_add_appends [of "\<lparr>rp_kind = _, rp_header = _, rp_value = _, rp_regex = _\<rparr>"]
  by (simp_all add: AddHost_def AddPath_def AddPrefix_def AddMethod_def AddHeader_def)

lemma addHeaderValue_appends: "appends HeaderPart (addHeaderValue rx v)"
proof -
  consider h x where "split_n2 v ''='' = [h, x]" | "split_n2 v ''='' = [v]"
    by (cases "cut ''='' v") (auto simp: split_n2_def)
  then show ?thesis
    using Add_appends(5) [of rx] appends_id by cases (simp_all add: addHeaderValue_def [abs_def])
qed

lemma addMethodValue_appends: "appends MethodPart (addMethodValue rx v)"
  using Add_appends(4) by (simp add: addMethodValue_def [abs_def])

text \<open>The kind of the parts an annotation key adds.\<close>

definition kindOfKey :: "string \<Rightarrow> string" where
  "kindOfKey key = (if key = HeadersKey then HeaderPart else if key = MethodsKey then MethodPart else key)"

lemma kindOfKey_inj: "kindOfKey a = kindOfKey b \<Longrightarrow> a \<notin> {MethodPart, HeaderPart} \<Longrightarrow>
    b \<notin> {MethodPart, HeaderPart} \<Longrightarrow> a = b"
  by (auto simp: kindOfKey_def split: if_splits)

lemma NewRoute_step_appends: "appends (kindOfKey (fst kv)) (NewRoute_step rx kv)"
proof (cases kv)
  case (Pair key val)
  have "NewRoute_step rx kv =
     (if key = HeadersKey then fold (addHeaderValue rx) (splitHeaderValues val)
      else if key = MethodsKey then fold (addMethodValue rx) (splitHeaderValues val)
      else if key = HostKey then (\<lambda>r. fst (AddHost rx val r))
      else if key = PathKey then (\<lambda>r. fst (AddPath rx val r))
      else if key = PrefixKey then (\<lambda>r. fst (AddPrefix rx val r))
      else (\<lambda>r. r))"
    by (simp add: NewRoute_step_def Pair fun_eq_iff)
  then show ?thesis
    using Add_appends(1-3) [of rx val] appends_id
      appends_fold [of _ "addHeaderValue rx", OF addHeaderValue_appends]
      appends_fold [of _ "addMethodValue rx", OF addMethodValue_appends]
    by (simp add: Pair kindOfKey_def)
qed

definition keyParts :: "(string \<Rightarrow> bool) \<Rightarrow> string \<times> string \<Rightarrow> route_part list" where
  "keyParts rx kv = rt_parts (NewRoute_step rx kv \<lparr>rt_parts = []\<rparr>)"

lemma NewRoute_step_parts: "NewRoute_step rx kv r = r\<lparr>rt_parts := rt_parts r @ keyParts rx kv\<rparr>"
  using NewRoute_step_appends [of kv rx] by (auto simp: appends_def keyParts_def)

lemma keyParts_kind: "p \<in> set (keyParts rx kv) \<Longrightarrow> rp_kind p = kindOfKey (fst kv)"
  using NewRoute_step_appends [of kv rx] by (auto simp: appends_def keyParts_def)

lemma fold_NewRoute_step:
  "fold (NewRoute_step rx) es r = r\<lparr>rt_parts := rt_parts r @ concat (map (keyParts rx) es)\<rparr>"
  by (induction es arbitrary: r) (simp_all add: NewRoute_step_parts)

lemma NewRoute_parts: "rt_parts (NewRoute rx rng an) = concat (map (keyParts rx) (gm_range rng an))"
  by (simp add: NewRoute_def fold_NewRoute_step)

lemma keyParts_other: "k \<notin> {HeadersKey, MethodsKey, HostKey, PathKey, PrefixKey} \<Longrightarrow> keyParts rx (k, v) = []"
  by (simp add: keyParts_def NewRoute_step_def)

text \<open>The parts of one kind, in order, come from one annotation: the order of the loop has no part in them.\<close>

definition keyOfKind :: "string \<Rightarrow> string" where
  "keyOfKind kind = (if kind = HeaderPart then HeadersKey else if kind = MethodPart then MethodsKey else kind)"

lemma keyParts_filter_other:
  "fst e \<noteq> keyOfKind kind \<Longrightarrow> filter (\<lambda>p. rp_kind p = kind) (keyParts rx e) = []"
  using keyParts_kind [of _ rx e] keyParts_other [of "fst e" rx "snd e"]
  by (cases "fst e \<in> {HeadersKey, MethodsKey, HostKey, PathKey, PrefixKey}")
    (auto simp: keyOfKind_def kindOfKey_def filter_empty_conv)

lemma NewRoute_kind_parts:
  assumes "gm_wf an" and "range_ok rng"
  shows "filter (\<lambda>p. rp_kind p = kind) (rt_parts (NewRoute rx rng an)) =
     (case gm_get an (keyOfKind kind) of
        None \<Rightarrow> [] | Some v \<Rightarrow> filter (\<lambda>p. rp_kind p = kind) (keyParts rx (keyOfKind kind, v)))"
proof -
  let ?es = "gm_range rng an"
  have perm: "mset ?es = mset an" using assms by (rule mset_gm_range)
  then have "distinct (map fst ?es)"
    using gm_wf_distinct [OF assms(1)] by (metis mset_map mset_eq_imp_distinct_iff)
  moreover from this perm have "map_of ?es = map_of an"
    by (metis assms(1) gm_wf_distinct map_of_inject_set set_mset_mset)
  ultimately show ?thesis
    unfolding NewRoute_parts
    by (subst filter_concat_single [where k = "keyOfKind kind"]) (auto simp: keyParts_filter_other)
qed

lemma mset_NewRoute_parts:
  assumes "gm_wf an" and "range_ok rng"
  shows "mset (rt_parts (NewRoute rx rng an)) = mset (concat (map (keyParts rx) an))"
  unfolding NewRoute_parts by (rule mset_concat_map [OF mset_gm_range [OF assms]])

lemma RouteString_cong: "mset (rt_parts r) = mset (rt_parts r') \<Longrightarrow> RouteString r = RouteString r'"
proof -
  assume "mset (rt_parts r) = mset (rt_parts r')"
  then have "sort (map routePartString (rt_parts r)) = sort (map routePartString (rt_parts r'))"
    by (intro properties_for_sort) simp_all
  then show ?thesis by (simp add: RouteString_def)
qed

section \<open>Properties\<close>

text \<open>
  A route does not depend on the order in which Go walks the annotation map. The parts of
  each kind are the same and in the same order, and so is the printed route, for any two orders.
\<close>

lemma new_route_order_independent:
  assumes "gm_wf an" and "range_ok rng1" and "range_ok rng2"
  shows "RouteString (NewRoute rx rng1 an) = RouteString (NewRoute rx rng2 an) \<and>
     filter (\<lambda>p. rp_kind p = kind) (RouteParts (NewRoute rx rng1 an)) =
     filter (\<lambda>p. rp_kind p = kind) (RouteParts (NewRoute rx rng2 an))"
proof
  have "mset (rt_parts (NewRoute rx rng1 an)) = mset (rt_parts (NewRoute rx rng2 an))"
    using assms by (simp add: mset_NewRoute_parts)
  then show "RouteString (NewRoute rx rng1 an) = RouteString (NewRoute rx rng2 an)"
    by (rule RouteString_cong)
  show "filter (\<lambda>p. rp_kind p = kind) (RouteParts (NewRoute rx rng1 an)) =
      filter (\<lambda>p. rp_kind p = kind) (RouteParts (NewRoute rx rng2 an))"
    using assms by (simp add: RouteParts_def NewRoute_kind_parts)
qed

end
