(* ===== verification/Kube_Endpoints.thy ===== *)
theory Kube_Endpoints
  imports Kube_Api "HOL-Library.AList"
begin

text \<open>
  \<^verbatim>\<open>endpoints.RepackSubsets\<close>, which the program calls on the subsets of an Endpoints object
  before it reads servers from them (\<^verbatim>\<open>k8s.io/kubernetes/pkg/api/endpoints/util.go\<close>).

  The Go code keeps one pointer per address key in \<^verbatim>\<open>allAddrs\<close> and uses the pointers as map
  keys; the model uses the address key itself for the pointer. The maps are association lists
  here, ranged over in an order that is a parameter, as are the three hashes: the MD5 sums that
  Go prints of a deep dump of a value.
\<close>

record hash_env =
  he_range_ports :: "endpoint_port list \<Rightarrow> endpoint_port list"
  he_range_addrs :: "(string \<times> string) list \<Rightarrow> (string \<times> string) list"
  he_range_keys :: "string list \<Rightarrow> string list"
  he_hash_addrs :: "(endpoint_address \<times> bool) list \<Rightarrow> string"
  he_hash_port :: "endpoint_port \<Rightarrow> string"
  he_hash_subset :: "endpoint_subset \<Rightarrow> string"

type_synonym address_key = "string \<times> string"
type_synonym address_set = "(address_key \<times> bool) list"
type_synonym repack_state = "(address_key \<times> endpoint_address) list \<times> (endpoint_port \<times> address_set) list"

definition addressKey :: "endpoint_address \<Rightarrow> address_key" where
  "addressKey a = (ea_ip a, case ea_uid a of None \<Rightarrow> [] | Some u \<Rightarrow> u)"

definition mapAddressByPort :: "endpoint_port \<Rightarrow> bool \<Rightarrow> endpoint_address \<Rightarrow> repack_state \<Rightarrow> repack_state" where
  "mapAddressByPort port ready addr st =
     (let key = addressKey addr;
          allAddrs = (case map_of (fst st) key of
                        None \<Rightarrow> AList.update key addr (fst st)
                      | Some _ \<Rightarrow> fst st);
          ports = (case map_of (snd st) port of None \<Rightarrow> AList.update port [] (snd st) | Some _ \<Rightarrow> snd st);
          addrs = (case map_of ports port of None \<Rightarrow> [] | Some s \<Rightarrow> s)
      in (allAddrs,
          (case map_of addrs key of
             Some False \<Rightarrow> ports
           | _ \<Rightarrow> AList.update port (AList.update key ready addrs) ports)))"

definition LessEndpointAddress :: "endpoint_address \<Rightarrow> endpoint_address \<Rightarrow> bool" where
  "LessEndpointAddress a b =
     (if ea_ip a \<noteq> ea_ip b then ea_ip a < ea_ip b
      else (case (ea_uid a, ea_uid b) of
              (_, None) \<Rightarrow> False
            | (None, Some _) \<Rightarrow> True
            | (Some u, Some v) \<Rightarrow> u < v))"

definition lessAddrReady :: "endpoint_address \<times> bool \<Rightarrow> endpoint_address \<times> bool \<Rightarrow> bool" where
  "lessAddrReady a b = LessEndpointAddress (fst a) (fst b)"

text \<open>The pointers of an address set, read back, in the order a loop visits them.\<close>

definition derefAddrs ::
  "hash_env \<Rightarrow> (address_key \<times> endpoint_address) list \<Rightarrow> address_set \<Rightarrow> (endpoint_address \<times> bool) list" where
  "derefAddrs he allAddrs addrs =
     List.map_filter (\<lambda>(k, ready). map_option (\<lambda>a. (a, ready)) (map_of allAddrs k))
       (gm_range (he_range_addrs he) addrs)"

definition hashAddresses ::
  "hash_env \<Rightarrow> (address_key \<times> endpoint_address) list \<Rightarrow> address_set \<Rightarrow> string" where
  "hashAddresses he allAddrs addrs = he_hash_addrs he (go_sort lessAddrReady (derefAddrs he allAddrs addrs))"

definition SortSubsets :: "hash_env \<Rightarrow> endpoint_subset list \<Rightarrow> endpoint_subset list" where
  "SortSubsets he subsets =
     go_sort (\<lambda>a b. he_hash_subset he a < he_hash_subset he b)
       (map (\<lambda>ss. \<lparr>ss_addresses = go_sort LessEndpointAddress (ss_addresses ss),
                   ss_notready = go_sort LessEndpointAddress (ss_notready ss),
                   ss_ports = go_sort (\<lambda>a b. he_hash_port he a < he_hash_port he b) (ss_ports ss)\<rparr>)
          subsets)"

text \<open>The three loops of \<^verbatim>\<open>RepackSubsets\<close>: ports to hosts, hosts to ports, the new subsets.\<close>

definition mapSubset :: "endpoint_subset \<Rightarrow> repack_state \<Rightarrow> repack_state" where
  "mapSubset ss st =
     fold (\<lambda>port st. fold (mapAddressByPort port False) (ss_notready ss)
                       (fold (mapAddressByPort port True) (ss_addresses ss) st))
       (ss_ports ss) st"

definition groupPort ::
  "hash_env \<Rightarrow> (address_key \<times> endpoint_address) list \<Rightarrow> endpoint_port \<times> address_set \<Rightarrow>
     (string \<times> address_set) list \<times> (string \<times> endpoint_port list) list \<Rightarrow>
     (string \<times> address_set) list \<times> (string \<times> endpoint_port list) list" where
  "groupPort he allAddrs pa st =
     (let key = hashAddresses he allAddrs (snd pa);
          ports = (case map_of (snd st) key of None \<Rightarrow> [] | Some ps \<Rightarrow> ps)
      in (AList.update key (snd pa) (fst st), AList.update key (ports @ [fst pa]) (snd st)))"

definition packSubset ::
  "hash_env \<Rightarrow> (address_key \<times> endpoint_address) list \<Rightarrow> (string \<times> address_set) list \<Rightarrow>
     string \<times> endpoint_port list \<Rightarrow> endpoint_subset" where
  "packSubset he allAddrs keyToAddrs kp =
     (let addrs = derefAddrs he allAddrs (case map_of keyToAddrs (fst kp) of None \<Rightarrow> [] | Some s \<Rightarrow> s)
      in \<lparr>ss_addresses = map fst (filter snd addrs),
          ss_notready = map fst (filter (\<lambda>x. \<not> snd x) addrs),
          ss_ports = snd kp\<rparr>)"

definition RepackSubsets :: "hash_env \<Rightarrow> endpoint_subset list \<Rightarrow> endpoint_subset list" where
  "RepackSubsets he subsets =
     (let (allAddrs, portToAddrs) = fold mapSubset subsets ([], []);
          (keyToAddrs, keyToPorts) =
            fold (groupPort he allAddrs) (gm_range (he_range_ports he) portToAddrs) ([], [])
      in SortSubsets he (map (packSubset he allAddrs keyToAddrs) (gm_range (he_range_keys he) keyToPorts)))"

section \<open>What repacking keeps\<close>

text \<open>A port that offers an address, ready or not; addresses count by their key.\<close>

definition offers :: "endpoint_subset list \<Rightarrow> (endpoint_port \<times> address_key \<times> bool) set" where
  "offers subsets =
     {(p, addressKey a, ready) | p a ready. \<exists>ss \<in> set subsets. p \<in> set (ss_ports ss) \<and>
        a \<in> set (if ready then ss_addresses ss else ss_notready ss)}"

definition addressesOf :: "endpoint_subset list \<Rightarrow> endpoint_address set" where
  "addressesOf subsets = (\<Union>ss \<in> set subsets. set (ss_addresses ss) \<union> set (ss_notready ss))"

type_synonym visit = "endpoint_port \<times> bool \<times> endpoint_address"

definition visits :: "endpoint_subset \<Rightarrow> visit list" where
  "visits ss = concat (map (\<lambda>p. map (\<lambda>a. (p, True, a)) (ss_addresses ss) @ map (\<lambda>a. (p, False, a)) (ss_notready ss)) (ss_ports ss))"

definition visit :: "visit \<Rightarrow> repack_state \<Rightarrow> repack_state" where
  "visit v = mapAddressByPort (fst v) (fst (snd v)) (snd (snd v))"

lemma mapSubset_visits: "mapSubset ss st = fold visit (visits ss) st"
proof -
  have "fold (\<lambda>port st. fold (mapAddressByPort port False) ns (fold (mapAddressByPort port True) as st)) ps st =
     fold visit (concat (map (\<lambda>p. map (\<lambda>a. (p, True, a)) as @ map (\<lambda>a. (p, False, a)) ns) ps)) st" for ns as ps
    by (induction ps arbitrary: st) (simp_all add: fold_map comp_def visit_def)
  then show ?thesis by (simp add: mapSubset_def visits_def)
qed

lemma fold_mapSubset: "fold mapSubset subsets st = fold visit (concat (map visits subsets)) st"
  by (induction subsets arbitrary: st) (simp_all add: mapSubset_visits)

lemma set_visits: "(p, r, a) \<in> set (visits ss) \<longleftrightarrow> p \<in> set (ss_ports ss) \<and> a \<in> set (if r then ss_addresses ss else ss_notready ss)"
  by (auto simp: visits_def)

lemma offers_visits:
  "(p, k, r) \<in> offers subsets \<longleftrightarrow> (\<exists>a. (p, r, a) \<in> set (concat (map visits subsets)) \<and> addressKey a = k)"
  by (auto simp: offers_def set_visits)

lemma addressesOf_visits: "(p, r, a) \<in> set (concat (map visits subsets)) \<Longrightarrow> a \<in> addressesOf subsets"
  by (auto simp: addressesOf_def set_visits split: if_splits)

text \<open>What the two maps of the first loop hold after some visits.\<close>

definition offered :: "(endpoint_port \<times> address_set) list \<Rightarrow> endpoint_port \<Rightarrow> address_key \<Rightarrow> bool option" where
  "offered ports p k = (case map_of ports p of None \<Rightarrow> None | Some s \<Rightarrow> map_of s k)"

definition visited :: "visit list \<Rightarrow> repack_state \<Rightarrow> bool" where
  "visited vs st \<longleftrightarrow>
     (\<forall>(p, r, a) \<in> set vs. \<exists>b. map_of (fst st) (addressKey a) = Some b) \<and>
     (\<forall>k b. map_of (fst st) k = Some b \<longrightarrow> addressKey b = k \<and> b \<in> (\<lambda>(p, r, a). a) ` set vs) \<and>
     distinct (map fst (snd st)) \<and> (\<forall>(p, s) \<in> set (snd st). distinct (map fst s)) \<and>
     (\<forall>p k. offered (snd st) p k =
        (if \<exists>a. (p, False, a) \<in> set vs \<and> addressKey a = k then Some False
         else if \<exists>a. (p, True, a) \<in> set vs \<and> addressKey a = k then Some True else None))"

lemma offered_mapAddressByPort:
  "offered (snd (mapAddressByPort port r a st)) p k =
     (if p = port \<and> k = addressKey a then Some (if offered (snd st) p k = Some False then False else r) else offered (snd st) p k)"
  by (auto simp: offered_def mapAddressByPort_def Let_def update_conv' split: option.split bool.split)

lemma addresses_mapAddressByPort:
  "map_of (fst (mapAddressByPort port r a st)) k =
     (if map_of (fst st) k = None \<and> k = addressKey a then Some a else map_of (fst st) k)"
  by (auto simp: mapAddressByPort_def Let_def update_conv' split: option.split)

lemma set_update_subset: "set (AList.update k v al) \<subseteq> insert (k, v) (set al)"
  by (induction al) auto

lemma distinct_mapAddressByPort:
  assumes "distinct (map fst (snd st))" and "\<forall>(p, s) \<in> set (snd st). distinct (map fst s)"
  shows "distinct (map fst (snd (mapAddressByPort port r a st))) \<and>
    (\<forall>(p, s) \<in> set (snd (mapAddressByPort port r a st)). distinct (map fst s))"
proof -
  let ?good = "\<lambda>ports :: (endpoint_port \<times> address_set) list. distinct (map fst ports) \<and> (\<forall>(p, s) \<in> set ports. distinct (map fst s))"
  have upd: "?good (AList.update p s ports)" if "?good ports" "distinct (map fst s)" for p s ports
    using that AList.distinct_update set_update_subset [of p s ports] by fastforce
  have get: "distinct (map fst (case map_of ports p of None \<Rightarrow> [] | Some s \<Rightarrow> s))" if "?good ports" for ports p
    using that by (auto split: option.split dest!: map_of_SomeD)
  define ports where "ports = (case map_of (snd st) port of None \<Rightarrow> AList.update port [] (snd st) | Some _ \<Rightarrow> snd st)"
  define addrs where "addrs = (case map_of ports port of None \<Rightarrow> [] | Some s \<Rightarrow> s)"
  have "?good ports" using assms upd [of "snd st" "[]" port] by (auto simp: ports_def split: option.split)
  moreover from this have "?good (AList.update port (AList.update (addressKey a) r addrs) ports)"
    unfolding addrs_def by (intro upd AList.distinct_update get)
  moreover have "snd (mapAddressByPort port r a st) \<in> {ports, AList.update port (AList.update (addressKey a) r addrs) ports}"
    unfolding mapAddressByPort_def Let_def snd_conv ports_def [symmetric] addrs_def [symmetric]
    by (simp split: option.split bool.split)
  ultimately show ?thesis by fastforce
qed

lemma visited_visit: "visited vs st \<Longrightarrow> visited (vs @ [v]) (visit v st)"
proof -
  assume v: "visited vs st"
  obtain p r a where pra: "v = (p, r, a)" by (cases v)
  show ?thesis
    unfolding visited_def pra visit_def fst_conv snd_conv
  proof (intro conjI)
    show "\<forall>(p', r', a') \<in> set (vs @ [(p, r, a)]). \<exists>b. map_of (fst (mapAddressByPort p r a st)) (addressKey a') = Some b"
      using v by (fastforce simp: visited_def addresses_mapAddressByPort)
    show "\<forall>k b. map_of (fst (mapAddressByPort p r a st)) k = Some b \<longrightarrow>
        addressKey b = k \<and> b \<in> (\<lambda>(p, r, a). a) ` set (vs @ [(p, r, a)])"
      using v by (auto simp: visited_def addresses_mapAddressByPort)
    have old: "offered (snd st) q k = (if \<exists>b. (q, False, b) \<in> set vs \<and> addressKey b = k then Some False
         else if \<exists>b. (q, True, b) \<in> set vs \<and> addressKey b = k then Some True else None)" for q k
      using v unfolding visited_def by blast
    show "\<forall>q k. offered (snd (mapAddressByPort p r a st)) q k =
        (if \<exists>b. (q, False, b) \<in> set (vs @ [(p, r, a)]) \<and> addressKey b = k then Some False
         else if \<exists>b. (q, True, b) \<in> set (vs @ [(p, r, a)]) \<and> addressKey b = k then Some True else None)"
      unfolding offered_mapAddressByPort old by (cases r) auto
  qed (use v distinct_mapAddressByPort [of st p r a] in \<open>simp_all add: visited_def\<close>)
qed

lemma visited_fold: "visited vs st \<Longrightarrow> visited (vs @ ws) (fold visit ws st)"
proof (induction ws arbitrary: vs st)
  case (Cons w ws)
  from Cons.IH [OF visited_visit [OF Cons.prems]] show ?case by simp
qed simp

lemma visited_subsets: "visited (concat (map visits subsets)) (fold mapSubset subsets ([], []))"
  using visited_fold [of "[]" "([], [])" "concat (map visits subsets)"]
  by (simp add: fold_mapSubset visited_def [of "[]"] offered_def)

text \<open>The second loop groups the ports by the hash of their addresses.\<close>

definition grouped ::
  "(address_set \<Rightarrow> string) \<Rightarrow> (endpoint_port \<times> address_set) list \<Rightarrow>
     (string \<times> address_set) list \<times> (string \<times> endpoint_port list) list \<Rightarrow> bool" where
  "grouped hash l st \<longleftrightarrow>
     (\<forall>(p, s) \<in> set l. \<exists>t. map_of (fst st) (hash s) = Some t \<and> t \<in> snd ` set l \<and> hash t = hash s) \<and>
     (\<forall>h. (case map_of (snd st) h of None \<Rightarrow> [] | Some ps \<Rightarrow> ps) = map fst (filter (\<lambda>e. hash (snd e) = h) l)) \<and>
     (\<forall>h. map_of (snd st) h \<noteq> None \<longrightarrow> h \<in> hash ` snd ` set l) \<and>
     distinct (map fst (snd st))"

lemma grouped_groupPort:
  "grouped (hashAddresses he allAddrs) l st \<Longrightarrow> grouped (hashAddresses he allAddrs) (l @ [e]) (groupPort he allAddrs e st)"
  unfolding grouped_def groupPort_def Let_def fst_conv snd_conv
proof (elim conjE, intro conjI)
  let ?hash = "hashAddresses he allAddrs"
  assume a: "\<forall>(p, s) \<in> set l. \<exists>t. map_of (fst st) (?hash s) = Some t \<and> t \<in> snd ` set l \<and> ?hash t = ?hash s"
    and b: "\<forall>h. (case map_of (snd st) h of None \<Rightarrow> [] | Some ps \<Rightarrow> ps) = map fst (filter (\<lambda>e. ?hash (snd e) = h) l)"
    and c: "\<forall>h. map_of (snd st) h \<noteq> None \<longrightarrow> h \<in> ?hash ` snd ` set l" and d: "distinct (map fst (snd st))"
  show "\<forall>(p, s) \<in> set (l @ [e]). \<exists>t. map_of (AList.update (?hash (snd e)) (snd e) (fst st)) (?hash s) = Some t \<and>
      t \<in> snd ` set (l @ [e]) \<and> ?hash t = ?hash s"
    using a by (fastforce simp: update_conv')
  show "\<forall>h. (case map_of (AList.update (?hash (snd e)) ((case map_of (snd st) (?hash (snd e)) of None \<Rightarrow> [] | Some ps \<Rightarrow> ps) @ [fst e]) (snd st)) h
      of None \<Rightarrow> [] | Some ps \<Rightarrow> ps) = map fst (filter (\<lambda>e. ?hash (snd e) = h) (l @ [e]))"
    unfolding b [rule_format] using b by (simp add: update_conv')
  show "\<forall>h. map_of (AList.update (?hash (snd e)) ((case map_of (snd st) (?hash (snd e)) of None \<Rightarrow> [] | Some ps \<Rightarrow> ps) @ [fst e]) (snd st)) h \<noteq> None \<longrightarrow>
      h \<in> ?hash ` snd ` set (l @ [e])"
    using c by (auto simp: update_conv')
qed (rule AList.distinct_update)

lemma grouped_fold:
  "grouped (hashAddresses he allAddrs) l st \<Longrightarrow> grouped (hashAddresses he allAddrs) (l @ k) (fold (groupPort he allAddrs) k st)"
proof (induction k arbitrary: l st)
  case (Cons e k)
  from Cons.IH [OF grouped_groupPort [OF Cons.prems]] show ?case by simp
qed simp

lemma grouped_ports: "grouped hash l st \<Longrightarrow> (h, ps) \<in> set (snd st) \<Longrightarrow> ps = map fst (filter (\<lambda>e. hash (snd e) = h) l) \<and> ps \<noteq> []"
proof -
  assume g: "grouped hash l st" and h: "(h, ps) \<in> set (snd st)"
  then have m: "map_of (snd st) h = Some ps" by (simp add: grouped_def)
  moreover from this g have "h \<in> hash ` snd ` set l" by (simp add: grouped_def)
  moreover have "(case map_of (snd st) h of None \<Rightarrow> [] | Some ps \<Rightarrow> ps) = map fst (filter (\<lambda>e. hash (snd e) = h) l)"
    using g unfolding grouped_def by blast
  ultimately show ?thesis by (auto simp: filter_empty_conv)
qed

lemma grouped_addrs:
  "grouped hash l st \<Longrightarrow> (p, s) \<in> set l \<Longrightarrow> \<exists>t. map_of (fst st) (hash s) = Some t \<and> t \<in> snd ` set l \<and> hash t = hash s"
  unfolding grouped_def by blast

lemma grouped_port:
  assumes "grouped hash l st" and "(p, s) \<in> set l"
  shows "\<exists>ps. (hash s, ps) \<in> set (snd st) \<and> p \<in> set ps"
proof -
  have eq: "(case map_of (snd st) (hash s) of None \<Rightarrow> [] | Some ps \<Rightarrow> ps) = map fst (filter (\<lambda>e. hash (snd e) = hash s) l)"
    using assms(1) unfolding grouped_def by blast
  have "p \<in> set (map fst (filter (\<lambda>e. hash (snd e) = hash s) l))" using assms(2) by force
  then have "p \<in> set (case map_of (snd st) (hash s) of None \<Rightarrow> [] | Some ps \<Rightarrow> ps)" by (simp only: eq)
  then show ?thesis by (cases "map_of (snd st) (hash s)") (use map_of_SomeD in fastforce)+
qed

text \<open>The addresses of a set, read back.\<close>

lemma set_derefAddrs:
  assumes "distinct (map fst s)" and "range_ok (he_range_addrs he)"
  shows "set (derefAddrs he allAddrs s) = {(a, r). \<exists>k. (k, r) \<in> set s \<and> map_of allAddrs k = Some a}"
  using set_gm_range_distinct [OF assms] by (force simp: derefAddrs_def List.map_filter_def)

lemma keys_derefAddrs:
  assumes "distinct (map fst s)" and "range_ok (he_range_addrs he)" and "\<And>k a. map_of allAddrs k = Some a \<Longrightarrow> addressKey a = k"
  shows "distinct (map (addressKey \<circ> fst) (derefAddrs he allAddrs s))"
proof -
  have keys: "map (addressKey \<circ> fst) (List.map_filter (\<lambda>(k, ready). map_option (\<lambda>a. (a, ready)) (map_of allAddrs k)) l) =
      filter (\<lambda>k. map_of allAddrs k \<noteq> None) (map fst l)" for l
    using assms(3) by (induction l) (auto simp: List.map_filter_simps)
  have "distinct (map fst (gm_range (he_range_addrs he) s))"
    using assms(1) mset_gm_range_distinct [OF assms(1,2)] by (metis distinct_map mset_eq_imp_distinct_iff set_mset_mset)
  then show ?thesis unfolding derefAddrs_def keys by (rule distinct_filter)
qed

lemma visited_parts:
  assumes "visited vs (allAddrs, ports)"
  shows "map_of allAddrs k = Some b \<Longrightarrow> addressKey b = k" and "map_of allAddrs k = Some b \<Longrightarrow> \<exists>p r. (p, r, b) \<in> set vs"
    and "distinct (map fst ports)" and "(p, s) \<in> set ports \<Longrightarrow> distinct (map fst s)"
    and "(p, s) \<in> set ports \<Longrightarrow> (k, r) \<in> set s \<Longrightarrow> offered ports p k = Some r"
    and "offered ports p k = Some r \<Longrightarrow> \<exists>b. map_of allAddrs k = Some b"
    and "offered ports p k = Some r \<longleftrightarrow> (if r then (\<exists>a. (p, True, a) \<in> set vs \<and> addressKey a = k) \<and> \<not> (\<exists>a. (p, False, a) \<in> set vs \<and> addressKey a = k)
      else \<exists>a. (p, False, a) \<in> set vs \<and> addressKey a = k)"
proof -
  note v = assms [unfolded visited_def fst_conv snd_conv]
  have all: "map_of allAddrs k = Some b \<longrightarrow> addressKey b = k \<and> b \<in> (\<lambda>(p, r, a). a) ` set vs" using v by blast
  then show "map_of allAddrs k = Some b \<Longrightarrow> addressKey b = k" by blast
  show "map_of allAddrs k = Some b \<Longrightarrow> \<exists>p r. (p, r, b) \<in> set vs" using all by auto
  show d: "distinct (map fst ports)" using v by blast
  show ds: "(p, s) \<in> set ports \<Longrightarrow> distinct (map fst s)" using v by blast
  show "(p, s) \<in> set ports \<Longrightarrow> (k, r) \<in> set s \<Longrightarrow> offered ports p k = Some r" using d ds by (simp add: offered_def)
  have off: "offered ports p k = (if \<exists>a. (p, False, a) \<in> set vs \<and> addressKey a = k then Some False
      else if \<exists>a. (p, True, a) \<in> set vs \<and> addressKey a = k then Some True else None)" using v by blast
  have "\<exists>b. map_of allAddrs (addressKey a) = Some b" if "(p, r, a) \<in> set vs" for r a using v that by fast
  then show "offered ports p k = Some r \<Longrightarrow> \<exists>b. map_of allAddrs k = Some b"
    unfolding off by (auto split: if_splits)
  show "offered ports p k = Some r \<longleftrightarrow> (if r then (\<exists>a. (p, True, a) \<in> set vs \<and> addressKey a = k) \<and> \<not> (\<exists>a. (p, False, a) \<in> set vs \<and> addressKey a = k)
      else \<exists>a. (p, False, a) \<in> set vs \<and> addressKey a = k)"
    unfolding off by auto
qed

definition collision_free :: "hash_env \<Rightarrow> endpoint_address set \<Rightarrow> bool" where
  "collision_free he as \<longleftrightarrow> inj_on (he_hash_addrs he) {xs. distinct (map (addressKey \<circ> fst) xs) \<and> fst ` set xs \<subseteq> as}"

text \<open>Ports with the same hash have the same addresses.\<close>

lemma hashAddresses_inject:
  assumes "visited vs (allAddrs, ports)" and "range_ok (he_range_addrs he)" and "collision_free he ((\<lambda>(p, r, a). a) ` set vs)"
    and "(p, s) \<in> set ports" and "(q, t) \<in> set ports" and "hashAddresses he allAddrs s = hashAddresses he allAddrs t"
  shows "set (derefAddrs he allAddrs s) = set (derefAddrs he allAddrs t)"
proof -
  note v = visited_parts [OF assms(1)]
  have mem: "go_sort lessAddrReady (derefAddrs he allAddrs u) \<in> {xs. distinct (map (addressKey \<circ> fst) xs) \<and> fst ` set xs \<subseteq> (\<lambda>(p, r, a). a) ` set vs}"
    if "(p', u) \<in> set ports" for p' u
  proof -
    have "distinct (map (addressKey \<circ> fst) (derefAddrs he allAddrs u))"
      using keys_derefAddrs [OF v(4) [OF that] assms(2)] v(1) by blast
    then have "distinct (map (addressKey \<circ> fst) (go_sort lessAddrReady (derefAddrs he allAddrs u)))"
      by (metis mset_eq_imp_distinct_iff mset_go_sort mset_map)
    moreover have "fst ` set (derefAddrs he allAddrs u) \<subseteq> (\<lambda>(p, r, a). a) ` set vs"
      using v(2) by (force simp: set_derefAddrs [OF v(4) [OF that] assms(2)])
    ultimately show ?thesis by simp
  qed
  have "go_sort lessAddrReady (derefAddrs he allAddrs s) = go_sort lessAddrReady (derefAddrs he allAddrs t)"
    using inj_onD [OF assms(3) [unfolded collision_free_def] _ mem [OF assms(4)] mem [OF assms(5)]] assms(6)
    by (simp add: hashAddresses_def)
  then show ?thesis by (metis set_go_sort)
qed

lemma packed:
  assumes "visited vs (allAddrs, ports)" and "range_ok (he_range_addrs he)" and "collision_free he ((\<lambda>(p, r, a). a) ` set vs)"
    and "grouped (hashAddresses he allAddrs) l (ka, kp)" and "set l = set ports" and "(h, ps) \<in> set kp"
  shows "\<exists>t. packSubset he allAddrs ka (h, ps) = \<lparr>ss_addresses = map fst (filter snd (derefAddrs he allAddrs t)),
        ss_notready = map fst (filter (\<lambda>x. \<not> snd x) (derefAddrs he allAddrs t)), ss_ports = ps\<rparr> \<and>
      (\<exists>q. (q, t) \<in> set ports) \<and> (\<forall>p \<in> set ps. \<exists>s. (p, s) \<in> set ports \<and> set (derefAddrs he allAddrs t) = set (derefAddrs he allAddrs s))"
proof -
  have ps: "ps = map fst (filter (\<lambda>e. hashAddresses he allAddrs (snd e) = h) l)" "ps \<noteq> []"
    using grouped_ports [OF assms(4)] assms(6) by auto
  then have "\<exists>e \<in> set l. hashAddresses he allAddrs (snd e) = h" by (auto simp: filter_empty_conv)
  then obtain q s where q: "(q, s) \<in> set l" "hashAddresses he allAddrs s = h" by force
  obtain t where t: "map_of ka h = Some t" "t \<in> snd ` set l" "hashAddresses he allAddrs t = h"
    using grouped_addrs [OF assms(4) q(1)] q(2) by auto
  then obtain q' where q': "(q', t) \<in> set ports" using assms(5) by auto
  have "\<exists>s. (p, s) \<in> set ports \<and> set (derefAddrs he allAddrs t) = set (derefAddrs he allAddrs s)" if "p \<in> set ps" for p
  proof -
    from that ps(1) obtain s where s: "(p, s) \<in> set ports" "hashAddresses he allAddrs s = h" using assms(5) by auto
    with hashAddresses_inject [OF assms(1-3) q' s(1)] t(3) show ?thesis by auto
  qed
  with t(1) q' show ?thesis by (intro exI [of _ t]) (auto simp: packSubset_def Let_def)
qed

lemma mset_concat_perm: "mset xs = mset ys \<Longrightarrow> mset (concat (map g xs)) = mset (concat (map g ys))"
  by (metis mset_concat mset_map sum_mset_sum_list)

definition sortedSubset :: "hash_env \<Rightarrow> endpoint_subset \<Rightarrow> endpoint_subset" where
  "sortedSubset he ss = \<lparr>ss_addresses = go_sort LessEndpointAddress (ss_addresses ss),
     ss_notready = go_sort LessEndpointAddress (ss_notready ss),
     ss_ports = go_sort (\<lambda>a b. he_hash_port he a < he_hash_port he b) (ss_ports ss)\<rparr>"

lemma SortSubsets_perm: "mset (SortSubsets he l) = mset (map (sortedSubset he) l)"
  by (simp add: SortSubsets_def sortedSubset_def [abs_def])

lemma set_SortSubsets: "set (SortSubsets he l) = sortedSubset he ` set l"
  by (metis SortSubsets_perm list.set_map set_mset_mset)

lemma offers_SortSubsets: "offers (SortSubsets he l) = offers l"
  by (auto simp: offers_def set_SortSubsets sortedSubset_def split: if_splits)

lemma ports_SortSubsets: "mset (concat (map ss_ports (SortSubsets he l))) = mset (concat (map ss_ports l))"
proof -
  have "mset (concat (map ss_ports (SortSubsets he l))) = mset (concat (map ss_ports (map (sortedSubset he) l)))"
    by (rule mset_concat_perm [OF SortSubsets_perm])
  also have "\<dots> = mset (concat (map ss_ports l))" by (induction l) (simp_all add: sortedSubset_def)
  finally show ?thesis .
qed

lemma grouped_distinct:
  assumes "grouped hash l st" and "distinct (map fst l)"
  shows "distinct (concat (map snd (snd st)))"
proof (rule distinct_concat)
  note ports = grouped_ports [OF assms(1)]
  have disj: "h = h'" if h: "(h, ps) \<in> set (snd st)" "(h', ps') \<in> set (snd st)" "p \<in> set ps" "p \<in> set ps'" for h h' ps ps' p
  proof -
    obtain s where s: "(p, s) \<in> set l" "hash s = h" using ports [OF h(1), THEN conjunct1] h(3) by auto
    obtain s' where "(p, s') \<in> set l" "hash s' = h'" using ports [OF h(2), THEN conjunct1] h(4) by auto
    with assms(2) s show ?thesis by (metis eq_key_imp_eq_value)
  qed
  have dist: "distinct (map fst (snd st))" using assms(1) by (simp add: grouped_def)
  have "inj_on snd (set (snd st))"
    using disj ports by (intro inj_onI) (metis list.set_intros(1) list.exhaust prod.collapse)
  then show "distinct (map snd (snd st))" using distinct_map [of fst "snd st"] dist by (simp add: distinct_map)
  show "distinct ys" if "ys \<in> set (map snd (snd st))" for ys
  proof -
    from that obtain h where "(h, ys) \<in> set (snd st)" by auto
    from ports [OF this] show ?thesis using distinct_map_filter [OF assms(2)] by simp
  qed
  show "set ys \<inter> set zs = {}" if "ys \<in> set (map snd (snd st))" "zs \<in> set (map snd (snd st))" "ys \<noteq> zs" for ys zs
  proof -
    from that(1,2) obtain h h' where "(h, ys) \<in> set (snd st)" "(h', zs) \<in> set (snd st)" by auto
    then show ?thesis using disj [of h ys h' zs] eq_key_imp_eq_value [OF dist, of h ys zs] that(3) by auto
  qed
qed

lemma offers_packed:
  assumes "visited vs (allAddrs, ports)" and "range_ok (he_range_addrs he)" and "collision_free he ((\<lambda>(p, r, a). a) ` set vs)"
    and "grouped (hashAddresses he allAddrs) l (ka, kp)" and "set l = set ports" and "set kps = set kp"
  shows "(p, k, r) \<in> offers (map (packSubset he allAddrs ka) kps) \<longleftrightarrow> offered ports p k = Some r"
proof
  note v = visited_parts [OF assms(1)]
  assume "(p, k, r) \<in> offers (map (packSubset he allAddrs ka) kps)"
  then obtain h ps a where hp: "(h, ps) \<in> set kp" "p \<in> set (ss_ports (packSubset he allAddrs ka (h, ps)))" "k = addressKey a"
      "a \<in> set (if r then ss_addresses (packSubset he allAddrs ka (h, ps)) else ss_notready (packSubset he allAddrs ka (h, ps)))"
    unfolding offers_def assms(6) [symmetric] by auto
  then obtain s where s: "(p, s) \<in> set ports" "(a, r) \<in> set (derefAddrs he allAddrs s)"
    using packed [OF assms(1-5) hp(1)] by (auto split: if_splits)
  then obtain k' where k': "(k', r) \<in> set s" "map_of allAddrs k' = Some a" using set_derefAddrs [OF v(4) [OF s(1)] assms(2)] by auto
  with v(1) [OF k'(2)] hp(3) v(5) [OF s(1) k'(1)] show "offered ports p k = Some r" by simp
next
  note v = visited_parts [OF assms(1)]
  assume off: "offered ports p k = Some r"
  then obtain s where s: "(p, s) \<in> set ports" "(k, r) \<in> set s"
    by (auto simp: offered_def split: option.splits dest!: map_of_SomeD)
  obtain a where a: "map_of allAddrs k = Some a" using v(6) [OF off] by blast
  obtain ps where ps: "(hashAddresses he allAddrs s, ps) \<in> set kp" "p \<in> set ps"
    using grouped_port [OF assms(4), of p s] s(1) assms(5) by auto
  have ar: "(a, r) \<in> set (derefAddrs he allAddrs s)" using s a unfolding set_derefAddrs [OF v(4) [OF s(1)] assms(2)] by blast
  obtain t s' where t: "packSubset he allAddrs ka (hashAddresses he allAddrs s, ps) =
        \<lparr>ss_addresses = map fst (filter snd (derefAddrs he allAddrs t)),
         ss_notready = map fst (filter (\<lambda>x. \<not> snd x) (derefAddrs he allAddrs t)), ss_ports = ps\<rparr>"
      "(p, s') \<in> set ports" "set (derefAddrs he allAddrs t) = set (derefAddrs he allAddrs s')"
    using packed [OF assms(1-5) ps(1)] ps(2) by blast
  have "s' = s" using eq_key_imp_eq_value [OF v(3) t(2) s(1)] .
  with ar t(3) have "(a, r) \<in> set (derefAddrs he allAddrs t)" by simp
  then have "a \<in> set (if r then map fst (filter snd (derefAddrs he allAddrs t)) else map fst (filter (\<lambda>x. \<not> snd x) (derefAddrs he allAddrs t)))"
    by (cases r) force+
  moreover have "packSubset he allAddrs ka (hashAddresses he allAddrs s, ps) \<in> set (map (packSubset he allAddrs ka) kps)"
    using ps(1) assms(6) by auto
  ultimately show "(p, k, r) \<in> offers (map (packSubset he allAddrs ka) kps)"
    unfolding offers_def v(1) [OF a, symmetric] using ps(2) t(1)
    by (intro CollectI exI conjI refl bexI [where x = "packSubset he allAddrs ka (hashAddresses he allAddrs s, ps)"]) (auto split: if_splits)
qed

lemma mset_partition_fst: "mset (map fst (filter snd xs) @ map fst (filter (\<lambda>x. \<not> snd x) xs)) = mset (map fst xs)"
  by (induction xs) auto

lemma collision_free_mono: "collision_free he bs \<Longrightarrow> as \<subseteq> bs \<Longrightarrow> collision_free he as"
  unfolding collision_free_def by (erule inj_on_subset) auto

section \<open>Properties\<close>

text \<open>
  C26: repacking keeps what the subsets offer. After \<^verbatim>\<open>RepackSubsets\<close> a port offers exactly the
  addresses it offered before, each once: as not ready if it was not ready anywhere, as ready
  otherwise. Every port is in one subset only, and every address is one of the input. This holds
  whatever the order of the map loops, as long as the hash tells different sets of these
  addresses apart.
\<close>

theorem repack_subsets_offers:
  assumes "range_ok (he_range_ports he)" and "range_ok (he_range_addrs he)" and "range_ok (he_range_keys he)"
    and "collision_free he (addressesOf subsets)"
  shows "offers (RepackSubsets he subsets) =
      {(p, k, ready). (p, k, ready) \<in> offers subsets \<and> (ready \<longrightarrow> (p, k, False) \<notin> offers subsets)} \<and>
    distinct (concat (map ss_ports (RepackSubsets he subsets))) \<and>
    (\<forall>ss \<in> set (RepackSubsets he subsets). distinct (map addressKey (ss_addresses ss @ ss_notready ss)) \<and>
       set (ss_addresses ss @ ss_notready ss) \<subseteq> addressesOf subsets)"
proof -
  obtain allAddrs ports where st: "fold mapSubset subsets ([], []) = (allAddrs, ports)" by fastforce
  let ?l = "gm_range (he_range_ports he) ports" and ?vs = "concat (map visits subsets)"
  obtain ka kp where g: "fold (groupPort he allAddrs) ?l ([], []) = (ka, kp)" by fastforce
  let ?kps = "gm_range (he_range_keys he) kp"
  let ?packed = "map (packSubset he allAddrs ka) ?kps"
  have repack: "RepackSubsets he subsets = SortSubsets he ?packed" by (simp add: RepackSubsets_def st g)
  have vis: "visited ?vs (allAddrs, ports)" using visited_subsets [of subsets] st by simp
  note v = visited_parts [OF vis]
  have from_input: "(\<lambda>(p, r, a). a) ` set ?vs \<subseteq> addressesOf subsets" using addressesOf_visits by fastforce
  have free: "collision_free he ((\<lambda>(p, r, a). a) ` set ?vs)"
    by (rule collision_free_mono [OF assms(4) from_input])
  have l: "mset ?l = mset ports" "set ?l = set ports"
    using mset_gm_range_distinct [OF v(3) assms(1)] set_gm_range_distinct [OF v(3) assms(1)] by auto
  have grp: "grouped (hashAddresses he allAddrs) ?l (ka, kp)"
    using grouped_fold [of he allAddrs "[]" "([], [])" ?l] g by (simp add: grouped_def [of _ "[]"])
  then have kp: "mset ?kps = mset kp" "set ?kps = set kp"
    using mset_gm_range_distinct [OF _ assms(3), of kp] set_gm_range_distinct [OF _ assms(3), of kp] by (auto simp: grouped_def)
  have pk: "(p, k, r) \<in> offers (RepackSubsets he subsets) \<longleftrightarrow> offered ports p k = Some r" for p k r
    unfolding repack offers_SortSubsets by (rule offers_packed [OF vis assms(2) free grp l(2) kp(2)])
  have "(p, k, r) \<in> offers (RepackSubsets he subsets) \<longleftrightarrow>
      (p, k, r) \<in> offers subsets \<and> (r \<longrightarrow> (p, k, False) \<notin> offers subsets)" for p k r
    unfolding pk v(7) unfolding offers_visits by (cases r) (simp_all only: if_True if_False simp_thms)
  moreover have "distinct (concat (map ss_ports (RepackSubsets he subsets)))"
  proof -
    have "distinct (map fst ?l)" using l(1) v(3) by (metis mset_eq_imp_distinct_iff mset_map)
    then have "distinct (concat (map snd kp))" using grouped_distinct [OF grp] by simp
    moreover have "map ss_ports ?packed = map snd ?kps" by (simp add: packSubset_def Let_def)
    ultimately show ?thesis
      unfolding repack using ports_SortSubsets [of he ?packed] mset_concat_perm [OF kp(1), of snd] by (metis mset_eq_imp_distinct_iff)
  qed
  moreover have "distinct (map addressKey (ss_addresses ss @ ss_notready ss)) \<and> set (ss_addresses ss @ ss_notready ss) \<subseteq> addressesOf subsets"
    if ss: "ss \<in> set (RepackSubsets he subsets)" for ss
  proof -
    obtain h ps where hp: "(h, ps) \<in> set kp" "ss = sortedSubset he (packSubset he allAddrs ka (h, ps))"
      using ss kp(2) unfolding repack set_SortSubsets by auto
    obtain q t where t: "packSubset he allAddrs ka (h, ps) = \<lparr>ss_addresses = map fst (filter snd (derefAddrs he allAddrs t)),
        ss_notready = map fst (filter (\<lambda>x. \<not> snd x) (derefAddrs he allAddrs t)), ss_ports = ps\<rparr>" "(q, t) \<in> set ports"
      using packed [OF vis assms(2) free grp l(2) hp(1)] by blast
    let ?xs = "derefAddrs he allAddrs t"
    have m: "mset (ss_addresses ss @ ss_notready ss) = mset (map fst ?xs)"
      using mset_partition_fst [of ?xs] by (simp add: hp(2) t(1) sortedSubset_def)
    then have "mset (map addressKey (ss_addresses ss @ ss_notready ss)) = mset (map (addressKey \<circ> fst) ?xs)"
      by (metis map_map mset_map)
    moreover have "distinct (map (addressKey \<circ> fst) ?xs)" using keys_derefAddrs [OF v(4) [OF t(2)] assms(2)] v(1) by blast
    moreover have "fst ` set ?xs \<subseteq> addressesOf subsets"
      using v(2) from_input by (force simp: set_derefAddrs [OF v(4) [OF t(2)] assms(2)])
    ultimately show ?thesis using m by (metis mset_eq_imp_distinct_iff list.set_map set_mset_mset)
  qed
  ultimately show ?thesis by auto
qed

text \<open>One address is ready in one subset and not in the other; a hash of its last digit and of the readiness.\<close>

definition sample_subsets :: "endpoint_subset list" where
  "sample_subsets =
     [\<lparr>ss_addresses = [\<lparr>ea_ip = ''10.0.0.1'', ea_uid = None\<rparr>], ss_notready = [],
       ss_ports = [\<lparr>ep_name = ''web'', ep_port = 80, ep_protocol = ''TCP''\<rparr>]\<rparr>,
      \<lparr>ss_addresses = [\<lparr>ea_ip = ''10.0.0.2'', ea_uid = None\<rparr>], ss_notready = [\<lparr>ea_ip = ''10.0.0.1'', ea_uid = None\<rparr>],
       ss_ports = [\<lparr>ep_name = ''web'', ep_port = 80, ep_protocol = ''TCP''\<rparr>]\<rparr>]"

definition digit_hash :: hash_env where
  "digit_hash = \<lparr>he_range_ports = rev, he_range_addrs = (\<lambda>ks. ks), he_range_keys = rev,
     he_hash_addrs = (\<lambda>as. concat (map (\<lambda>(a, r). [last (ea_ip a), if r then CHR ''+'' else CHR ''-'']) as)),
     he_hash_port = ep_name, he_hash_subset = (\<lambda>ss. [])\<rparr>"

lemma concat_pairs_inject: "concat (map (\<lambda>x. [f x, g x]) xs) = concat (map (\<lambda>x. [f x, g x]) ys) \<Longrightarrow> map (\<lambda>x. (f x, g x)) xs = map (\<lambda>x. (f x, g x)) ys"
proof (induction xs arbitrary: ys)
  case Nil
  then show ?case by (cases ys) simp_all
next
  case (Cons x xs)
  obtain y zs where ys: "ys = y # zs" using Cons.prems by (cases ys) simp_all
  have "f x = f y \<and> g x = g y \<and> concat (map (\<lambda>x. [f x, g x]) xs) = concat (map (\<lambda>x. [f x, g x]) zs)"
    using Cons.prems unfolding ys by simp
  then show ?case using Cons.IH [of zs] unfolding ys list.map by blast
qed

lemma sample_addresses: "addressesOf sample_subsets = {\<lparr>ea_ip = ''10.0.0.1'', ea_uid = None\<rparr>, \<lparr>ea_ip = ''10.0.0.2'', ea_uid = None\<rparr>}"
  by (simp add: addressesOf_def sample_subsets_def insert_commute)

lemma digit_hash_free: "collision_free digit_hash (addressesOf sample_subsets)"
  unfolding collision_free_def
proof (rule inj_onI, clarify)
  let ?f = "\<lambda>x. (last (ea_ip (fst x)), if snd x then CHR ''+'' else CHR ''-'')"
  fix xs ys :: "(endpoint_address \<times> bool) list"
  assume sub: "fst ` set xs \<subseteq> addressesOf sample_subsets" "fst ` set ys \<subseteq> addressesOf sample_subsets"
    and h: "he_hash_addrs digit_hash xs = he_hash_addrs digit_hash ys"
  have "map ?f xs = map ?f ys"
    by (rule concat_pairs_inject) (use h in \<open>simp add: digit_hash_def case_prod_beta'\<close>)
  moreover have "inj_on ?f (set xs \<union> set ys)"
  proof (rule inj_onI)
    fix x y assume "x \<in> set xs \<union> set ys" "y \<in> set xs \<union> set ys" and eq: "?f x = ?f y"
    then have "fst x \<in> addressesOf sample_subsets" "fst y \<in> addressesOf sample_subsets" using sub by blast+
    with eq show "x = y" by (cases x; cases y) (auto simp: sample_addresses split: if_splits)
  qed
  ultimately show "xs = ys" by (simp add: map_inj_on)
qed

theorem repack_subsets_offers_witness:
  "let web = \<lparr>ep_name = ''web'', ep_port = 80, ep_protocol = ''TCP''\<rparr> in
   (web, (''10.0.0.1'', []), True) \<in> offers sample_subsets \<and>
   (web, (''10.0.0.1'', []), True) \<notin> offers (RepackSubsets digit_hash sample_subsets) \<and>
   (web, (''10.0.0.1'', []), False) \<in> offers (RepackSubsets digit_hash sample_subsets) \<and>
   (web, (''10.0.0.2'', []), True) \<in> offers (RepackSubsets digit_hash sample_subsets)"
proof -
  let ?web = "\<lparr>ep_name = ''web'', ep_port = 80, ep_protocol = ''TCP''\<rparr>"
  have ok: "range_ok (he_range_ports digit_hash)" "range_ok (he_range_addrs digit_hash)" "range_ok (he_range_keys digit_hash)"
    by (auto simp: digit_hash_def)
  have old: "(?web, (''10.0.0.1'', []), True) \<in> offers sample_subsets" "(?web, (''10.0.0.1'', []), False) \<in> offers sample_subsets"
    "(?web, (''10.0.0.2'', []), True) \<in> offers sample_subsets" "(?web, (''10.0.0.2'', []), False) \<notin> offers sample_subsets"
    by (simp_all add: offers_visits visits_def sample_subsets_def addressKey_def ex_disj_distrib conj_disj_distribR)
  show ?thesis
    unfolding Let_def repack_subsets_offers [OF ok digit_hash_free, THEN conjunct1] using old by simp
qed

end
