(* ===== verification/Kube_Resource.thy ===== *)
theory Kube_Resource
  imports Kube_Cache Kube_Route Kube_Endpoints
begin

text \<open>
  The resources of \<^verbatim>\<open>kubernetes/resource.go\<close>: what the program registers in the load balancer
  for one port of a Service, and how it builds them from a Service, an Endpoints or an Ingress
  object. Logging has no effect on the result and is left out.

  What the code takes from its environment is one record: the annotation prefix (the package
  variable \<^verbatim>\<open>Keyspace\<close>), the order of its loops over maps, \<^verbatim>\<open>regexp.Compile\<close>, MD5, the hashes
  behind \<^verbatim>\<open>RepackSubsets\<close>, \<^verbatim>\<open>url.Parse\<close>, and the time.
\<close>

record go_env =
  Keyspace :: string
  env_range :: "string list \<Rightarrow> string list"
  env_regexp :: "string \<Rightarrow> bool"
  env_md5 :: "string \<Rightarrow> string"
  env_hash :: hash_env
  env_url :: "string \<Rightarrow> string option"
  env_now :: int

record kserver =
  sv_id :: string
  sv_scheme :: string
  sv_ip :: string
  sv_port :: int
  sv_websocket :: bool

record resource =
  r_route :: kroute
  r_id :: string
  r_annotations :: annotations
  r_servers :: "kserver list"
  r_websocket :: bool

section \<open>NewResource\<close>

definition NewResource_step :: "string \<Rightarrow> string \<Rightarrow> string \<times> string \<Rightarrow> annotations \<Rightarrow> annotations" where
  "NewResource_step keyspace namespace kv an =
     (case kv of (key, value) \<Rightarrow>
        if has_prefix key keyspace then
          (let bits = split_n2 (path_base key) ''.'' in
           if length bits = 2 \<and> namespace = [] \<and> hd bits \<noteq> ''middleware'' then an
           else (case bits of
                   [a, b] \<Rightarrow> if a = namespace then gm_put b value an
                             else if a = ''middleware'' then gm_put (join ''.'' bits) value an
                             else an
                 | [a] \<Rightarrow> (case gm_get an a of None \<Rightarrow> gm_put a value an | Some _ \<Rightarrow> an)
                 | _ \<Rightarrow> an))
        else an)"

definition NewResource_annotations :: "go_env \<Rightarrow> string \<Rightarrow> annotations \<Rightarrow> annotations" where
  "NewResource_annotations env namespace anno =
     fold (NewResource_step (Keyspace env) namespace) (gm_range (env_range env) anno) []"

definition NewResource :: "go_env \<Rightarrow> string \<Rightarrow> string \<Rightarrow> annotations \<Rightarrow> resource" where
  "NewResource env ident namespace anno =
     (let an = NewResource_annotations env namespace anno;
          websocket = (case gm_get an ''websocket'' of
                         Some val \<Rightarrow> (case parse_bool val of Some b \<Rightarrow> b | None \<Rightarrow> False)
                       | None \<Rightarrow> False)
      in \<lparr>r_route = NewRoute (env_regexp env) (env_range env) an, r_id = ident, r_annotations = an,
          r_servers = [], r_websocket = websocket\<rparr>)"

section \<open>Servers\<close>

definition AddServer :: "string \<Rightarrow> string \<Rightarrow> string \<Rightarrow> int \<Rightarrow> resource \<Rightarrow> resource" where
  "AddServer ident scheme ip port r =
     r\<lparr>r_servers := r_servers r @
         [\<lparr>sv_id = ident, sv_scheme = scheme, sv_ip = ip, sv_port = port,
           sv_websocket = (scheme = ''ws'' \<or> scheme = ''wss'')\<rparr>]\<rparr>"

definition NoServers :: "resource \<Rightarrow> bool" where
  "NoServers r \<longleftrightarrow> length (r_servers r) < 1"

definition GetAnnotation :: "resource \<Rightarrow> string \<Rightarrow> string option" where
  "GetAnnotation r key = gm_get (r_annotations r) key"

text \<open>The expression of \<^verbatim>\<open>addServersFromService\<close> is not anchored: it matches anywhere in the string.\<close>

definition validScheme :: "string \<Rightarrow> bool" where
  "validScheme sc \<longleftrightarrow> contains sc ''ws'' \<or> contains sc ''http''"

definition addServersFromService :: "go_env \<Rightarrow> service \<Rightarrow> service_port \<Rightarrow> resource \<Rightarrow> resource" where
  "addServersFromService env svc p r =
     (let namespace = om_namespace (svc_meta svc);
          name = om_name (svc_meta svc);
          ips = (if HasServiceIP svc then [svc_clusterIP svc]
                 else if length (svc_externalIPs svc) > 0 then svc_externalIPs svc
                 else [])
      in fold (\<lambda>ip r.
           let ident = GenServerID (env_md5 env) namespace name ip (sp_port p);
               scheme = (case GetAnnotation r ''scheme'' of
                           Some sc \<Rightarrow> if validScheme sc then sc else ''http''
                         | None \<Rightarrow> ''http'')
           in AddServer ident scheme ip (sp_port p) r) ips r)"

definition addServersFromEndpoints :: "go_env \<Rightarrow> endpoints \<Rightarrow> service_port \<Rightarrow> resource \<Rightarrow> resource" where
  "addServersFromEndpoints env en p r =
     (if length (en_subsets en) < 1 then r
      else
        (let namespace = om_namespace (en_meta en);
             name = om_name (en_meta en);
             subs = RepackSubsets (env_hash env) (en_subsets en)
         in fold (\<lambda>sub r. fold (\<lambda>port r.
              if \<not> matchPort p port then r
              else fold (\<lambda>addr r.
                     let ident = GenServerID (env_md5 env) namespace name (ea_ip addr) (ep_port port);
                         scheme = (case GetAnnotation r ''scheme'' of Some sc \<Rightarrow> sc | None \<Rightarrow> ''http'')
                     in AddServer ident scheme (ea_ip addr) (ep_port port) r)
                   (ss_addresses sub) r)
              (ss_ports sub) r) subs r))"

definition AddServers ::
  "go_env \<Rightarrow> service \<Rightarrow> endpoints option \<Rightarrow> service_port \<Rightarrow> resource \<Rightarrow> resource" where
  "AddServers env svc en port rsc =
     (let rsc = (case en of Some e \<Rightarrow> addServersFromEndpoints env e port rsc | None \<Rightarrow> rsc)
      in if NoServers rsc then addServersFromService env svc port rsc else rsc)"

section \<open>Routes from an Ingress\<close>

text \<open>
  Host and path of an Ingress rule replace those of the annotations; the errors of \<^verbatim>\<open>AddHost\<close>
  and \<^verbatim>\<open>AddPath\<close> are ignored, after the old parts are gone.
\<close>

definition overrideRoute :: "go_env \<Rightarrow> string \<Rightarrow> string \<Rightarrow> kroute \<Rightarrow> kroute" where
  "overrideRoute env host path rt =
     (let rt = (if host \<noteq> [] then fst (AddHost (env_regexp env) host (route_delete HostPart rt)) else rt)
      in if path \<noteq> [] then fst (AddPath (env_regexp env) path (route_delete PathPart rt)) else rt)"

text \<open>
  The first path of the rules that names the port. A rule whose \<^verbatim>\<open>HTTP\<close> pointer is nil
  panics when the loop reaches it.
\<close>

fun findIngressPath ::
  "string \<Rightarrow> service_port \<Rightarrow> ingress_rule list \<Rightarrow> (ingress_rule \<times> http_ingress_path) option go" where
  "findIngressPath name port [] = Some None"
| "findIngressPath name port (rule # rules) =
     (case ir_http rule of
        None \<Rightarrow> None
      | Some paths \<Rightarrow>
          (case find (\<lambda>p. matchIngressBackend name port (hp_backend p)) paths of
             Some p \<Rightarrow> Some (Some (rule, p))
           | None \<Rightarrow> findIngressPath name port rules))"

definition routePartsFromIngress :: "go_env \<Rightarrow> ingress \<Rightarrow> string \<Rightarrow> service_port \<Rightarrow> kroute \<Rightarrow> kroute go" where
  "routePartsFromIngress env ing name port rt =
     (if (case ing_backend ing of Some b \<Rightarrow> matchIngressBackend name port b | None \<Rightarrow> False)
      then Some (rt\<lparr>rt_parts := []\<rparr>)
      else do {
        hit \<leftarrow> findIngressPath name port (ing_rules ing);
        Some (case hit of
                Some (rule, p) \<Rightarrow> overrideRoute env (ir_host rule) (hp_path p) rt
              | None \<Rightarrow> rt)
      })"

section \<open>Resources from the three kinds of objects\<close>

text \<open>
  What the two loops of \<^verbatim>\<open>resourcesFromIngress\<close> do alike for one Ingress backend: the resource
  with its servers, or nothing when the Service or its port is not found. The Service is mapped
  to the Ingress as soon as it is found.
\<close>

definition ingressResource ::
  "go_env \<Rightarrow> kube_client \<Rightarrow> ingress \<Rightarrow> ingress_backend \<Rightarrow> kcache \<Rightarrow> resource option \<times> kcache" where
  "ingressResource env client ing backend k =
     (let namespace = om_namespace (ing_meta ing);
          name = ib_serviceName backend
      in case GetService (env_now env) client namespace name k of
           (Inl er, k) \<Rightarrow> (None, k)
         | (Inr svc, k) \<Rightarrow>
             (let k = MapServiceToIngress namespace (om_name (svc_meta svc)) (om_name (ing_meta ing)) k
              in case GetServicePort svc (ib_servicePort backend) of
                   None \<Rightarrow> (None, k)
                 | Some port \<Rightarrow>
                     (let ident = GenResourceID namespace name (intstrFromPort (sp_name port) (sp_port port));
                          r = NewResource env ident (sp_name port) (om_annotations (svc_meta svc));
                          (en, k) = GetEndpoints (env_now env) client namespace name k;
                          en = (case en of Inr e \<Rightarrow> Some e | Inl _ \<Rightarrow> None)
                      in (Some (AddServers env svc en port r), k))))"

fun ingressPathsLoop ::
  "go_env \<Rightarrow> kube_client \<Rightarrow> ingress \<Rightarrow> string \<Rightarrow> http_ingress_path list \<Rightarrow> kcache \<Rightarrow> resource list \<times> kcache" where
  "ingressPathsLoop env client ing host [] k = ([], k)"
| "ingressPathsLoop env client ing host (path # paths) k =
     (let (r, k) = ingressResource env client ing (hp_backend path) k;
          (rs, k) = ingressPathsLoop env client ing host paths k
      in case r of
           None \<Rightarrow> (rs, k)
         | Some r \<Rightarrow> (r\<lparr>r_route := overrideRoute env host (hp_path path) (r_route r)\<rparr> # rs, k))"

fun ingressRulesLoop ::
  "go_env \<Rightarrow> kube_client \<Rightarrow> ingress \<Rightarrow> ingress_rule list \<Rightarrow> kcache \<Rightarrow> (resource list \<times> kcache) go" where
  "ingressRulesLoop env client ing [] k = Some ([], k)"
| "ingressRulesLoop env client ing (rule # rules) k =
     (case ir_http rule of
        None \<Rightarrow> None
      | Some paths \<Rightarrow> do {
          let (rs, k) = ingressPathsLoop env client ing (ir_host rule) paths k;
          (rs', k) \<leftarrow> ingressRulesLoop env client ing rules k;
          Some (rs @ rs', k)
        })"

definition resourcesFromIngress ::
  "go_env \<Rightarrow> kube_client \<Rightarrow> ingress \<Rightarrow> kcache \<Rightarrow> (resource list \<times> kcache) go" where
  "resourcesFromIngress env client ing k = do {
     let (def, k) = (case ing_backend ing of
                       None \<Rightarrow> (None, k)
                     | Some b \<Rightarrow> ingressResource env client ing b k);
     let list = (case def of Some r \<Rightarrow> [r\<lparr>r_route := (r_route r)\<lparr>rt_parts := []\<rparr>\<rparr>] | None \<Rightarrow> []);
     (rs, k) \<leftarrow> ingressRulesLoop env client ing (ing_rules ing) k;
     Some (list @ rs, k)
   }"

text \<open>The loop over the ports of a Service, the same for a Service and for an Endpoints object.\<close>

fun portsLoop ::
  "go_env \<Rightarrow> kube_client \<Rightarrow> string \<Rightarrow> string \<Rightarrow> service \<Rightarrow> endpoints option \<Rightarrow> service_port list \<Rightarrow>
     kcache \<Rightarrow> (resource list \<times> kcache) go" where
  "portsLoop env client namespace name svc en [] k = Some ([], k)"
| "portsLoop env client namespace name svc en (port # ports) k = do {
     let ident = GenResourceID namespace name (intstrFromPort (sp_name port) (sp_port port));
     let r = NewResource env ident (sp_name port) (om_annotations (svc_meta svc));
     let (ing, k) = GetIngress (env_now env) client namespace name k;
     rt \<leftarrow> (case ing of
              Inr i \<Rightarrow> routePartsFromIngress env i (om_name (svc_meta svc)) port (r_route r)
            | Inl _ \<Rightarrow> Some (r_route r));
     let r = AddServers env svc en port (r\<lparr>r_route := rt\<rparr>);
     (rs, k) \<leftarrow> portsLoop env client namespace name svc en ports k;
     Some (r # rs, k)
   }"

definition resourcesFromService ::
  "go_env \<Rightarrow> kube_client \<Rightarrow> service \<Rightarrow> kcache \<Rightarrow> (resource list \<times> kcache) go" where
  "resourcesFromService env client svc k =
     (let namespace = om_namespace (svc_meta svc);
          name = om_name (svc_meta svc);
          (en, k) = GetEndpoints (env_now env) client namespace name k;
          en = (case en of Inr e \<Rightarrow> Some e | Inl _ \<Rightarrow> None)
      in portsLoop env client namespace name svc en (svc_ports svc) k)"

definition resourcesFromEndpoints ::
  "go_env \<Rightarrow> kube_client \<Rightarrow> endpoints \<Rightarrow> kcache \<Rightarrow> (resource list \<times> kcache) go" where
  "resourcesFromEndpoints env client en k =
     (let namespace = om_namespace (en_meta en);
          name = om_name (en_meta en)
      in case GetService (env_now env) client namespace name k of
           (Inl er, k) \<Rightarrow> Some ([], k)
         | (Inr svc, k) \<Rightarrow> portsLoop env client namespace name svc (Some en) (svc_ports svc) k)"

section \<open>Sorting and GenResources\<close>

definition ByID :: "resource \<Rightarrow> resource \<Rightarrow> bool" where
  "ByID a b \<longleftrightarrow> r_id a < r_id b"

definition Sort :: "resource list \<Rightarrow> (resource \<Rightarrow> resource \<Rightarrow> bool) option \<Rightarrow> resource list" where
  "Sort list fn = go_sort (case fn of Some f \<Rightarrow> f | None \<Rightarrow> ByID) list"

definition GenResources ::
  "go_env \<Rightarrow> kube_client \<Rightarrow> kobject \<Rightarrow> kcache \<Rightarrow> ((resource list \<times> err option) \<times> kcache) go" where
  "GenResources env client obj k =
     (case obj of
        KIngress t \<Rightarrow> do { (list, k) \<leftarrow> resourcesFromIngress env client t k; Some ((Sort list (Some ByID), None), k) }
      | KService t \<Rightarrow> do { (list, k) \<leftarrow> resourcesFromService env client t k; Some ((Sort list (Some ByID), None), k) }
      | KEndpoints t \<Rightarrow> do { (list, k) \<leftarrow> resourcesFromEndpoints env client t k; Some ((Sort list (Some ByID), None), k) }
      | _ \<Rightarrow> Some (([], Some (Err ''Unsupported type'')), k))"

definition ResourceMap :: "resource list \<Rightarrow> (string, resource) gomap" where
  "ResourceMap rs = fold (\<lambda>r m. gm_put (r_id r) r m) rs []"

text \<open>\<^verbatim>\<open>GetAnnotations\<close>: the annotations whose key matches; \<open>rgx\<close> is the compiled expression.\<close>

definition GetAnnotations :: "(string \<Rightarrow> bool) \<Rightarrow> (string list \<Rightarrow> string list) \<Rightarrow> resource \<Rightarrow> (string, string) gomap" where
  "GetAnnotations rgx rng r =
     fold (\<lambda>kv m. if rgx (fst kv) then gm_put (fst kv) (snd kv) m else m) (gm_range rng (r_annotations r)) []"

definition ServerRawURL :: "kserver \<Rightarrow> string" where
  "ServerRawURL s = sv_scheme s @ ''://'' @ sv_ip s @ '':'' @ itoa (sv_port s)"

text \<open>\<^verbatim>\<open>URL()\<close>: the parsed URL, printed; \<open>None\<close> is the nil pointer it returns when parsing fails.\<close>

definition ServerURL :: "go_env \<Rightarrow> kserver \<Rightarrow> string option" where
  "ServerURL env s = env_url env (ServerRawURL s)"

section \<open>Annotations of a resource\<close>

text \<open>
  Which entry of the resource's annotations a key of the Service's annotations gives: none, an
  entry that replaces what is there (\<open>True\<close>), or one that gives way to it (\<open>False\<close>).
\<close>

definition annotationScope :: "string \<Rightarrow> string \<Rightarrow> string \<Rightarrow> (bool \<times> string) option" where
  "annotationScope keyspace namespace key =
     (if \<not> has_prefix key keyspace then None
      else (case split_n2 (path_base key) ''.'' of
              [a, b] \<Rightarrow> if namespace = [] \<and> a \<noteq> ''middleware'' then None
                        else if a = namespace then Some (True, b)
                        else if a = ''middleware'' then Some (True, a @ ''.'' @ b)
                        else None
            | [a] \<Rightarrow> Some (False, a)
            | _ \<Rightarrow> None))"

definition scopedEntries :: "string \<Rightarrow> string \<Rightarrow> annotations \<Rightarrow> ((bool \<times> string) \<times> string) list" where
  "scopedEntries keyspace namespace es =
     List.map_filter (\<lambda>(key, v). map_option (\<lambda>c. (c, v)) (annotationScope keyspace namespace key)) es"

lemma scopedEntries_simps [simp]:
  "scopedEntries ks ns [] = []"
  "scopedEntries ks ns ((key, v) # es) =
     (case annotationScope ks ns key of None \<Rightarrow> scopedEntries ks ns es
      | Some c \<Rightarrow> (c, v) # scopedEntries ks ns es)"
  by (auto simp: scopedEntries_def List.map_filter_simps split: option.split)

lemma NewResource_step_scope:
  "NewResource_step ks ns (key, v) an =
     (case annotationScope ks ns key of
        None \<Rightarrow> an
      | Some (True, k) \<Rightarrow> gm_put k v an
      | Some (False, k) \<Rightarrow> (case gm_get an k of None \<Rightarrow> gm_put k v an | Some _ \<Rightarrow> an))"
proof (cases "cut ''.'' (path_base key)")
  case None
  then show ?thesis
    by (simp add: NewResource_step_def annotationScope_def split_n2_def Let_def)
next
  case (Some ab)
  then show ?thesis
    by (cases ab) (simp add: NewResource_step_def annotationScope_def split_n2_def Let_def)
qed

lemma gm_wf_NewResource_step [simp, intro]: "gm_wf an \<Longrightarrow> gm_wf (NewResource_step ks ns kv an)"
  by (cases kv) (auto simp: NewResource_step_scope split: option.split prod.split bool.split)

lemma gm_wf_fold_step: "gm_wf an \<Longrightarrow> gm_wf (fold (NewResource_step ks ns) es an)"
  by (induction es arbitrary: an) auto

lemma gm_wf_NewResource_annotations [simp]: "gm_wf (NewResource_annotations env ns anno)"
  by (simp add: NewResource_annotations_def gm_wf_fold_step)

lemma fold_NewResource_step:
  assumes "gm_wf an" and "distinct (map fst (scopedEntries ks ns es))"
  shows "gm_get (fold (NewResource_step ks ns) es an) k =
     (case map_of (scopedEntries ks ns es) (True, k) of
        Some v \<Rightarrow> Some v
      | None \<Rightarrow> (case gm_get an k of Some w \<Rightarrow> Some w | None \<Rightarrow> map_of (scopedEntries ks ns es) (False, k)))"
  using assms
proof (induction es arbitrary: an)
  case Nil
  then show ?case by (simp split: option.split)
next
  case (Cons e es)
  obtain key v where e: "e = (key, v)" by (cases e)
  show ?case
  proof (cases "annotationScope ks ns key")
    case None
    then have same: "scopedEntries ks ns (e # es) = scopedEntries ks ns es"
        "fold (NewResource_step ks ns) (e # es) an = fold (NewResource_step ks ns) es an"
      by (simp_all add: e NewResource_step_scope)
    show ?thesis using Cons unfolding same by blast
  next
    case (Some c)
    then have fresh: "map_of (scopedEntries ks ns es) c = None" and dist: "distinct (map fst (scopedEntries ks ns es))"
      using Cons.prems(2) e by (auto simp: map_of_eq_None_iff)
    let ?an = "NewResource_step ks ns (key, v) an"
    have IH: "gm_get (fold (NewResource_step ks ns) es ?an) k =
       (case map_of (scopedEntries ks ns es) (True, k) of
          Some v \<Rightarrow> Some v
        | None \<Rightarrow> (case gm_get ?an k of Some w \<Rightarrow> Some w | None \<Rightarrow> map_of (scopedEntries ks ns es) (False, k)))"
      using Cons.IH [OF gm_wf_NewResource_step [OF Cons.prems(1)] dist] .
    have step: "fold (NewResource_step ks ns) (e # es) an = fold (NewResource_step ks ns) es ?an"
      by (simp add: e)
    show ?thesis
      unfolding step IH using Cons.prems(1) fresh
      by (cases c) (auto simp: e NewResource_step_scope Some split: option.splits bool.splits)
  qed
qed

lemma scopedEntries_perm: "mset es = mset fs \<Longrightarrow> mset (scopedEntries ks ns es) = mset (scopedEntries ks ns fs)"
  by (simp add: scopedEntries_def List.map_filter_def)

lemma map_of_scopedEntries_perm:
  assumes "mset es = mset fs" and "distinct (map fst (scopedEntries ks ns es))"
  shows "distinct (map fst (scopedEntries ks ns fs))" "map_of (scopedEntries ks ns es) = map_of (scopedEntries ks ns fs)"
proof -
  have perm: "mset (scopedEntries ks ns es) = mset (scopedEntries ks ns fs)"
    using assms(1) by (rule scopedEntries_perm)
  then show dist: "distinct (map fst (scopedEntries ks ns fs))"
    using assms(2) by (metis mset_map mset_eq_imp_distinct_iff)
  show "map_of (scopedEntries ks ns es) = map_of (scopedEntries ks ns fs)"
    using perm dist assms(2) by (metis map_of_inject_set set_mset_mset)
qed

text \<open>The annotations of a resource, whatever order the loop over the map takes.\<close>

lemma NewResource_annotations_get:
  assumes "gm_wf anno" and "range_ok (env_range env)"
    and "distinct (map fst (scopedEntries (Keyspace env) ns anno))"
  shows "gm_get (NewResource_annotations env ns anno) k =
     (case map_of (scopedEntries (Keyspace env) ns anno) (True, k) of
        Some v \<Rightarrow> Some v
      | None \<Rightarrow> map_of (scopedEntries (Keyspace env) ns anno) (False, k))"
proof -
  have "mset anno = mset (gm_range (env_range env) anno)"
    using mset_gm_range [OF assms(1,2)] by simp
  note perm = map_of_scopedEntries_perm [OF this assms(3)]
  show ?thesis
    unfolding NewResource_annotations_def perm(2)
    by (simp add: fold_NewResource_step [OF gm_wf_Nil perm(1)] split: option.split)
qed

section \<open>Servers of a resource\<close>

definition mkServer :: "go_env \<Rightarrow> object_meta \<Rightarrow> string \<Rightarrow> string \<Rightarrow> int \<Rightarrow> kserver" where
  "mkServer env m scheme ip port =
     \<lparr>sv_id = GenServerID (env_md5 env) (om_namespace m) (om_name m) ip port, sv_scheme = scheme,
      sv_ip = ip, sv_port = port, sv_websocket = (scheme = ''ws'' \<or> scheme = ''wss'')\<rparr>"

text \<open>The servers an Endpoints object gives for a port: each ready address of each matching port.\<close>

definition endpointServers :: "go_env \<Rightarrow> endpoints \<Rightarrow> service_port \<Rightarrow> string option \<Rightarrow> kserver list" where
  "endpointServers env en p scheme =
     concat (map (\<lambda>sub. concat (map (\<lambda>port.
         if matchPort p port
         then map (\<lambda>addr. mkServer env (en_meta en) (case scheme of Some sc \<Rightarrow> sc | None \<Rightarrow> ''http'')
                            (ea_ip addr) (ep_port port)) (ss_addresses sub)
         else []) (ss_ports sub)))
       (if en_subsets en = [] then [] else RepackSubsets (env_hash env) (en_subsets en)))"

text \<open>The servers a Service gives: its cluster address, or else its external addresses.\<close>

definition serviceServers :: "go_env \<Rightarrow> service \<Rightarrow> service_port \<Rightarrow> string option \<Rightarrow> kserver list" where
  "serviceServers env svc p scheme =
     map (\<lambda>ip. mkServer env (svc_meta svc)
            (case scheme of Some sc \<Rightarrow> if validScheme sc then sc else ''http'' | None \<Rightarrow> ''http'') ip (sp_port p))
       (if HasServiceIP svc then [svc_clusterIP svc] else svc_externalIPs svc)"

lemma fold_AddServers_gen:
  assumes "\<And>x r. r_annotations r = an \<Longrightarrow> f x r = r\<lparr>r_servers := r_servers r @ g x\<rparr>"
  shows "r_annotations r = an \<Longrightarrow> fold f xs r = r\<lparr>r_servers := r_servers r @ concat (map g xs)\<rparr>"
  by (induction xs arbitrary: r) (simp_all add: assms)

lemma addServersFromService_eq:
  "addServersFromService env svc p r =
     r\<lparr>r_servers := r_servers r @ serviceServers env svc p (GetAnnotation r ''scheme'')\<rparr>"
proof -
  have concat1: "concat (map (\<lambda>x. [h x]) xs) = map h xs" for h :: "string \<Rightarrow> kserver" and xs
    by (induction xs) auto
  show ?thesis
    unfolding addServersFromService_def Let_def serviceServers_def
    by (subst fold_AddServers_gen [where an = "r_annotations r" and
          g = "\<lambda>ip. [mkServer env (svc_meta svc) (case GetAnnotation r ''scheme'' of
             Some sc \<Rightarrow> if validScheme sc then sc else ''http'' | None \<Rightarrow> ''http'') ip (sp_port p)]"])
      (auto simp: AddServer_def mkServer_def GetAnnotation_def concat1)
qed

lemma addServersFromEndpoints_eq:
  "addServersFromEndpoints env en p r =
     r\<lparr>r_servers := r_servers r @ endpointServers env en p (GetAnnotation r ''scheme'')\<rparr>"
proof -
  let ?sc = "case GetAnnotation r ''scheme'' of Some sc \<Rightarrow> sc | None \<Rightarrow> ''http''"
  let ?mk = "\<lambda>port addr. mkServer env (en_meta en) ?sc (ea_ip addr) (ep_port port)"
  let ?port = "\<lambda>sub port. if matchPort p port then map (?mk port) (ss_addresses sub) else []"
  let ?addr_loop = "\<lambda>port addr r. AddServer (GenServerID (env_md5 env) (om_namespace (en_meta en)) (om_name (en_meta en))
      (ea_ip addr) (ep_port port)) (case GetAnnotation r ''scheme'' of Some sc \<Rightarrow> sc | None \<Rightarrow> ''http'')
      (ea_ip addr) (ep_port port) r"
  let ?port_loop = "\<lambda>sub port r. if \<not> matchPort p port then r else fold (?addr_loop port) (ss_addresses sub) r"
  note step = fold_AddServers_gen [where an = "r_annotations r"]
  have concat1: "map h xs = concat (map (\<lambda>x. [h x]) xs)" for h :: "endpoint_address \<Rightarrow> kserver" and xs
    by (induction xs) auto
  have addr: "fold (?addr_loop port) xs q = q\<lparr>r_servers := r_servers q @ map (?mk port) xs\<rparr>"
    if "r_annotations q = r_annotations r" for port :: endpoint_port and xs :: "endpoint_address list" and q
    by (subst concat1, rule step) (simp_all add: AddServer_def mkServer_def GetAnnotation_def that)
  have port: "fold (?port_loop sub) xs q = q\<lparr>r_servers := r_servers q @ concat (map (?port sub) xs)\<rparr>"
    if "r_annotations q = r_annotations r" for sub :: endpoint_subset and xs :: "endpoint_port list" and q
    by (rule step) (simp_all add: addr that)
  have sub: "fold (\<lambda>sub. fold (?port_loop sub) (ss_ports sub)) xs q =
      q\<lparr>r_servers := r_servers q @ concat (map (\<lambda>sub. concat (map (?port sub) (ss_ports sub))) xs)\<rparr>"
    if "r_annotations q = r_annotations r" for xs :: "endpoint_subset list" and q
    by (rule step) (simp_all add: port that)
  show ?thesis
    using sub [of r "RepackSubsets (env_hash env) (en_subsets en)"]
    unfolding addServersFromEndpoints_def endpointServers_def Let_def by simp
qed

lemma AddServers_eq:
  "NoServers r \<Longrightarrow> AddServers env svc en port r =
     r\<lparr>r_servers :=
        (let es = (case en of Some e \<Rightarrow> endpointServers env e port (GetAnnotation r ''scheme'') | None \<Rightarrow> [])
         in if es = [] then serviceServers env svc port (GetAnnotation r ''scheme'') else es)\<rparr>"
  by (cases en) (auto simp: AddServers_def NoServers_def addServersFromEndpoints_eq addServersFromService_eq
      GetAnnotation_def Let_def)

lemma AddServers_route:
  "AddServers env svc en port (r\<lparr>r_route := rt\<rparr>) = (AddServers env svc en port r)\<lparr>r_route := rt\<rparr>"
  by (cases en) (auto simp: AddServers_def NoServers_def addServersFromEndpoints_eq addServersFromService_eq
      GetAnnotation_def Let_def)

lemma AddServers_fields [simp]:
  "r_id (AddServers env svc en port r) = r_id r" "r_route (AddServers env svc en port r) = r_route r"
  "r_annotations (AddServers env svc en port r) = r_annotations r"
  "r_websocket (AddServers env svc en port r) = r_websocket r"
  by (cases en; simp add: AddServers_def addServersFromEndpoints_eq addServersFromService_eq Let_def)+

lemma NewResource_fields [simp]:
  "r_id (NewResource env ident ns an) = ident" "r_servers (NewResource env ident ns an) = []"
  "NoServers (NewResource env ident ns an)"
  "r_annotations (NewResource env ident ns an) = NewResource_annotations env ns an"
  "r_route (NewResource env ident ns an) =
     NewRoute (env_regexp env) (env_range env) (NewResource_annotations env ns an)"
  by (simp_all add: NewResource_def NoServers_def Let_def)

section \<open>The loop over the ports\<close>

text \<open>The resource of one port, given what the look-up of the Ingress returned.\<close>

definition portResource ::
  "go_env \<Rightarrow> string \<Rightarrow> string \<Rightarrow> service \<Rightarrow> endpoints option \<Rightarrow> err + ingress \<Rightarrow> service_port \<Rightarrow> resource go" where
  "portResource env ns n svc en ing port =
     (let r = NewResource env (GenResourceID ns n (intstrFromPort (sp_name port) (sp_port port)))
                (sp_name port) (om_annotations (svc_meta svc))
      in map_option (\<lambda>rt. AddServers env svc en port (r\<lparr>r_route := rt\<rparr>))
           (case ing of
              Inr i \<Rightarrow> routePartsFromIngress env i (om_name (svc_meta svc)) port (r_route r)
            | Inl _ \<Rightarrow> Some (r_route r)))"

lemma those_map_Some: "(\<And>x. x \<in> set xs \<Longrightarrow> f x = Some (g x)) \<Longrightarrow> those (map f xs) = Some (map g xs)"
  by (induction xs) auto

lemma portsLoop_Cons:
  "portsLoop env cl ns n svc en (port # ports) k =
     (case portResource env ns n svc en (fst (GetIngress (env_now env) cl ns n k)) port of
        None \<Rightarrow> None
      | Some r \<Rightarrow> map_option (\<lambda>(rs, k'). (r # rs, k'))
                    (portsLoop env cl ns n svc en ports (snd (GetIngress (env_now env) cl ns n k))))"
  by (cases "GetIngress (env_now env) cl ns n k")
    (auto simp: portResource_def Let_def split: option.split sum.split Option.bind_split)

text \<open>When the Ingress look-up leaves the cache alone the loop is a map over the ports.\<close>

lemma portsLoop_stable:
  assumes "GetIngress (env_now env) cl ns n k = (ing, k)"
  shows "portsLoop env cl ns n svc en ports k =
     map_option (\<lambda>rs. (rs, k)) (those (map (portResource env ns n svc en ing) ports))"
  by (induction ports)
    (auto simp: portsLoop_Cons assms option.map_comp comp_def simp del: portsLoop.simps(2) split: option.split)

lemma portsLoop_ids:
  "portsLoop env cl ns n svc en ports k = Some (rs, k') \<Longrightarrow>
     map r_id rs = map (\<lambda>p. GenResourceID ns n (intstrFromPort (sp_name p) (sp_port p))) ports"
  by (induction ports arbitrary: k rs)
    (auto simp: portsLoop_Cons portResource_def Let_def simp del: portsLoop.simps(2) split: option.splits)

lemma Sort_ByID: "Sort list (Some ByID) = sort_key r_id list"
  by (simp add: Sort_def ByID_def [abs_def] go_sort_key)

text \<open>The identifier of the resource for a port, and the servers of the resources.\<close>

definition portID :: "service \<Rightarrow> service_port \<Rightarrow> string" where
  "portID svc p = GenResourceID (om_namespace (svc_meta svc)) (om_name (svc_meta svc)) (intstrFromPort (sp_name p) (sp_port p))"

lemma portResource_server_ids:
  assumes "portResource env ns n svc en ing port = Some r" and "x \<in> set (r_servers r)"
  shows "sv_id x \<noteq> []"
proof -
  let ?new = "NewResource env (GenResourceID ns n (intstrFromPort (sp_name port) (sp_port port))) (sp_name port)
      (om_annotations (svc_meta svc))"
  obtain rt where r: "r = AddServers env svc en port (?new\<lparr>r_route := rt\<rparr>)"
    using assms(1) by (auto simp: portResource_def Let_def split: sum.splits Option.bind_splits)
  have r0: "NoServers (?new\<lparr>r_route := rt\<rparr>)" by (simp add: NoServers_def)
  have "x \<in> set (endpointServers env e port sc) \<Longrightarrow> sv_id x \<noteq> []" for e sc
    by (auto simp: endpointServers_def mkServer_def GenServerID_def split: if_splits)
  moreover have "x \<in> set (serviceServers env svc port sc) \<Longrightarrow> sv_id x \<noteq> []" for sc
    by (auto simp: serviceServers_def mkServer_def GenServerID_def split: if_splits)
  ultimately show ?thesis
    using assms(2) unfolding r AddServers_eq [OF r0] by (auto simp: Let_def split: if_splits option.splits)
qed

lemma portsLoop_server_ids:
  "portsLoop env cl ns n svc en ports k = Some (rs, k') \<Longrightarrow> r \<in> set rs \<Longrightarrow> x \<in> set (r_servers r) \<Longrightarrow> sv_id x \<noteq> []"
  by (induction ports arbitrary: k rs)
    (auto simp: portsLoop_Cons simp del: portsLoop.simps(2) split: option.splits,
      use portResource_server_ids in blast)

lemma GenResources_Service:
  assumes "GenResources env cl (KService svc) k = Some ((rs, er), k')"
  shows "er = None \<and> sorted (map r_id rs) \<and> mset (map r_id rs) = mset (map (portID svc) (svc_ports svc))"
    and "\<forall>r \<in> set rs. \<forall>x \<in> set (r_servers r). sv_id x \<noteq> []"
proof -
  obtain list where loop: "resourcesFromService env cl svc k = Some (list, k')"
      and rs: "rs = Sort list (Some ByID)" "er = None"
    using assms by (auto simp: GenResources_def split: Option.bind_splits)
  then have "map r_id list = map (portID svc) (svc_ports svc)"
    using portsLoop_ids by (auto simp: resourcesFromService_def portID_def Let_def split: prod.splits)
  moreover have "mset (map r_id rs) = mset (map r_id list)" by (simp add: rs Sort_ByID)
  ultimately show "er = None \<and> sorted (map r_id rs) \<and> mset (map r_id rs) = mset (map (portID svc) (svc_ports svc))"
    by (simp add: rs Sort_ByID)
  show "\<forall>r \<in> set rs. \<forall>x \<in> set (r_servers r). sv_id x \<noteq> []"
    using loop portsLoop_server_ids
    by (auto simp: rs Sort_ByID resourcesFromService_def Let_def split: prod.splits)
qed

text \<open>Cache hits.\<close>

lemma GetService_hit:
  "StoreGetByKey now (kc_service k) (cacheLookupKey ns n) = Some (KService s) \<Longrightarrow>
     GetService now cl ns n k = (Inr s, k)"
  by (simp add: GetService_def StoreGet_def)

lemma GetEndpoints_hit:
  "StoreGetByKey now (kc_endpoints k) (cacheLookupKey ns n) = Some (KEndpoints e) \<Longrightarrow>
     GetEndpoints now cl ns n k = (Inr e, k)"
  by (simp add: GetEndpoints_def StoreGet_def)

lemma GetIngress_hit:
  "gm_get (kc_ingMap k) (cacheLookupKey ns n) = Some key \<Longrightarrow>
     StoreGetByKey now (kc_ingress k) key = Some (KIngress i) \<Longrightarrow> GetIngress now cl ns n k = (Inr i, k)"
  by (simp add: GetIngress_def StoreGet_def)

section \<open>Ingress resources\<close>

lemma ingressRulesLoop_panics:
  "ingressRulesLoop env cl ing rules k = None \<longleftrightarrow> (\<exists>rule \<in> set rules. ir_http rule = None)"
proof (induction rules arbitrary: k)
  case Nil
  then show ?case by simp
next
  case (Cons rule rules)
  show ?case
  proof (cases "ir_http rule")
    case None
    then show ?thesis by simp
  next
    case (Some paths)
    obtain rs k' where loop: "ingressPathsLoop env cl ing (ir_host rule) paths k = (rs, k')"
      by (cases "ingressPathsLoop env cl ing (ir_host rule) paths k")
    have "ingressRulesLoop env cl ing (rule # rules) k = None \<longleftrightarrow> ingressRulesLoop env cl ing rules k' = None"
      by (auto simp: Some loop split: Option.bind_split)
    then show ?thesis using Cons.IH [of k'] Some by simp
  qed
qed

lemma overrideRoute_kind:
  "kind \<notin> {HostPart, PathPart} \<Longrightarrow>
     filter (\<lambda>p. rp_kind p = kind) (rt_parts (overrideRoute env host path rt)) =
     filter (\<lambda>p. rp_kind p = kind) (rt_parts rt)"
  by (auto simp: overrideRoute_def Let_def route_delete_def AddHost_def AddPath_def route_add_def
      intro!: filter_cong)

text \<open>A resource for two orders of the loops over maps.\<close>

lemma NewResource_order:
  fixes ident :: string
  assumes "gm_wf anno" and "range_ok rng1" and "range_ok rng2"
    and "distinct (map fst (scopedEntries (Keyspace env) ns anno))"
  defines "r1 \<equiv> NewResource (env\<lparr>env_range := rng1\<rparr>) ident ns anno"
    and "r2 \<equiv> NewResource (env\<lparr>env_range := rng2\<rparr>) ident ns anno"
  shows "r_annotations r1 = r_annotations r2" and "r_websocket r1 = r_websocket r2"
    and "mset (rt_parts (r_route r1)) = mset (rt_parts (r_route r2))"
    and "filter (\<lambda>p. rp_kind p = kind) (rt_parts (r_route r1)) = filter (\<lambda>p. rp_kind p = kind) (rt_parts (r_route r2))"
proof -
  have an: "NewResource_annotations (env\<lparr>env_range := rng1\<rparr>) ns anno = NewResource_annotations (env\<lparr>env_range := rng2\<rparr>) ns anno"
    using assms(1-4) by (intro gm_eqI) (simp_all add: NewResource_annotations_get split: option.split)
  then show "r_annotations r1 = r_annotations r2" and "r_websocket r1 = r_websocket r2"
    by (simp_all add: r1_def r2_def NewResource_def Let_def)
  show "mset (rt_parts (r_route r1)) = mset (rt_parts (r_route r2))"
    and "filter (\<lambda>p. rp_kind p = kind) (rt_parts (r_route r1)) = filter (\<lambda>p. rp_kind p = kind) (rt_parts (r_route r2))"
    using assms(2,3) by (simp_all add: r1_def r2_def NewResource_def Let_def an mset_NewRoute_parts NewRoute_kind_parts)
qed

section \<open>Properties\<close>

definition sample_hash :: hash_env where
  "sample_hash = \<lparr>he_range_ports = (\<lambda>ks. ks), he_range_addrs = (\<lambda>ks. ks), he_range_keys = (\<lambda>ks. ks),
     he_hash_addrs = (\<lambda>as. concat (map (\<lambda>(a, r). ea_ip a @ (if r then ''+'' else ''-'')) as)),
     he_hash_port = ep_name, he_hash_subset = (\<lambda>ss. concat (map ep_name (ss_ports ss)))\<rparr>"

definition sample_env :: go_env where
  "sample_env = \<lparr>Keyspace = ''romulus/'', env_range = (\<lambda>ks. ks), env_regexp = (\<lambda>_. True), env_md5 = (\<lambda>s. s),
     env_hash = sample_hash, env_url = (\<lambda>u. if has_prefix u '':'' then None else Some u), env_now = 0\<rparr>"





text \<open>
  Where two annotation keys do compete, the resource is not determined: a middleware given
  once for all ports and once for the port at hand ends up as the one the loop visits last.
\<close>

lemma middleware_scope_race:
  "GetAnnotation (NewResource (sample_env\<lparr>env_range := (\<lambda>ks. ks)\<rparr>) ''r'' ''web''
       [(''romulus/middleware.auth'', ''A''), (''romulus/web.middleware.auth'', ''B'')]) ''middleware.auth'' = Some ''B'' \<and>
   GetAnnotation (NewResource (sample_env\<lparr>env_range := rev\<rparr>) ''r'' ''web''
       [(''romulus/middleware.auth'', ''A''), (''romulus/web.middleware.auth'', ''B'')]) ''middleware.auth'' = Some ''A''"
  by code_simp

text \<open>
  C25: where the servers of a resource come from. They are the ready addresses of the Endpoints
  for the matching ports if there is one, and the addresses of the Service otherwise; the two
  sources are never mixed, and nothing else of the resource changes.
\<close>

theorem add_servers_fallback:
  assumes "NoServers r"
  shows "AddServers env svc en port r =
     r\<lparr>r_servers :=
        (let scheme = GetAnnotation r ''scheme'';
             es = (case en of Some e \<Rightarrow> endpointServers env e port scheme | None \<Rightarrow> [])
         in if es = [] then serviceServers env svc port scheme else es)\<rparr>"
  using AddServers_eq [OF assms] by (simp add: Let_def)

theorem add_servers_fallback_witness:
  "r_servers (AddServers sample_env sample_service None \<lparr>sp_name = ''web'', sp_port = 80\<rparr> (NewResource sample_env ''r'' ''web'' [])) =
   serviceServers sample_env sample_service \<lparr>sp_name = ''web'', sp_port = 80\<rparr> None"
  by (subst add_servers_fallback) (simp_all add: GetAnnotation_def NewResource_annotations_def gm_range_def
      sample_env_def List.map_filter_simps)


definition sample_endpoints :: endpoints where
  "sample_endpoints = \<lparr>en_meta = \<lparr>om_name = ''bar'', om_namespace = ''test'', om_annotations = []\<rparr>,
     en_subsets = [\<lparr>ss_addresses = [\<lparr>ea_ip = ''10.0.0.1'', ea_uid = None\<rparr>], ss_notready = [],
                    ss_ports = [\<lparr>ep_name = ''web'', ep_port = 8080, ep_protocol = ''TCP''\<rparr>]\<rparr>]\<rparr>"

lemma sample_repack: "RepackSubsets sample_hash (en_subsets sample_endpoints) = en_subsets sample_endpoints"
  by (simp add: sample_endpoints_def RepackSubsets_def mapSubset_def mapAddressByPort_def addressKey_def gm_range_def
      groupPort_def hashAddresses_def derefAddrs_def packSubset_def SortSubsets_def sample_hash_def List.map_filter_def
      go_sort_def Let_def ex_bool_eq)

definition sample_cache :: kcache where
  "sample_cache = NewCache\<lparr>kc_service := CacheStore MetaNamespaceKey [(''test/bar'', KService sample_service)],
                           kc_endpoints := CacheStore MetaNamespaceKey [(''test/bar'', KEndpoints sample_endpoints)]\<rparr>"

lemma sample_cache_hits [simp]:
  "StoreGetByKey now (kc_service sample_cache) (cacheLookupKey ''test'' ''bar'') = Some (KService sample_service)"
  "StoreGetByKey now (kc_endpoints sample_cache) (cacheLookupKey ''test'' ''bar'') = Some (KEndpoints sample_endpoints)"
  by (simp_all add: sample_cache_def cacheLookupKey_def)


text \<open>
  C24: the resources of a Service: one for each of its ports, identified by namespace, name and
  port, sorted by identifier.
\<close>

theorem gen_resources_service_ids:
  assumes "GenResources env cl (KService svc) k = Some ((rs, er), k')"
  shows "er = None \<and> sorted (map r_id rs) \<and>
     mset (map r_id rs) = mset (map (\<lambda>p. GenResourceID (om_namespace (svc_meta svc)) (om_name (svc_meta svc))
       (intstrFromPort (sp_name p) (sp_port p))) (svc_ports svc))"
  using GenResources_Service(1) [OF assms] by (simp add: portID_def [abs_def])

theorem gen_resources_service_ids_witness:
  "\<exists>rs k'. GenResources sample_env sample_client (KService sample_service) sample_cache = Some ((rs, None), k') \<and>
     mset (map r_id rs) = {#''test.bar.web''#}"
proof -
  have meta: "svc_meta sample_service = \<lparr>om_name = ''bar'', om_namespace = ''test'', om_annotations = []\<rparr>"
      "svc_ports sample_service = [\<lparr>sp_name = ''web'', sp_port = 80\<rparr>]" "env_now sample_env = 0"
    by (simp_all add: sample_service_def sample_env_def)
  obtain e where none: "GetIngress 0 sample_client ''test'' ''bar'' sample_cache = (Inl e, sample_cache)"
    by (simp add: GetIngress_def sample_cache_def NewCache_def)
  have "GenResources sample_env sample_client (KService sample_service) sample_cache \<noteq> None"
    by (simp add: GenResources_def resourcesFromService_def GetEndpoints_hit meta portsLoop_stable [where ing = "Inl e"]
        none portResource_def Let_def)
  then obtain rs er k' where gen: "GenResources sample_env sample_client (KService sample_service) sample_cache = Some ((rs, er), k')"
    by auto
  have "GenResourceID ''test'' ''bar'' (intstrFromPort ''web'' 80) = ''test.bar.web''" by code_simp
  with gen gen_resources_service_ids [OF gen] show ?thesis by (auto simp: sample_service_def)
qed

text \<open>
  C40: an Ingress rule without an \<^verbatim>\<open>http\<close> section crashes the handler: resources are generated
  from an Ingress without a panic exactly when every rule has one. (The Kubernetes API lets the
  section be left out; the code dereferences the pointer without a check.)
\<close>

theorem gen_resources_ingress_panics:
  "GenResources env cl (KIngress ing) k = None \<longleftrightarrow> (\<exists>rule \<in> set (ing_rules ing). ir_http rule = None)"
proof -
  obtain d k1 where first: "(case ing_backend ing of None \<Rightarrow> (None, k) | Some b \<Rightarrow> ingressResource env cl ing b k) = (d, k1)"
    by (metis surj_pair)
  have "resourcesFromIngress env cl ing k = None \<longleftrightarrow> ingressRulesLoop env cl ing (ing_rules ing) k1 = None"
    unfolding resourcesFromIngress_def first by (auto split: Option.bind_split)
  then have "GenResources env cl (KIngress ing) k = None \<longleftrightarrow> ingressRulesLoop env cl ing (ing_rules ing) k1 = None"
    by (auto simp: GenResources_def split: Option.bind_split)
  then show ?thesis by (simp add: ingressRulesLoop_panics)
qed

text \<open>
  Objects of any other type, tombstones of deleted objects among them, give an error and
  no resources, and the cache stays as it is.
\<close>

lemma GenResources_unsupported [simp]:
  "GenResources env cl (KTombstone key obj) k = Some (([], Some (Err ''Unsupported type'')), k)"
  "GenResources env cl KOther k = Some (([], Some (Err ''Unsupported type'')), k)"
  by (simp_all add: GenResources_def)

text \<open>
  An Ingress rule replaces host and path of the annotations: after it, the host parts are
  exactly the host of the rule and the path parts exactly its path, and all other parts are kept.
\<close>

lemma override_route_replaces:
  assumes "host \<noteq> []" and "path \<noteq> []" and "\<not> isRegexp host" and "\<not> isRegexp path"
  shows "rt_parts (overrideRoute env host path rt) =
     filter (\<lambda>p. rp_kind p \<noteq> HostPart \<and> rp_kind p \<noteq> PathPart) (rt_parts rt) @
     [\<lparr>rp_kind = HostPart, rp_header = [], rp_value = host, rp_regex = False\<rparr>,
      \<lparr>rp_kind = PathPart, rp_header = [], rp_value = path, rp_regex = False\<rparr>]"
  using assms
  by (simp add: overrideRoute_def route_delete_def AddHost_def AddPath_def route_add_def conj_commute)

text \<open>
  A host that is a regular expression which does not compile removes the host of the route
  and puts nothing in its place: the old part is deleted first and the error of \<^verbatim>\<open>AddHost\<close> is
  ignored, so the route then matches every host.
\<close>

lemma override_route_drops_host:
  assumes "isRegexp host" and "\<not> env_regexp env (trim CHR ''|'' host)"
  shows "filter (\<lambda>p. rp_kind p = HostPart) (rt_parts (overrideRoute env host path rt)) = []"
proof -
  have "host \<noteq> []" using assms(1) by (auto simp: isRegexp_def has_prefix_def)
  with assms show ?thesis
    by (auto simp: overrideRoute_def route_delete_def AddHost_def AddPath_def route_add_def Let_def filter_empty_conv)
qed


definition sample_ingress :: ingress where
  "sample_ingress = \<lparr>ing_meta = \<lparr>om_name = ''foo'', om_namespace = ''test'', om_annotations = []\<rparr>,
     ing_backend = None,
     ing_rules = [\<lparr>ir_host = ''www.example.net'', ir_http = Some [\<lparr>hp_path = ''/foo'',
        hp_backend = \<lparr>ib_serviceName = ''bar'', ib_servicePort = FromString ''web''\<rparr>\<rparr>]\<rparr>]\<rparr>"


end
