(* ===== verification/LoadBalancer.thy ===== *)
theory LoadBalancer
  imports Kube_Resource
begin

text \<open>
  The interface between the engine and a load balancer, \<^verbatim>\<open>loadbalancer/loadbalancer.go\<close>: the
  annotation keys both providers read, the operations as one record over the state of the
  remote system, and the contract the engine relies on as a locale. The providers interpret it.
\<close>

section \<open>Interface values\<close>

text \<open>
  A value of one of the interface types \<^verbatim>\<open>Frontend\<close>, \<^verbatim>\<open>Backend\<close>, \<^verbatim>\<open>Server\<close>, \<^verbatim>\<open>Middleware\<close>, seen
  from a provider: of the provider's own type, or of another one, of which only the result of
  \<^verbatim>\<open>GetID\<close> is known.
\<close>

datatype 'a iface = Own 'a | Foreign string

definition iface_GetID :: "('a \<Rightarrow> string) \<Rightarrow> 'a iface \<Rightarrow> string" where
  "iface_GetID idf x = (case x of Own a \<Rightarrow> idf a | Foreign i \<Rightarrow> i)"

definition ErrUnexpectedFrontendType :: err where
  "ErrUnexpectedFrontendType = Err ''Frontend is of unexpected type''"

definition ErrUnexpectedBackendType :: err where
  "ErrUnexpectedBackendType = Err ''Backend is of unexpected type''"

abbreviation PassHostHeaderKey :: string where "PassHostHeaderKey \<equiv> ''pass_host_header''"
abbreviation TrustForwardHeadersKey :: string where "TrustForwardHeadersKey \<equiv> ''trust_forward_headers''"
abbreviation FailoverExpressionKey :: string where "FailoverExpressionKey \<equiv> ''failover_expression''"
abbreviation MaxReqSizeKey :: string where "MaxReqSizeKey \<equiv> ''max_req_size''"
abbreviation MaxRespSizeKey :: string where "MaxRespSizeKey \<equiv> ''max_resp_size''"
abbreviation FrontendSettingsKey :: string where "FrontendSettingsKey \<equiv> ''frontend_settings''"
abbreviation BackendSettingsKey :: string where "BackendSettingsKey \<equiv> ''backend_settings''"

definition DefaultPassHostHeader :: bool where "DefaultPassHostHeader = True"
definition DefaultTrustForwardHeaders :: bool where "DefaultTrustForwardHeaders = True"

section \<open>The operations\<close>

text \<open>
  \<open>'s\<close> is the state of the system behind the provider; \<open>'fe\<close>, \<open>'be\<close>, \<open>'sv\<close> and \<open>'mw\<close> are the
  provider's own types of frontends, backends, servers and middlewares. A list result comes
  with its error, as in Go; \<open>None\<close> is a panic. \<^verbatim>\<open>AddServer\<close> and \<^verbatim>\<open>AddMiddleware\<close> are methods of
  the objects; they panic on an object of another provider.
\<close>

record ('s, 'fe, 'be, 'sv, 'mw) lb_ops =
  lb_NewFrontend :: "resource \<Rightarrow> err + 'fe"
  lb_UpsertFrontend :: "'fe \<Rightarrow> 's \<Rightarrow> err option \<times> 's"
  lb_DeleteFrontend :: "'fe \<Rightarrow> 's \<Rightarrow> err option \<times> 's"
  lb_NewBackend :: "resource \<Rightarrow> err + 'be"
  lb_UpsertBackend :: "'be \<Rightarrow> 's \<Rightarrow> err option \<times> 's"
  lb_DeleteBackend :: "'be \<Rightarrow> 's \<Rightarrow> err option \<times> 's"
  lb_NewServers :: "resource \<Rightarrow> ('sv list \<times> err option) go"
  lb_NewMiddlewares :: "resource \<Rightarrow> 'mw list \<times> err option"
  lb_AddServer :: "'sv \<Rightarrow> 'be \<Rightarrow> 'be go"
  lb_AddMiddleware :: "'mw \<Rightarrow> 'fe \<Rightarrow> 'fe go"
  lb_Kind :: string
  lb_Status :: "'s \<Rightarrow> err option \<times> 's"

section \<open>The contract\<close>

text \<open>
  \<open>frontends s\<close> and \<open>backends s\<close> are the identifiers registered in state \<open>s\<close>; \<open>has_frontend s f\<close>
  and \<open>has_backend s b\<close> say that \<open>f\<close> and \<open>b\<close> are registered with all they carry. A call that
  succeeds has its effect; a call that fails may have had a part of it, but touches no other
  object.
\<close>

locale load_balancer =
  fixes lb :: "('s, 'fe, 'be, 'sv, 'mw) lb_ops"
    and inv :: "'s \<Rightarrow> bool"
    and fid :: "'fe \<Rightarrow> string"
    and bid :: "'be \<Rightarrow> string"
    and frontends :: "'s \<Rightarrow> string set"
    and backends :: "'s \<Rightarrow> string set"
    and has_frontend :: "'s \<Rightarrow> 'fe \<Rightarrow> bool"
    and has_backend :: "'s \<Rightarrow> 'be \<Rightarrow> bool"
  assumes new_backend_id: "lb_NewBackend lb r = Inr b \<Longrightarrow> bid b = r_id r"
    and new_frontend_id: "lb_NewFrontend lb r = Inr f \<Longrightarrow> fid f = r_id r"
    and add_server_id: "lb_AddServer lb x b = Some b' \<Longrightarrow> bid b' = bid b"
    and add_middleware_id: "lb_AddMiddleware lb y f = Some f' \<Longrightarrow> fid f' = fid f"
    and upsert_backend: "inv s \<Longrightarrow> lb_UpsertBackend lb b s = (None, s') \<Longrightarrow> has_backend s' b"
    and upsert_backend_frame: "inv s \<Longrightarrow> lb_UpsertBackend lb b s = (e, s') \<Longrightarrow>
      inv s' \<and> frontends s' = frontends s \<and> backends s \<subseteq> backends s' \<and> backends s' \<subseteq> insert (bid b) (backends s) \<and>
      (\<forall>b'. bid b' \<noteq> bid b \<longrightarrow> has_backend s' b' = has_backend s b') \<and> has_frontend s' = has_frontend s"
    and upsert_frontend: "inv s \<Longrightarrow> lb_UpsertFrontend lb f s = (None, s') \<Longrightarrow> has_frontend s' f"
    and upsert_frontend_frame: "inv s \<Longrightarrow> lb_UpsertFrontend lb f s = (e, s') \<Longrightarrow>
      inv s' \<and> backends s' = backends s \<and> frontends s \<subseteq> frontends s' \<and> frontends s' \<subseteq> insert (fid f) (frontends s) \<and>
      (\<forall>f'. fid f' \<noteq> fid f \<longrightarrow> has_frontend s' f' = has_frontend s f') \<and> has_backend s' = has_backend s"
    and delete_frontend: "inv s \<Longrightarrow> lb_DeleteFrontend lb f s = (None, s') \<Longrightarrow> fid f \<notin> frontends s'"
    and delete_frontend_frame: "inv s \<Longrightarrow> lb_DeleteFrontend lb f s = (e, s') \<Longrightarrow>
      inv s' \<and> backends s' = backends s \<and> frontends s - {fid f} \<subseteq> frontends s' \<and> frontends s' \<subseteq> frontends s \<and>
      (\<forall>f'. fid f' \<noteq> fid f \<longrightarrow> has_frontend s' f' = has_frontend s f') \<and> has_backend s' = has_backend s"
    and delete_backend: "inv s \<Longrightarrow> lb_DeleteBackend lb b s = (None, s') \<Longrightarrow> bid b \<notin> backends s'"
    and delete_backend_frame: "inv s \<Longrightarrow> lb_DeleteBackend lb b s = (e, s') \<Longrightarrow>
      inv s' \<and> frontends s' = frontends s \<and> backends s - {bid b} \<subseteq> backends s' \<and> backends s' \<subseteq> backends s \<and>
      (\<forall>b'. bid b' \<noteq> bid b \<longrightarrow> has_backend s' b' = has_backend s b') \<and> has_frontend s' = has_frontend s"
    and has_frontend_id: "inv s \<Longrightarrow> has_frontend s f \<Longrightarrow> fid f \<in> frontends s"
    and has_backend_id: "inv s \<Longrightarrow> has_backend s b \<Longrightarrow> bid b \<in> backends s"

section \<open>One kind of objects\<close>

text \<open>
  What backends and frontends have in common for the one who registers them: \<open>rest s\<close> is all
  that must not change.
\<close>

locale registry =
  fixes up :: "'a \<Rightarrow> 's \<Rightarrow> err option \<times> 's"
    and inv :: "'s \<Rightarrow> bool"
    and idf :: "'a \<Rightarrow> string"
    and ids :: "'s \<Rightarrow> string set"
    and has :: "'s \<Rightarrow> 'a \<Rightarrow> bool"
    and rest :: "'s \<Rightarrow> 'r"
  assumes up_has: "inv s \<Longrightarrow> up x s = (None, s') \<Longrightarrow> has s' x"
    and up_frame: "inv s \<Longrightarrow> up x s = (e, s') \<Longrightarrow>
      inv s' \<and> rest s' = rest s \<and> ids s \<subseteq> ids s' \<and> ids s' \<subseteq> insert (idf x) (ids s) \<and>
      (\<forall>y. idf y \<noteq> idf x \<longrightarrow> has s' y = has s y)"
    and has_id: "inv s \<Longrightarrow> has s x \<Longrightarrow> idf x \<in> ids s"
begin

text \<open>From \<open>s\<close> to \<open>s'\<close> only objects with identifiers in \<open>K\<close> were touched, and none was removed.\<close>

definition grown :: "string set \<Rightarrow> 's \<Rightarrow> 's \<Rightarrow> bool" where
  "grown K s s' \<longleftrightarrow> inv s' \<and> rest s' = rest s \<and> ids s \<subseteq> ids s' \<and> ids s' \<subseteq> ids s \<union> K \<and>
     (\<forall>y. idf y \<notin> K \<longrightarrow> has s' y = has s y)"

lemma grown_refl: "inv s \<Longrightarrow> grown K s s"
  by (simp add: grown_def)

lemma grown_up:
  assumes "inv s" and "up x s = (e, s')" and "idf x \<in> K"
  shows "grown K s s'"
proof -
  note fr = up_frame [OF assms(1,2)]
  have "has s' y = has s y" if "idf y \<notin> K" for y
  proof -
    have "idf y \<noteq> idf x" using that assms(3) by metis
    then show ?thesis using fr by blast
  qed
  then show ?thesis using fr assms(3) by (auto simp: grown_def)
qed

lemma grown_trans: "grown K s s' \<Longrightarrow> grown K s' s'' \<Longrightarrow> grown K s s''"
  by (auto simp: grown_def)

lemma grown_mono: "grown K s s' \<Longrightarrow> K \<subseteq> K' \<Longrightarrow> grown K' s s'"
  by (auto simp: grown_def)

end

sublocale load_balancer \<subseteq> be: registry "lb_UpsertBackend lb" inv bid backends has_backend "\<lambda>s. (frontends s, has_frontend s)"
proof unfold_locales
  fix s b s' assume "inv s" and "lb_UpsertBackend lb b s = (None, s')"
  then show "has_backend s' b" by (rule upsert_backend)
next
  fix s b e s' assume "inv s" and "lb_UpsertBackend lb b s = (e, s')"
  then show "inv s' \<and> (frontends s', has_frontend s') = (frontends s, has_frontend s) \<and> backends s \<subseteq> backends s' \<and>
      backends s' \<subseteq> insert (bid b) (backends s) \<and> (\<forall>y. bid y \<noteq> bid b \<longrightarrow> has_backend s' y = has_backend s y)"
    using upsert_backend_frame by simp
next
  fix s b assume "inv s" and "has_backend s b"
  then show "bid b \<in> backends s" by (rule has_backend_id)
qed

sublocale load_balancer \<subseteq> fe: registry "lb_UpsertFrontend lb" inv fid frontends has_frontend "\<lambda>s. (backends s, has_backend s)"
proof unfold_locales
  fix s f s' assume "inv s" and "lb_UpsertFrontend lb f s = (None, s')"
  then show "has_frontend s' f" by (rule upsert_frontend)
next
  fix s f e s' assume "inv s" and "lb_UpsertFrontend lb f s = (e, s')"
  then show "inv s' \<and> (backends s', has_backend s') = (backends s, has_backend s) \<and> frontends s \<subseteq> frontends s' \<and>
      frontends s' \<subseteq> insert (fid f) (frontends s) \<and> (\<forall>y. fid y \<noteq> fid f \<longrightarrow> has_frontend s' y = has_frontend s y)"
    using upsert_frontend_frame by simp
next
  fix s f assume "inv s" and "has_frontend s f"
  then show "fid f \<in> frontends s" by (rule has_frontend_id)
qed

end
