(* ===== verification/Backoff.thy ===== *)
theory Backoff
  imports Complex_Main Prelude
begin

text \<open>
  The back-off policy of \<^verbatim>\<open>cenkalti/backoff\<close> (\<^verbatim>\<open>exponential.go\<close>) that paces the retries of the
  engine. Durations and times are integers, in nanoseconds; the time is an argument of the
  operations that read the clock, the random number an argument of those that draw one.

  The factors are rationals, and so is the arithmetic on them: on intervals of up to a minute
  the computations of Go's \<^verbatim>\<open>float64\<close> are exact except for the product with the random number,
  whose rounding moves a pause by at most a nanosecond.
\<close>

record exponential_backoff =
  InitialInterval :: int
  RandomizationFactor :: rat
  Multiplier :: rat
  MaxInterval :: int
  MaxElapsedTime :: int
  currentInterval :: int
  startTime :: int

definition Stop :: int where "Stop = -1"

abbreviation Millisecond :: int where "Millisecond \<equiv> 1000000"
abbreviation Second :: int where "Second \<equiv> 1000000000"

text \<open>\<^verbatim>\<open>time.Duration(x)\<close> of a floating point number.\<close>

definition toDuration :: "rat \<Rightarrow> int" where
  "toDuration x = (if 0 \<le> x then \<lfloor>x\<rfloor> else \<lceil>x\<rceil>)"

definition Reset :: "int \<Rightarrow> exponential_backoff \<Rightarrow> exponential_backoff" where
  "Reset now b = b\<lparr>currentInterval := InitialInterval b, startTime := now\<rparr>"

definition NewExponentialBackOff :: "int \<Rightarrow> exponential_backoff" where
  "NewExponentialBackOff now =
     Reset now \<lparr>InitialInterval = 500 * Millisecond, RandomizationFactor = 1 / 2, Multiplier = 3 / 2,
       MaxInterval = 60 * Second, MaxElapsedTime = 15 * 60 * Second, currentInterval = 0, startTime = 0\<rparr>"

definition GetElapsedTime :: "int \<Rightarrow> exponential_backoff \<Rightarrow> int" where
  "GetElapsedTime now b = now - startTime b"

definition incrementCurrentInterval :: "exponential_backoff \<Rightarrow> exponential_backoff" where
  "incrementCurrentInterval b =
     (if of_int (currentInterval b) \<ge> of_int (MaxInterval b) / Multiplier b
      then b\<lparr>currentInterval := MaxInterval b\<rparr>
      else b\<lparr>currentInterval := toDuration (of_int (currentInterval b) * Multiplier b)\<rparr>)"

definition getRandomValueFromInterval :: "rat \<Rightarrow> rat \<Rightarrow> int \<Rightarrow> int" where
  "getRandomValueFromInterval randomizationFactor random cur =
     (let delta = randomizationFactor * of_int cur;
          minInterval = of_int cur - delta;
          maxInterval = of_int cur + delta
      in toDuration (minInterval + random * (maxInterval - minInterval + 1)))"

definition NextBackOff :: "int \<Rightarrow> rat \<Rightarrow> exponential_backoff \<Rightarrow> int \<times> exponential_backoff" where
  "NextBackOff now random b =
     (if MaxElapsedTime b \<noteq> 0 \<and> GetElapsedTime now b > MaxElapsedTime b then (Stop, b)
      else (getRandomValueFromInterval (RandomizationFactor b) random (currentInterval b), incrementCurrentInterval b))"

section \<open>Bounds of the pauses\<close>

text \<open>The policy the program uses: the default one, with its own limit on the elapsed time.\<close>

definition default_policy :: "exponential_backoff \<Rightarrow> bool" where
  "default_policy b \<longleftrightarrow>
     InitialInterval b = 500 * Millisecond \<and> RandomizationFactor b = 1 / 2 \<and> Multiplier b = 3 / 2 \<and> MaxInterval b = 60 * Second"

definition interval_ok :: "exponential_backoff \<Rightarrow> bool" where
  "interval_ok b \<longleftrightarrow> 500 * Millisecond \<le> currentInterval b \<and> currentInterval b \<le> 60 * Second"

lemma default_policy_New [simp]: "default_policy (NewExponentialBackOff now\<lparr>MaxElapsedTime := t\<rparr>)"
  by (simp add: default_policy_def NewExponentialBackOff_def Reset_def)

lemma Reset_policy [simp]:
  "default_policy (Reset now b) = default_policy b" "MaxElapsedTime (Reset now b) = MaxElapsedTime b"
  "startTime (Reset now b) = now" "default_policy b \<Longrightarrow> interval_ok (Reset now b)"
  by (simp_all add: default_policy_def Reset_def interval_ok_def)

lemma increment_policy [simp]:
  "default_policy (incrementCurrentInterval b) = default_policy b"
  "MaxElapsedTime (incrementCurrentInterval b) = MaxElapsedTime b"
  "startTime (incrementCurrentInterval b) = startTime b"
  by (simp_all add: incrementCurrentInterval_def default_policy_def)

lemma increment_interval_ok [simp]:
  assumes "default_policy b" and "interval_ok b"
  shows "interval_ok (incrementCurrentInterval b)"
proof (cases "(of_int (currentInterval b) :: rat) \<ge> of_int (MaxInterval b) / Multiplier b")
  case True
  then show ?thesis using assms by (simp add: incrementCurrentInterval_def interval_ok_def default_policy_def)
next
  case False
  let ?c = "currentInterval b"
  have c: "0 \<le> ?c" "3 * ?c < 2 * (60 * Second)"
  proof -
    show "0 \<le> ?c" using assms(2) by (simp add: interval_ok_def)
    have cfg: "Multiplier b = 3 / 2" "MaxInterval b = 60 * Second"
      using assms(1) unfolding default_policy_def by blast+
    have "(of_int (3 * ?c) :: rat) < of_int (2 * (60 * Second))"
      using False unfolding cfg by (simp add: field_simps)
    then show "3 * ?c < 2 * (60 * Second)" by (simp only: of_int_less_iff)
  qed
  have "?c \<le> \<lfloor>(of_int ?c :: rat) * (3 / 2)\<rfloor>"
    using c(1) by (simp add: le_floor_iff)
  moreover have "\<lfloor>(of_int ?c :: rat) * (3 / 2)\<rfloor> \<le> 60 * Second"
  proof -
    have "(of_int (3 * ?c) :: rat) < of_int (2 * (60 * Second))" using c(2) by (simp only: of_int_less_iff)
    then show ?thesis by (intro floor_le_iff [THEN iffD2]) simp
  qed
  moreover have "currentInterval (incrementCurrentInterval b) = \<lfloor>(of_int ?c :: rat) * (3 / 2)\<rfloor>"
  proof -
    have "Multiplier b = 3 / 2" using assms(1) unfolding default_policy_def by blast
    moreover have "currentInterval (incrementCurrentInterval b) = \<lfloor>(of_int ?c :: rat) * Multiplier b\<rfloor>"
    proof -
      have "0 \<le> Multiplier b" using calculation by simp
      then show ?thesis using False c(1) by (simp add: incrementCurrentInterval_def toDuration_def)
    qed
    ultimately show ?thesis by metis
  qed
  ultimately show ?thesis using assms(2) unfolding interval_ok_def by linarith
qed

lemma random_value_bounds:
  assumes "0 \<le> random" and "random < 1" and "0 \<le> cur"
  shows "cur div 2 \<le> getRandomValueFromInterval (1 / 2) random cur"
    and "getRandomValueFromInterval (1 / 2) random cur \<le> 3 * cur div 2 + 1"
proof -
  let ?x = "(of_int cur :: rat) / 2 + random * (of_int cur + 1)"
  have val: "getRandomValueFromInterval (1 / 2) random cur = \<lfloor>?x\<rfloor>"
  proof -
    have "0 \<le> ?x" using assms by simp
    moreover have "(of_int cur :: rat) - of_int cur / 2 + random * (of_int cur + of_int cur / 2 - (of_int cur - of_int cur / 2) + 1) = ?x"
      by (simp add: field_simps)
    ultimately show ?thesis by (simp add: getRandomValueFromInterval_def toDuration_def Let_def)
  qed
  have "(of_int (cur div 2) :: rat) \<le> of_int cur / 2"
    by (metis floor_divide_of_int_eq of_int_floor_le of_int_numeral)
  also have "\<dots> \<le> ?x" using assms by simp
  finally show "cur div 2 \<le> getRandomValueFromInterval (1 / 2) random cur"
    unfolding val by (simp add: le_floor_iff)
  have "random * (of_int cur + 1) < of_int cur + 1"
    using assms by (simp add: mult_less_cancel_right1)
  then have "?x < of_int (3 * cur) / 2 + 1" by simp
  then have "\<lfloor>?x\<rfloor> \<le> \<lfloor>(of_int (3 * cur) :: rat) / 2 + 1\<rfloor>" by (intro floor_mono) simp
  also have "\<dots> = 3 * cur div 2 + 1"
    using floor_divide_of_int_eq [of "3 * cur" 2, where ?'a = rat] by simp
  finally show "getRandomValueFromInterval (1 / 2) random cur \<le> 3 * cur div 2 + 1" unfolding val .
qed

end
