(* ===== verification/Commit.thy ===== *)
theory Commit
  imports Backoff
begin

text \<open>
  The retry loop of the engine, \<^verbatim>\<open>Commit\<close> of \<^verbatim>\<open>engine.go\<close>. A function that may fail is run on the
  state of the load balancer until it succeeds, the policy says stop, or the context is done.

  What the loop meets in its \<open>i\<close>-th round is a record: whether the context is done, the random
  number that is drawn, and the time spent in the function and in oversleeping. \<open>None\<close> is a loop
  that does not return.
\<close>

record commit_env =
  ce_done :: "nat \<Rightarrow> bool"
  ce_random :: "nat \<Rightarrow> rat"
  ce_cost :: "nat \<Rightarrow> int"

definition CommitTimeout :: err where
  "CommitTimeout = Err ''Timed out trying to Commit changes to loadbalancer''"

partial_function (option) commitLoop ::
  "commit_env \<Rightarrow> ('s \<Rightarrow> err option \<times> 's) \<Rightarrow> nat \<Rightarrow> int \<Rightarrow> exponential_backoff \<Rightarrow> 's \<Rightarrow> (err option \<times> 's) option" where
  [code]: "commitLoop ce fn i now b s =
     (if ce_done ce i then Some (None, s)
      else
        (let (duration, b') = NextBackOff now (ce_random ce i) b in
         if duration = Stop then Some (Some CommitTimeout, s)
         else
           (let (er, s') = fn s in
            if er = None then Some (None, s')
            else commitLoop ce fn (Suc i) (now + ce_cost ce i + duration) b' s')))"

definition Commit ::
  "commit_env \<Rightarrow> ('s \<Rightarrow> err option \<times> 's) \<Rightarrow> exponential_backoff \<Rightarrow> 's \<Rightarrow> (err option \<times> 's) option" where
  "Commit ce fn b s = commitLoop ce fn 0 0 (Reset 0 b) s"

text \<open>What the environment guarantees: random numbers in the unit interval, and no time runs backwards.\<close>

definition ce_ok :: "commit_env \<Rightarrow> bool" where
  "ce_ok ce \<longleftrightarrow> (\<forall>i. 0 \<le> ce_random ce i \<and> ce_random ce i < 1 \<and> 0 \<le> ce_cost ce i)"

section \<open>Rounds\<close>

lemma commitLoop_done: "ce_done ce i \<Longrightarrow> commitLoop ce fn i now b s = Some (None, s)"
  by (simp add: commitLoop.simps)

lemma commitLoop_stop:
  "\<not> ce_done ce i \<Longrightarrow> MaxElapsedTime b \<noteq> 0 \<Longrightarrow> now - startTime b > MaxElapsedTime b \<Longrightarrow>
     commitLoop ce fn i now b s = Some (Some CommitTimeout, s)"
  by (simp add: commitLoop.simps NextBackOff_def GetElapsedTime_def)

definition pause :: "commit_env \<Rightarrow> nat \<Rightarrow> exponential_backoff \<Rightarrow> int" where
  "pause ce i b = getRandomValueFromInterval (RandomizationFactor b) (ce_random ce i) (currentInterval b)"

lemma pause_bounds:
  assumes "ce_ok ce" and "default_policy b" and "interval_ok b"
  shows "250 * Millisecond \<le> pause ce i b" and "pause ce i b \<noteq> Stop"
proof -
  have half: "RandomizationFactor b = 1 / 2" using assms(2) unfolding default_policy_def by blast
  have pos: "0 \<le> currentInterval b" and big: "250 * Millisecond \<le> currentInterval b div 2"
    using assms(3) unfolding interval_ok_def by presburger+
  have "0 \<le> ce_random ce i" "ce_random ce i < 1" using assms(1) by (simp_all add: ce_ok_def)
  from random_value_bounds(1) [OF this pos]
  have "currentInterval b div 2 \<le> pause ce i b" unfolding pause_def half .
  with big show "250 * Millisecond \<le> pause ce i b" by linarith
  then show "pause ce i b \<noteq> Stop" by (simp add: Stop_def)
qed

lemma commitLoop_round:
  assumes "\<not> ce_done ce i" and "MaxElapsedTime b = 0 \<or> now - startTime b \<le> MaxElapsedTime b" and "pause ce i b \<noteq> Stop"
  shows "commitLoop ce fn i now b s =
     (if fst (fn s) = None then Some (None, snd (fn s))
      else commitLoop ce fn (Suc i) (now + ce_cost ce i + pause ce i b) (incrementCurrentInterval b) (snd (fn s)))"
  using assms
  by (subst commitLoop.simps) (auto simp: NextBackOff_def GetElapsedTime_def pause_def Let_def split: prod.split)

section \<open>Termination and number of attempts\<close>

text \<open>With a limit on the elapsed time left to go, the loop returns after a bounded number of attempts.\<close>

lemma commitLoop_returns:
  assumes "ce_ok ce" and "default_policy b" and "interval_ok b" and "0 < MaxElapsedTime b"
    and "MaxElapsedTime b - (now - startTime b) < int n * (250 * Millisecond)"
  shows "\<exists>k er. k \<le> n \<and> commitLoop ce fn i now b s = Some (er, ((\<lambda>s. snd (fn s)) ^^ k) s)"
  using assms(2-)
proof (induction n arbitrary: i now b s)
  case 0
  then show ?case
    by (cases "ce_done ce i") (simp_all add: commitLoop_done commitLoop_stop)
next
  case (Suc n)
  show ?case
  proof (cases "ce_done ce i \<or> now - startTime b > MaxElapsedTime b")
    case True
    then have "\<exists>er. commitLoop ce fn i now b s = Some (er, s)"
      using Suc.prems(3) by (cases "ce_done ce i") (simp_all add: commitLoop_done commitLoop_stop)
    then show ?thesis by (intro exI [of _ 0]) simp
  next
    case False
    note pb = pause_bounds [OF assms(1) Suc.prems(1,2), of i]
    have step: "commitLoop ce fn i now b s =
       (if fst (fn s) = None then Some (None, snd (fn s))
        else commitLoop ce fn (Suc i) (now + ce_cost ce i + pause ce i b) (incrementCurrentInterval b) (snd (fn s)))"
      using False pb(2) by (intro commitLoop_round) auto
    have "0 \<le> ce_cost ce i" using assms(1) by (simp add: ce_ok_def)
    then have left: "MaxElapsedTime b - (now + ce_cost ce i + pause ce i b - startTime b) < int n * (250 * Millisecond)"
      using Suc.prems(4) pb(1) by (simp add: algebra_simps)
    show ?thesis
    proof (cases "fst (fn s) = None")
      case True
      then show ?thesis unfolding step by (intro exI [of _ 1]) simp
    next
      case False
      from Suc.IH [of "incrementCurrentInterval b" "now + ce_cost ce i + pause ce i b" "Suc i" "snd (fn s)"]
      obtain k er where "k \<le> n"
        and k: "commitLoop ce fn (Suc i) (now + ce_cost ce i + pause ce i b) (incrementCurrentInterval b) (snd (fn s)) =
          Some (er, ((\<lambda>s. snd (fn s)) ^^ k) (snd (fn s)))"
        using Suc.prems left by auto
      then have "commitLoop ce fn i now b s = Some (er, ((\<lambda>s. snd (fn s)) ^^ Suc k) s)"
        using False by (simp only: step if_False funpow_Suc_right comp_apply)
      with \<open>k \<le> n\<close> show ?thesis by blast
    qed
  qed
qed

lemma Commit_returns:
  assumes "ce_ok ce" and "default_policy b" and "0 < MaxElapsedTime b"
  shows "\<exists>k er. k \<le> nat (MaxElapsedTime b div (250 * Millisecond)) + 1 \<and> Commit ce fn b s = Some (er, ((\<lambda>s. snd (fn s)) ^^ k) s)"
  unfolding Commit_def
proof (rule commitLoop_returns [OF assms(1)])
  show "MaxElapsedTime (Reset 0 b) - (0 - startTime (Reset 0 b)) <
      int (nat (MaxElapsedTime b div (250 * Millisecond)) + 1) * (250 * Millisecond)"
    using assms(3) pos_mod_bound [of "250 * Millisecond" "MaxElapsedTime b"]
      div_mult_mod_eq [of "MaxElapsedTime b" "250 * Millisecond"]
    by (simp add: Reset_def pos_imp_zdiv_nonneg_iff)
qed (use assms in simp_all)

section \<open>What holds when the loop returns\<close>

text \<open>Induction over the rounds of a loop that returns, one case for each way a round can end.\<close>

lemma commitLoop_induct [consumes 1, case_names finished stop success retry]:
  assumes "commitLoop ce fn i now b s = Some r"
    and "\<And>i now b s. ce_done ce i \<Longrightarrow> P i now b s (None, s)"
    and "\<And>i now b s. \<not> ce_done ce i \<Longrightarrow> fst (NextBackOff now (ce_random ce i) b) = Stop \<Longrightarrow>
      P i now b s (Some CommitTimeout, s)"
    and "\<And>i now b s s'. \<not> ce_done ce i \<Longrightarrow> fn s = (None, s') \<Longrightarrow> P i now b s (None, s')"
    and "\<And>i now b s d b' e s' r. \<not> ce_done ce i \<Longrightarrow> NextBackOff now (ce_random ce i) b = (d, b') \<Longrightarrow> d \<noteq> Stop \<Longrightarrow>
      fn s = (Some e, s') \<Longrightarrow> P (Suc i) (now + ce_cost ce i + d) b' s' r \<Longrightarrow> P i now b s r"
  shows "P i now b s r"
proof -
  have "ce = ce \<longrightarrow> fn = fn \<longrightarrow> P i now b s r"
    using assms(1)
  proof (rule commitLoop.raw_induct [rotated, where P = "\<lambda>ce' fn' i now b s r. ce' = ce \<longrightarrow> fn' = fn \<longrightarrow> P i now b s r"],
      intro impI)
    fix loop :: "commit_env \<Rightarrow> ('a \<Rightarrow> err option \<times> 'a) \<Rightarrow> nat \<Rightarrow> int \<Rightarrow> exponential_backoff \<Rightarrow> 'a \<Rightarrow> (err option \<times> 'a) option"
      and ce' fn' i now b s r
    assume IH: "\<And>ce' fn' i now b s r. loop ce' fn' i now b s = Some r \<Longrightarrow> ce' = ce \<longrightarrow> fn' = fn \<longrightarrow> P i now b s r"
      and step: "(if ce_done ce' i then Some (None, s)
        else let (duration, b') = NextBackOff now (ce_random ce' i) b
             in if duration = Stop then Some (Some CommitTimeout, s)
                else let (er, s') = fn' s
                     in if er = None then Some (None, s')
                        else loop ce' fn' (Suc i) (now + ce_cost ce' i + duration) b' s') = Some r"
      and "ce' = ce" "fn' = fn"
    obtain d b' where nb: "NextBackOff now (ce_random ce i) b = (d, b')" by fastforce
    obtain er s1 where run: "fn s = (er, s1)" by fastforce
    show "P i now b s r"
    proof (cases "ce_done ce i \<or> d = Stop \<or> er = None")
      case True
      then show ?thesis
        using step assms(2) [of i now b s] assms(3) [of i now b s] assms(4) [of i s s1 now b]
        by (auto simp: nb run \<open>ce' = ce\<close> \<open>fn' = fn\<close> split: if_splits)
    next
      case False
      then have "loop ce fn (Suc i) (now + ce_cost ce i + d) b' s1 = Some r"
        using step by (auto simp: nb run \<open>ce' = ce\<close> \<open>fn' = fn\<close> split: if_splits)
      then have "P (Suc i) (now + ce_cost ce i + d) b' s1 r" using IH by blast
      then show ?thesis using assms(5) [OF _ nb, of s] False run by (cases er) auto
    qed
  qed
  then show ?thesis by simp
qed

text \<open>An invariant of the function is one of the loop.\<close>

lemma Commit_invariant:
  assumes "Commit ce fn b s = Some (er, s')" and "\<And>s. I s \<Longrightarrow> I (snd (fn s))" and "I s"
  shows "I s'"
proof -
  from assms(1) have "I s \<longrightarrow> I (snd (er, s'))"
    unfolding Commit_def
  proof (induction rule: commitLoop_induct)
    case (success i now b s s')
    then show ?case using assms(2) [of s] by simp
  next
    case (retry i now b s d b' e s' r)
    then show ?case using assms(2) [of s] by simp
  qed simp_all
  then show ?thesis using assms(3) by simp
qed

text \<open>
  When the loop returns no error and the context was not done, the function succeeded, started
  from a state that satisfies every invariant of the function.
\<close>

lemma Commit_success:
  assumes "Commit ce fn b s = Some (None, s')" and "\<And>i. \<not> ce_done ce i"
    and "\<And>s. I s \<Longrightarrow> I (snd (fn s))" and "I s"
  shows "\<exists>s0. I s0 \<and> fn s0 = (None, s')"
proof -
  from assms(1) have "I s \<longrightarrow> fst (None :: err option, s') = None \<longrightarrow> (\<exists>s0. I s0 \<and> fn s0 = (None, snd (None :: err option, s')))"
    unfolding Commit_def
  proof (induction rule: commitLoop_induct)
    case (retry i now b s d b' e s' r)
    then show ?case using assms(3) [of s] by simp
  qed (use assms(2) in auto)
  then show ?thesis using assms(4) by simp
qed

lemma Commit_first_attempt:
  assumes "\<not> ce_done ce 0" and "ce_ok ce" and "default_policy b" and "0 \<le> MaxElapsedTime b" and "fn s = (None, s')"
  shows "Commit ce fn b s = Some (None, s')"
  unfolding Commit_def
  using assms pause_bounds(2) [OF assms(2), of "Reset 0 b" 0]
  by (subst commitLoop_round) simp_all

text \<open>A function that has got stuck is run until the time is over.\<close>

lemma commitLoop_stuck:
  assumes "ce_ok ce" and "default_policy b" and "interval_ok b" and "0 < MaxElapsedTime b"
    and "\<And>i. \<not> ce_done ce i" and stuck: "fn s = (Some e, s)"
  shows "commitLoop ce fn i now b s = Some (Some CommitTimeout, s)"
proof -
  have "MaxElapsedTime b - (now - startTime b) < int (nat (MaxElapsedTime b - (now - startTime b)) + 1) * (250 * Millisecond)"
    by simp
  from commitLoop_returns [OF assms(1-4) this, of fn i s]
  obtain k er where run: "commitLoop ce fn i now b s = Some (er, ((\<lambda>s. snd (fn s)) ^^ k) s)" by blast
  have same: "((\<lambda>s. snd (fn s)) ^^ k) s = s" by (induction k) (simp_all add: stuck)
  have "t = s \<longrightarrow> fst r = Some CommitTimeout" if "commitLoop ce fn i now b t = Some r" for i now b t r
    using that
  proof (induction rule: commitLoop_induct)
    case (retry i now b t d b' e' t' r)
    then show ?case using stuck by auto
  qed (use assms(5) stuck in auto)
  then show ?thesis using run by (fastforce simp: same)
qed

section \<open>Properties\<close>

text \<open>
  C6: retrying ends. With a positive timeout the loop returns, whatever the function does, after
  at most one attempt for each quarter of a second of the timeout and one more: the state it
  leaves is that after so many runs of the function.
\<close>

theorem commit_bounded_attempts:
  assumes "ce_ok ce" and "0 < timeout"
  shows "\<exists>k er. k \<le> nat (timeout div (250 * Millisecond)) + 1 \<and>
     Commit ce fn (NewExponentialBackOff t0\<lparr>MaxElapsedTime := timeout\<rparr>) s = Some (er, ((\<lambda>s. snd (fn s)) ^^ k) s)"
  using Commit_returns [OF assms(1) default_policy_New [of timeout t0], of fn s] assms(2) by simp

definition sample_ce :: commit_env where
  "sample_ce = \<lparr>ce_done = (\<lambda>_. False), ce_random = (\<lambda>_. 0), ce_cost = (\<lambda>_. 0)\<rparr>"

lemma ce_ok_sample [simp]: "ce_ok sample_ce"
  by (simp add: ce_ok_def sample_ce_def)

theorem commit_bounded_attempts_witness:
  "\<exists>k er. k \<le> 41 \<and> Commit sample_ce (\<lambda>n :: nat. (Some (Remote ''down''), n + 1))
     (NewExponentialBackOff 0\<lparr>MaxElapsedTime := 10 * Second\<rparr>) 0 = Some (er, ((\<lambda>n. n + 1) ^^ k) 0)"
  using commit_bounded_attempts [of sample_ce "10 * Second" "\<lambda>n :: nat. (Some (Remote ''down''), n + 1)" 0 0] by simp

text \<open>
  C34: a timeout of zero means no limit: while the function fails and the context is not done,
  the loop never returns.
\<close>

theorem commit_zero_timeout_diverges:
  assumes "ce_ok ce" and "\<And>i. \<not> ce_done ce i" and "\<And>s. fst (fn s) \<noteq> None"
  shows "Commit ce fn (NewExponentialBackOff t0\<lparr>MaxElapsedTime := 0\<rparr>) s = None"
proof (rule ccontr)
  let ?b = "NewExponentialBackOff t0\<lparr>MaxElapsedTime := 0\<rparr>"
  assume "Commit ce fn ?b s \<noteq> None"
  then obtain r where "commitLoop ce fn 0 0 (Reset 0 ?b) s = Some r" by (auto simp: Commit_def)
  moreover have "default_policy b \<longrightarrow> interval_ok b \<longrightarrow> MaxElapsedTime b \<noteq> 0"
    if "commitLoop ce fn i now b s = Some r" for i now b s r
    using that
  proof (induction rule: commitLoop_induct)
    case (stop i now b s)
    then show ?case using pause_bounds(2) [OF assms(1)] by (auto simp: NextBackOff_def pause_def)
  next
    case (success i now b s s')
    then show ?case using assms(3) [of s] by simp
  next
    case (retry i now b s d b' e s' r)
    then show ?case by (auto simp: NextBackOff_def split: if_splits)
  qed (use assms(2) in simp)
  ultimately show False by (metis Reset_policy(1,2,4) default_policy_New exponential_backoff.select_convs(5)
        exponential_backoff.surjective exponential_backoff.update_convs(5))
qed

theorem commit_zero_timeout_diverges_witness:
  "Commit sample_ce (\<lambda>n :: nat. (Some (Remote ''down''), n + 1)) (NewExponentialBackOff 0\<lparr>MaxElapsedTime := 0\<rparr>) 0 = None"
  by (rule commit_zero_timeout_diverges) (simp_all, simp add: sample_ce_def)

end
