(* ===== verification/Engine.thy ===== *)
theory Engine
  imports LoadBalancer Commit
begin

text \<open>
  The engine, \<^verbatim>\<open>engine.go\<close>: the handlers of the Kubernetes events. Each generates the resources
  of an object, builds the load balancer's objects for them and commits these with retries.

  The state is the cache of Kubernetes objects and the state of the load balancer; what is
  fixed is the environment, the API client, the policy of the retries and the operations of the
  load balancer. The mutex makes each handler one step. \<open>None\<close> stands for a handler that does
  not return: it panics or retries forever. What a retry loop meets is a parameter, one record
  for each loop of the handler.
\<close>

record 's engine_state =
  e_cache :: kcache
  e_lb :: 's

record ('s, 'fe, 'be, 'sv, 'mw) engine =
  e_env :: go_env
  e_client :: kube_client
  e_backoff :: exponential_backoff
  e_ops :: "('s, 'fe, 'be, 'sv, 'mw) lb_ops"

definition NewEngine ::
  "go_env \<Rightarrow> err + kube_client \<Rightarrow> ('s, 'fe, 'be, 'sv, 'mw) lb_ops \<Rightarrow> int \<Rightarrow> 's \<Rightarrow>
     err + ('s, 'fe, 'be, 'sv, 'mw) engine \<times> 's engine_state" where
  "NewEngine env kc lb timeout s =
     (case kc of
        Inl er \<Rightarrow> Inl er
      | Inr client \<Rightarrow>
          Inr (\<lparr>e_env = env, e_client = client,
                e_backoff = (NewExponentialBackOff (env_now env))\<lparr>MaxElapsedTime := timeout\<rparr>, e_ops = lb\<rparr>,
               \<lparr>e_cache = NewCache, e_lb = s\<rparr>))"

section \<open>Building the objects\<close>

fun addAll :: "('x \<Rightarrow> 'a \<Rightarrow> 'a go) \<Rightarrow> 'x list \<Rightarrow> 'a \<Rightarrow> 'a go" where
  "addAll f [] a = Some a"
| "addAll f (x # xs) a = do { a \<leftarrow> f x a; addAll f xs a }"

text \<open>One round of the loop of \<^verbatim>\<open>addResources\<close>.\<close>

definition buildObject :: "('s, 'fe, 'be, 'sv, 'mw) lb_ops \<Rightarrow> resource \<Rightarrow> (err + 'be \<times> 'fe) go" where
  "buildObject lb rsc =
     (case lb_NewBackend lb rsc of
        Inl er \<Rightarrow> Some (Inl er)
      | Inr backend \<Rightarrow> do {
          (srvs, er) \<leftarrow> lb_NewServers lb rsc;
          (case er of
             Some er \<Rightarrow> Some (Inl er)
           | None \<Rightarrow> do {
               backend \<leftarrow> addAll (lb_AddServer lb) srvs backend;
               (case lb_NewFrontend lb rsc of
                  Inl er \<Rightarrow> Some (Inl er)
                | Inr frontend \<Rightarrow>
                    (case lb_NewMiddlewares lb rsc of
                       (mids, Some er) \<Rightarrow> Some (Inl er)
                     | (mids, None) \<Rightarrow> do {
                         frontend \<leftarrow> addAll (lb_AddMiddleware lb) mids frontend;
                         Some (Inr (backend, frontend))
                       }))
             })
        })"

fun buildObjects :: "('s, 'fe, 'be, 'sv, 'mw) lb_ops \<Rightarrow> resource list \<Rightarrow> (err + ('be \<times> 'fe) list) go" where
  "buildObjects lb [] = Some (Inr [])"
| "buildObjects lb (rsc # rscs) = do {
     r \<leftarrow> buildObject lb rsc;
     (case r of
        Inl er \<Rightarrow> Some (Inl er)
      | Inr bf \<Rightarrow> do {
          rest \<leftarrow> buildObjects lb rscs;
          Some (case rest of Inl er \<Rightarrow> Inl er | Inr bfs \<Rightarrow> Inr (bf # bfs))
        })
   }"

section \<open>Committing\<close>

text \<open>A loop over calls that may fail; the first error ends it.\<close>

fun runAll :: "('a \<Rightarrow> 's \<Rightarrow> err option \<times> 's) \<Rightarrow> 'a list \<Rightarrow> 's \<Rightarrow> err option \<times> 's" where
  "runAll f [] s = (None, s)"
| "runAll f (x # xs) s =
     (case f x s of
        (Some er, s) \<Rightarrow> (Some er, s)
      | (None, s) \<Rightarrow> runAll f xs s)"

text \<open>The function \<^verbatim>\<open>addResources\<close> commits: all backends first, then all frontends.\<close>

definition upsertObjects :: "('s, 'fe, 'be, 'sv, 'mw) lb_ops \<Rightarrow> ('be \<times> 'fe) list \<Rightarrow> 's \<Rightarrow> err option \<times> 's" where
  "upsertObjects lb bfs s =
     (case runAll (lb_UpsertBackend lb) (map fst bfs) s of
        (Some er, s) \<Rightarrow> (Some er, s)
      | (None, s) \<Rightarrow> runAll (lb_UpsertFrontend lb) (map snd bfs) s)"

definition addResources ::
  "('s, 'fe, 'be, 'sv, 'mw) lb_ops \<Rightarrow> exponential_backoff \<Rightarrow> commit_env \<Rightarrow> resource list \<Rightarrow> 's \<Rightarrow> (err option \<times> 's) go" where
  "addResources lb back ce rscs s = do {
     built \<leftarrow> buildObjects lb rscs;
     (case built of
        Inl er \<Rightarrow> Some (Some er, s)
      | Inr bfs \<Rightarrow> Commit ce (upsertObjects lb bfs) back s)
   }"

text \<open>The function \<^verbatim>\<open>deleteResources\<close> commits for one resource.\<close>

definition deleteObject :: "('s, 'fe, 'be, 'sv, 'mw) lb_ops \<Rightarrow> 'fe \<Rightarrow> 'be \<Rightarrow> 's \<Rightarrow> err option \<times> 's" where
  "deleteObject lb frontend backend s =
     (case lb_DeleteFrontend lb frontend s of
        (Some er, s) \<Rightarrow> (Some er, s)
      | (None, s) \<Rightarrow> lb_DeleteBackend lb backend s)"

fun deleteResources ::
  "('s, 'fe, 'be, 'sv, 'mw) lb_ops \<Rightarrow> exponential_backoff \<Rightarrow> (nat \<Rightarrow> commit_env) \<Rightarrow> resource list \<Rightarrow> 's \<Rightarrow>
     (err option \<times> 's) go" where
  "deleteResources lb back ces [] s = Some (None, s)"
| "deleteResources lb back ces (rsc # rscs) s =
     (case lb_NewBackend lb rsc of
        Inl er \<Rightarrow> Some (Some er, s)
      | Inr backend \<Rightarrow>
          (case lb_NewFrontend lb rsc of
             Inl er \<Rightarrow> Some (Some er, s)
           | Inr frontend \<Rightarrow> do {
               (er, s) \<leftarrow> Commit (ces 0) (deleteObject lb frontend backend) back s;
               (case er of
                  Some er \<Rightarrow> Some (Some er, s)
                | None \<Rightarrow> deleteResources lb back (\<lambda>i. ces (Suc i)) rscs s)
             }))"

definition removals :: "resource list \<Rightarrow> resource list \<Rightarrow> resource list" where
  "removals rscs previous = filter (\<lambda>rsc. gm_get (ResourceMap rscs) (r_id rsc) = None) previous"

definition updateResources ::
  "('s, 'fe, 'be, 'sv, 'mw) lb_ops \<Rightarrow> exponential_backoff \<Rightarrow> (nat \<Rightarrow> commit_env) \<Rightarrow> resource list \<Rightarrow> resource list \<Rightarrow> 's \<Rightarrow>
     (err option \<times> 's) go" where
  "updateResources lb back ces rscs previous s = do {
     (er, s) \<leftarrow> addResources lb back (ces 0) rscs s;
     (case er of
        Some er \<Rightarrow> Some (Some er, s)
      | None \<Rightarrow> deleteResources lb back (\<lambda>i. ces (Suc i)) (removals rscs previous) s)
   }"

section \<open>The handlers\<close>

text \<open>Errors are logged; the handlers return nothing but the new state.\<close>

definition Add ::
  "('s, 'fe, 'be, 'sv, 'mw) engine \<Rightarrow> (nat \<Rightarrow> commit_env) \<Rightarrow> kobject \<Rightarrow> 's engine_state \<Rightarrow> 's engine_state go" where
  "Add e ces obj st = do {
     ((rscs, er), k) \<leftarrow> GenResources (e_env e) (e_client e) obj (e_cache st);
     (er, s) \<leftarrow> addResources (e_ops e) (e_backoff e) (ces 0) rscs (e_lb st);
     Some \<lparr>e_cache = k, e_lb = s\<rparr>
   }"

definition Delete ::
  "('s, 'fe, 'be, 'sv, 'mw) engine \<Rightarrow> (nat \<Rightarrow> commit_env) \<Rightarrow> kobject \<Rightarrow> 's engine_state \<Rightarrow> 's engine_state go" where
  "Delete e ces obj st = do {
     ((rscs, er), k) \<leftarrow> GenResources (e_env e) (e_client e) obj (e_cache st);
     let k = (case obj of
                KService o' \<Rightarrow> ServiceDeleted (om_namespace (svc_meta o')) (om_name (svc_meta o')) k
              | _ \<Rightarrow> k);
     (er, s) \<leftarrow> deleteResources (e_ops e) (e_backoff e) ces rscs (e_lb st);
     Some \<lparr>e_cache = k, e_lb = s\<rparr>
   }"

definition Update ::
  "('s, 'fe, 'be, 'sv, 'mw) engine \<Rightarrow> (nat \<Rightarrow> commit_env) \<Rightarrow> kobject \<Rightarrow> kobject \<Rightarrow> 's engine_state \<Rightarrow> 's engine_state go" where
  "Update e ces old new st = do {
     ((oldResources, er), k) \<leftarrow> GenResources (e_env e) (e_client e) old (e_cache st);
     ((newResources, er), k) \<leftarrow> GenResources (e_env e) (e_client e) new k;
     (er, s) \<leftarrow> updateResources (e_ops e) (e_backoff e) ces newResources oldResources (e_lb st);
     Some \<lparr>e_cache = k, e_lb = s\<rparr>
   }"

section \<open>What the commits do to the load balancer\<close>

lemma runAll_Cons_None:
  "runAll f (x # xs) s = (None, s') \<longleftrightarrow> (\<exists>s1. f x s = (None, s1) \<and> runAll f xs s1 = (None, s'))"
  by (auto split: prod.split option.split)

context registry
begin

lemma runAll_grown:
  "inv s \<Longrightarrow> runAll up xs s = (e, s') \<Longrightarrow> idf ` set xs \<subseteq> K \<Longrightarrow> grown K s s'"
proof (induction xs arbitrary: s)
  case (Cons x xs)
  obtain e1 s1 where one: "up x s = (e1, s1)" by fastforce
  then have g: "grown K s s1" using Cons.prems by (auto intro: grown_up)
  show ?case
  proof (cases e1)
    case None
    then have "runAll up xs s1 = (e, s')" using Cons.prems(2) one by simp
    moreover have "inv s1" using g by (simp add: grown_def)
    ultimately have "grown K s1 s'" using Cons.IH Cons.prems(3) by simp
    with g show ?thesis by (rule grown_trans)
  next
    case (Some er)
    then show ?thesis using Cons.prems(2) one g by simp
  qed
qed (simp add: grown_refl)

lemma runAll_ids:
  "inv s \<Longrightarrow> runAll up xs s = (None, s') \<Longrightarrow> idf ` set xs \<subseteq> ids s'"
proof (induction xs arbitrary: s)
  case (Cons y ys)
  obtain s1 where one: "up y s = (None, s1)" and more: "runAll up ys s1 = (None, s')"
    using Cons.prems(2) unfolding runAll_Cons_None by blast
  have inv1: "inv s1" using up_frame [OF Cons.prems(1) one] by blast
  have "idf y \<in> ids s1" using has_id [OF inv1 up_has [OF Cons.prems(1) one]] .
  moreover have "ids s1 \<subseteq> ids s'" using runAll_grown [OF inv1 more subset_refl] by (simp add: grown_def)
  ultimately show ?case using Cons.IH [OF inv1 more] by auto
qed simp

lemma runAll_has:
  "inv s \<Longrightarrow> runAll up xs s = (None, s') \<Longrightarrow> distinct (map idf xs) \<Longrightarrow> x \<in> set xs \<Longrightarrow> has s' x"
proof (induction xs arbitrary: s)
  case (Cons y ys)
  obtain s1 where one: "up y s = (None, s1)" and more: "runAll up ys s1 = (None, s')"
    using Cons.prems(2) unfolding runAll_Cons_None by blast
  have inv1: "inv s1" using up_frame [OF Cons.prems(1) one] by blast
  show ?case
  proof (cases "x \<in> set ys")
    case True
    then show ?thesis using Cons.IH [OF inv1 more] Cons.prems(3) by simp
  next
    case False
    then have "x = y" using Cons.prems(4) by simp
    moreover have "has s1 y" using up_has [OF Cons.prems(1) one] .
    moreover have "idf y \<notin> idf ` set ys" using Cons.prems(3) by simp
    ultimately show ?thesis
      using runAll_grown [OF inv1 more subset_refl] unfolding grown_def by blast
  qed
qed simp

end

context load_balancer
begin

text \<open>Only objects with identifiers in \<open>K\<close> were touched, and none was removed.\<close>

definition changed :: "string set \<Rightarrow> 's \<Rightarrow> 's \<Rightarrow> bool" where
  "changed K s s' \<longleftrightarrow> inv s' \<and> backends s \<subseteq> backends s' \<and> backends s' \<subseteq> backends s \<union> K \<and>
     frontends s \<subseteq> frontends s' \<and> frontends s' \<subseteq> frontends s \<union> K \<and>
     (\<forall>b. bid b \<notin> K \<longrightarrow> has_backend s' b = has_backend s b) \<and>
     (\<forall>f. fid f \<notin> K \<longrightarrow> has_frontend s' f = has_frontend s f)"

lemma changed_refl: "inv s \<Longrightarrow> changed K s s"
  by (simp add: changed_def)

lemma changed_trans: "changed K s s' \<Longrightarrow> changed K s' s'' \<Longrightarrow> changed K s s''"
  unfolding changed_def by blast

lemma changed_backends: "be.grown K s s' \<Longrightarrow> changed K s s'"
  by (auto simp: be.grown_def changed_def)

lemma changed_frontends: "fe.grown K s s' \<Longrightarrow> changed K s s'"
  by (auto simp: fe.grown_def changed_def)

lemma upsertObjects_changed:
  assumes "inv s" and "upsertObjects lb bfs s = (e, s')" and "bid ` fst ` set bfs \<subseteq> K" and "fid ` snd ` set bfs \<subseteq> K"
  shows "changed K s s'"
proof -
  obtain e1 s1 where one: "runAll (lb_UpsertBackend lb) (map fst bfs) s = (e1, s1)" by fastforce
  then have g: "be.grown K s s1" using be.runAll_grown [OF assms(1)] assms(3) by simp
  show ?thesis
  proof (cases e1)
    case None
    then have "runAll (lb_UpsertFrontend lb) (map snd bfs) s1 = (e, s')"
      using assms(2) one by (simp add: upsertObjects_def)
    moreover have "inv s1" using g by (simp add: be.grown_def)
    ultimately have "fe.grown K s1 s'" using fe.runAll_grown assms(4) by simp
    with g show ?thesis by (blast intro: changed_trans changed_backends changed_frontends)
  next
    case (Some er)
    then show ?thesis using assms(2) one g by (auto simp: upsertObjects_def intro: changed_backends)
  qed
qed

lemma upsertObjects_has:
  assumes "inv s" and "upsertObjects lb bfs s = (None, s')" and "(b, f) \<in> set bfs"
    and "distinct (map (bid \<circ> fst) bfs)" and "distinct (map (fid \<circ> snd) bfs)"
  shows "has_backend s' b" and "has_frontend s' f"
proof -
  obtain s1 where one: "runAll (lb_UpsertBackend lb) (map fst bfs) s = (None, s1)"
      and two: "runAll (lb_UpsertFrontend lb) (map snd bfs) s1 = (None, s')"
    using assms(2) by (auto simp: upsertObjects_def split: prod.splits option.splits)
  have g1: "be.grown UNIV s s1" using be.runAll_grown [OF assms(1) one] by simp
  have inv1: "inv s1" using g1 by (simp add: be.grown_def)
  have g2: "fe.grown UNIV s1 s'" using fe.runAll_grown [OF inv1 two] by simp
  have "has_backend s1 b" using be.runAll_has [OF assms(1) one] assms(3,4) by force
  then show "has_backend s' b" using g2 by (simp add: fe.grown_def)
  show "has_frontend s' f" using fe.runAll_has [OF inv1 two] assms(3,5) by force
qed

lemma addAll_server_id: "addAll (lb_AddServer lb) xs b = Some b' \<Longrightarrow> bid b' = bid b"
  by (induction xs arbitrary: b) (auto simp: add_server_id split: bind_splits)

lemma addAll_middleware_id: "addAll (lb_AddMiddleware lb) xs f = Some f' \<Longrightarrow> fid f' = fid f"
  by (induction xs arbitrary: f) (auto simp: add_middleware_id split: bind_splits)

lemma buildObject_id: "buildObject lb r = Some (Inr (b, f)) \<Longrightarrow> bid b = r_id r \<and> fid f = r_id r"
  by (auto simp: buildObject_def new_backend_id new_frontend_id dest!: addAll_server_id addAll_middleware_id
      split: sum.splits option.splits prod.splits bind_splits)

lemma buildObjects_id:
  "buildObjects lb rs = Some (Inr bfs) \<Longrightarrow> map (bid \<circ> fst) bfs = map r_id rs \<and> map (fid \<circ> snd) bfs = map r_id rs"
proof (induction rs arbitrary: bfs)
  case (Cons r rs)
  then obtain b f bfs' where "buildObject lb r = Some (Inr (b, f))" and "buildObjects lb rs = Some (Inr bfs')"
      and "bfs = (b, f) # bfs'"
    by (auto split: sum.splits bind_splits prod.splits)
  with Cons.IH [of bfs'] buildObject_id [of r b f] show ?case by simp
qed simp

lemma buildObjects_member:
  assumes "buildObjects lb rs = Some (Inr bfs)" and "(b, f) \<in> set bfs"
  shows "bid b \<in> r_id ` set rs" and "fid f \<in> r_id ` set rs"
proof -
  have "set (map (bid \<circ> fst) bfs) = r_id ` set rs" "set (map (fid \<circ> snd) bfs) = r_id ` set rs"
    using buildObjects_id [OF assms(1)] by simp_all
  then show "bid b \<in> r_id ` set rs" and "fid f \<in> r_id ` set rs" using assms(2) by force+
qed

text \<open>Adding resources.\<close>

lemma addResources_changed:
  assumes "inv s" and "addResources lb back ce rs s = Some (e, s')"
  shows "changed (r_id ` set rs) s s'"
proof -
  from assms(2) obtain built where built: "buildObjects lb rs = Some built" by (auto simp: addResources_def split: bind_splits)
  show ?thesis
  proof (cases built)
    case (Inl er)
    then show ?thesis using assms built by (simp add: addResources_def changed_refl)
  next
    case (Inr bfs)
    let ?K = "r_id ` set rs"
    have ids: "bid ` fst ` set bfs \<subseteq> ?K" "fid ` snd ` set bfs \<subseteq> ?K"
      using buildObjects_id [of rs bfs] built Inr by (metis image_comp image_set set_eq_subset)+
    have "Commit ce (upsertObjects lb bfs) back s = Some (e, s')"
      using assms(2) built Inr by (simp add: addResources_def)
    then show ?thesis
    proof (rule Commit_invariant [where I = "changed ?K s"])
      fix t assume "changed ?K s t"
      then show "changed ?K s (snd (upsertObjects lb bfs t))"
        using upsertObjects_changed [OF _ prod.collapse [symmetric] ids] changed_trans by (metis changed_def)
    qed (rule changed_refl [OF assms(1)])
  qed
qed

lemma addResources_success:
  assumes "inv s" and "addResources lb back ce rs s = Some (None, s')" and "\<And>i. \<not> ce_done ce i" and "distinct (map r_id rs)"
  shows "\<exists>bfs. buildObjects lb rs = Some (Inr bfs) \<and> (\<forall>(b, f) \<in> set bfs. has_backend s' b \<and> has_frontend s' f)"
    and "backends s' = backends s \<union> r_id ` set rs" and "frontends s' = frontends s \<union> r_id ` set rs"
proof -
  from assms(2) obtain bfs where bfs: "buildObjects lb rs = Some (Inr bfs)"
      and com: "Commit ce (upsertObjects lb bfs) back s = Some (None, s')"
    by (auto simp: addResources_def split: bind_splits sum.splits)
  note ids = buildObjects_id [OF bfs]
  have "\<exists>s0. inv s0 \<and> upsertObjects lb bfs s0 = (None, s')"
  proof (rule Commit_success [OF com assms(3), where I = inv])
    fix t assume "inv t"
    then show "inv (snd (upsertObjects lb bfs t))"
      using upsertObjects_changed [where K = UNIV, OF _ prod.collapse [symmetric]] by (simp add: changed_def)
  qed (rule assms(1))
  then obtain s0 where s0: "inv s0" "upsertObjects lb bfs s0 = (None, s')" by blast
  have has: "has_backend s' b" "has_frontend s' f" if "(b, f) \<in> set bfs" for b f
    using upsertObjects_has [OF s0 that] ids assms(4) by simp_all
  then show "\<exists>bfs. buildObjects lb rs = Some (Inr bfs) \<and> (\<forall>(b, f) \<in> set bfs. has_backend s' b \<and> has_frontend s' f)"
    using bfs by blast
  have ch: "changed (r_id ` set rs) s s'" using addResources_changed [OF assms(1,2)] .
  then have inv': "inv s'" by (simp add: changed_def)
  have "r_id ` set rs \<subseteq> backends s'"
  proof -
    have "r_id ` set rs = (bid \<circ> fst) ` set bfs" using ids by (metis image_set)
    moreover have "bid (fst bf) \<in> backends s'" if "bf \<in> set bfs" for bf
      using has_backend_id [OF inv' has(1) [of "fst bf" "snd bf"]] that by simp
    ultimately show ?thesis by auto
  qed
  then show "backends s' = backends s \<union> r_id ` set rs" using ch unfolding changed_def by blast
  have "r_id ` set rs \<subseteq> frontends s'"
  proof -
    have "r_id ` set rs = (fid \<circ> snd) ` set bfs" using ids by (metis image_set)
    moreover have "fid (snd bf) \<in> frontends s'" if "bf \<in> set bfs" for bf
      using has_frontend_id [OF inv' has(2) [of "fst bf" "snd bf"]] that by simp
    ultimately show ?thesis by auto
  qed
  then show "frontends s' = frontends s \<union> r_id ` set rs" using ch unfolding changed_def by blast
qed

text \<open>Deleting resources: only objects with identifiers in \<open>K\<close> were removed, and none was added.\<close>

definition shrunk :: "string set \<Rightarrow> 's \<Rightarrow> 's \<Rightarrow> bool" where
  "shrunk K s s' \<longleftrightarrow> inv s' \<and> backends s - K \<subseteq> backends s' \<and> backends s' \<subseteq> backends s \<and>
     frontends s - K \<subseteq> frontends s' \<and> frontends s' \<subseteq> frontends s \<and>
     (\<forall>b. bid b \<notin> K \<longrightarrow> has_backend s' b = has_backend s b) \<and>
     (\<forall>f. fid f \<notin> K \<longrightarrow> has_frontend s' f = has_frontend s f)"

lemma shrunk_refl: "inv s \<Longrightarrow> shrunk K s s"
  by (auto simp: shrunk_def)

lemma shrunk_trans: "shrunk K s s' \<Longrightarrow> shrunk L s' s'' \<Longrightarrow> shrunk (K \<union> L) s s''"
  unfolding shrunk_def by blast

lemma deleteFrontend_shrunk:
  "inv s \<Longrightarrow> lb_DeleteFrontend lb f s = (e, s') \<Longrightarrow> shrunk {fid f} s s'"
  using delete_frontend_frame [of s f e s'] by (auto simp: shrunk_def)

lemma deleteBackend_shrunk:
  "inv s \<Longrightarrow> lb_DeleteBackend lb b s = (e, s') \<Longrightarrow> shrunk {bid b} s s'"
  using delete_backend_frame [of s b e s'] by (auto simp: shrunk_def)

lemma deleteObject_shrunk:
  assumes "inv s" and "deleteObject lb f b s = (e, s')" and "fid f = k" and "bid b = k"
  shows "shrunk {k} s s'"
proof -
  obtain e1 s1 where one: "lb_DeleteFrontend lb f s = (e1, s1)" by fastforce
  then have sh: "shrunk {k} s s1" using deleteFrontend_shrunk [OF assms(1) one] assms(3) by simp
  show ?thesis
  proof (cases e1)
    case None
    then have "lb_DeleteBackend lb b s1 = (e, s')" using assms(2) one by (simp add: deleteObject_def)
    moreover have "inv s1" using sh by (simp add: shrunk_def)
    ultimately have "shrunk {k} s1 s'" using deleteBackend_shrunk assms(4) by blast
    with sh show ?thesis using shrunk_trans by fastforce
  next
    case (Some er)
    then show ?thesis using assms(2) one sh by (simp add: deleteObject_def)
  qed
qed

lemma deleteObject_gone:
  assumes "inv s" and "deleteObject lb f b s = (None, s')"
  shows "fid f \<notin> frontends s'" and "bid b \<notin> backends s'"
proof -
  obtain s1 where one: "lb_DeleteFrontend lb f s = (None, s1)" and two: "lb_DeleteBackend lb b s1 = (None, s')"
    using assms(2) by (auto simp: deleteObject_def split: prod.splits option.splits)
  have inv1: "inv s1" using deleteFrontend_shrunk [OF assms(1) one] by (simp add: shrunk_def)
  show "bid b \<notin> backends s'" using delete_backend [OF inv1 two] .
  show "fid f \<notin> frontends s'"
    using delete_frontend [OF assms(1) one] delete_backend_frame [OF inv1 two] by simp
qed

lemma Commit_delete_shrunk:
  assumes "inv s" and "Commit ce (deleteObject lb f b) back s = Some (e, s')" and "fid f = k" and "bid b = k"
  shows "shrunk {k} s s'"
  using assms(2)
proof (rule Commit_invariant [where I = "shrunk {k} s"])
  fix t assume t: "shrunk {k} s t"
  then have "inv t" by (simp add: shrunk_def)
  then have "shrunk {k} t (snd (deleteObject lb f b t))"
    using deleteObject_shrunk [OF _ prod.collapse [symmetric] assms(3,4)] by blast
  with t show "shrunk {k} s (snd (deleteObject lb f b t))" using shrunk_trans [of "{k}" s t "{k}"] by simp
qed (rule shrunk_refl [OF assms(1)])

lemma Commit_delete_gone:
  assumes "inv s" and "Commit ce (deleteObject lb f b) back s = Some (None, s')" and "\<And>i. \<not> ce_done ce i"
  shows "fid f \<notin> frontends s'" and "bid b \<notin> backends s'"
proof -
  have "\<exists>s0. inv s0 \<and> deleteObject lb f b s0 = (None, s')"
  proof (rule Commit_success [OF assms(2,3), where I = inv])
    fix t assume t: "inv t"
    obtain e1 t1 where one: "lb_DeleteFrontend lb f t = (e1, t1)" by fastforce
    note inv1 = deleteFrontend_shrunk [OF t one]
    obtain e2 t2 where two: "lb_DeleteBackend lb b t1 = (e2, t2)" by fastforce
    show "inv (snd (deleteObject lb f b t))"
      using inv1 deleteBackend_shrunk [OF _ two] one two
      by (cases e1) (auto simp: deleteObject_def shrunk_def)
  qed (rule assms(1))
  then show "fid f \<notin> frontends s'" and "bid b \<notin> backends s'" using deleteObject_gone by blast+
qed

lemma deleteResources_step:
  assumes "deleteResources lb back ces (r # rs) s = Some (None, s')"
  obtains b f s1 where "lb_NewBackend lb r = Inr b" and "lb_NewFrontend lb r = Inr f"
    and "Commit (ces 0) (deleteObject lb f b) back s = Some (None, s1)"
    and "deleteResources lb back (\<lambda>i. ces (Suc i)) rs s1 = Some (None, s')"
  using assms by (auto split: sum.splits bind_splits option.splits)

lemma deleteResources_success:
  assumes "inv s" and "deleteResources lb back ces rs s = Some (None, s')" and "\<And>n i. \<not> ce_done (ces n) i"
  shows "shrunk (r_id ` set rs) s s' \<and> backends s' = backends s - r_id ` set rs \<and> frontends s' = frontends s - r_id ` set rs"
  using assms
proof (induction rs arbitrary: s ces)
  case (Cons r rs)
  from Cons.prems(2) obtain b f s1 where b: "lb_NewBackend lb r = Inr b" and f: "lb_NewFrontend lb r = Inr f"
      and com: "Commit (ces 0) (deleteObject lb f b) back s = Some (None, s1)"
      and more: "deleteResources lb back (\<lambda>i. ces (Suc i)) rs s1 = Some (None, s')"
    by (rule deleteResources_step)
  have ids: "bid b = r_id r" "fid f = r_id r" using b f by (simp_all add: new_backend_id new_frontend_id)
  have sh: "shrunk {r_id r} s s1" using Commit_delete_shrunk [OF Cons.prems(1) com ids(2,1)] .
  have gone: "r_id r \<notin> frontends s1" "r_id r \<notin> backends s1"
    using Commit_delete_gone [OF Cons.prems(1) com] Cons.prems(3) ids by simp_all
  have inv1: "inv s1" using sh by (simp add: shrunk_def)
  have IH: "shrunk (r_id ` set rs) s1 s' \<and> backends s' = backends s1 - r_id ` set rs \<and> frontends s' = frontends s1 - r_id ` set rs"
    using Cons.IH [OF inv1 more] Cons.prems(3) by simp
  moreover have "shrunk (r_id ` set (r # rs)) s s'" using shrunk_trans [OF sh conjunct1 [OF IH]] by simp
  moreover have "backends s1 = backends s - {r_id r}" "frontends s1 = frontends s - {r_id r}"
    using sh gone by (auto simp: shrunk_def)
  ultimately show ?case by auto
qed (simp add: shrunk_refl)

lemma ResourceMap_None: "gm_get (ResourceMap rs) k = None \<longleftrightarrow> k \<notin> r_id ` set rs"
proof -
  have "ResourceMap rs = fold (\<lambda>e. gm_put (fst e) (snd e)) (map (\<lambda>r. (r_id r, r)) rs) []"
    by (simp add: ResourceMap_def fold_map comp_def)
  then have "gm_get (ResourceMap rs) k = map_of (rev (map (\<lambda>r. (r_id r, r)) rs)) k"
    by (simp add: gm.get_put_all split: option.split)
  then show ?thesis by (simp add: map_of_eq_None_iff image_image)
qed

lemma removals_ids: "r_id ` set (removals new old) = r_id ` set old - r_id ` set new"
  by (auto simp: removals_def ResourceMap_None)

lemma updateResources_success:
  assumes "inv s" and "updateResources lb back ces new old s = Some (None, s')" and "\<And>n i. \<not> ce_done (ces n) i"
    and "distinct (map r_id new)"
  shows "\<exists>bfs. buildObjects lb new = Some (Inr bfs) \<and> (\<forall>(b, f) \<in> set bfs. has_backend s' b \<and> has_frontend s' f)"
    and "backends s' = (backends s - r_id ` set old) \<union> r_id ` set new"
    and "frontends s' = (frontends s - r_id ` set old) \<union> r_id ` set new"
proof -
  from assms(2) obtain s1 where add: "addResources lb back (ces 0) new s = Some (None, s1)"
      and del: "deleteResources lb back (\<lambda>i. ces (Suc i)) (removals new old) s1 = Some (None, s')"
    by (auto simp: updateResources_def split: bind_splits option.splits)
  note ok = addResources_success [OF assms(1) add assms(3,4)]
  have inv1: "inv s1" using addResources_changed [OF assms(1) add] by (simp add: changed_def)
  have fin: "shrunk (r_id ` set (removals new old)) s1 s'"
      "backends s' = backends s1 - r_id ` set (removals new old)" "frontends s' = frontends s1 - r_id ` set (removals new old)"
    using deleteResources_success [OF inv1 del] assms(3) by simp_all
  show "backends s' = (backends s - r_id ` set old) \<union> r_id ` set new"
      "frontends s' = (frontends s - r_id ` set old) \<union> r_id ` set new"
    unfolding fin(2,3) ok(2,3) removals_ids by blast+
  from ok(1) obtain bfs where bfs: "buildObjects lb new = Some (Inr bfs)"
      and has: "\<And>b f. (b, f) \<in> set bfs \<Longrightarrow> has_backend s1 b \<and> has_frontend s1 f" by blast
  have "has_backend s' b \<and> has_frontend s' f" if bf: "(b, f) \<in> set bfs" for b f
  proof -
    have "bid b \<in> r_id ` set new" "fid f \<in> r_id ` set new"
      using buildObjects_member [OF bfs bf] by blast+
    then have "bid b \<notin> r_id ` set (removals new old)" "fid f \<notin> r_id ` set (removals new old)"
      by (auto simp: removals_ids)
    then show ?thesis using fin(1) has [OF bf] by (simp add: shrunk_def)
  qed
  then show "\<exists>bfs. buildObjects lb new = Some (Inr bfs) \<and> (\<forall>(b, f) \<in> set bfs. has_backend s' b \<and> has_frontend s' f)"
    using bfs by blast
qed

end

end
