(* ===== verification/Vulcan_Model.thy ===== *)
theory Vulcan_Model
  imports Go_Strings "HOL-Library.Word"
begin

text \<open>
  The objects of the vulcand library: \<^verbatim>\<open>engine/model.go\<close> with its constructors and comparisons,
  the TLS settings of \<^verbatim>\<open>engine/tls.go\<close>, and the decoding of middlewares in \<^verbatim>\<open>engine/json.go\<close>.
  The validity of route and failover expressions, durations and request URIs is a parameter.
\<close>

section \<open>Errors\<close>

text \<open>The text of an error, with that of \<^verbatim>\<open>NotFoundError\<close> for an empty message.\<close>

fun errText :: "err \<Rightarrow> string" where
  "errText (Err s) = s"
| "errText (NotFound s) = (if s \<noteq> [] then s else ''Object not found'')"
| "errText (AlreadyExists s) = s"
| "errText (Remote s) = s"

text \<open>A text between single quotes.\<close>

definition squote :: "string \<Rightarrow> string" where
  "squote s = CHR 0x27 # s @ [CHR 0x27]"

section \<open>TLS settings\<close>

record lru_session_cache_settings =
  lru_Capacity :: int

record tls_session_cache =
  tsc_Type :: string
  tsc_Settings :: "lru_session_cache_settings option"

record tls_settings =
  tls_PreferServerCipherSuites :: bool
  tls_InsecureSkipVerify :: bool
  tls_MinVersion :: string
  tls_MaxVersion :: string
  tls_SessionTicketsDisabled :: bool
  tls_SessionCache :: tls_session_cache
  tls_CipherSuites :: "string list"

text \<open>The part of \<^verbatim>\<open>tls.Config\<close> that is set; of the client's session cache, its capacity.\<close>

record tls_config =
  tc_MinVersion :: "16 word"
  tc_MaxVersion :: "16 word"
  tc_SessionTicketsDisabled :: bool
  tc_ClientSessionCache :: "int option"
  tc_PreferServerCipherSuites :: bool
  tc_CipherSuites :: "16 word list"
  tc_InsecureSkipVerify :: bool

definition cipherSuites :: "(string \<times> 16 word) list" where
  "cipherSuites =
     [(''TLS_RSA_WITH_RC4_128_SHA'', 0x0005),
      (''TLS_RSA_WITH_3DES_EDE_CBC_SHA'', 0x000a),
      (''TLS_RSA_WITH_AES_128_CBC_SHA'', 0x002f),
      (''TLS_RSA_WITH_AES_256_CBC_SHA'', 0x0035),
      (''TLS_ECDHE_ECDSA_WITH_RC4_128_SHA'', 0xc007),
      (''TLS_ECDHE_ECDSA_WITH_AES_128_CBC_SHA'', 0xc009),
      (''TLS_ECDHE_ECDSA_WITH_AES_256_CBC_SHA'', 0xc00a),
      (''TLS_ECDHE_RSA_WITH_RC4_128_SHA'', 0xc011),
      (''TLS_ECDHE_RSA_WITH_3DES_EDE_CBC_SHA'', 0xc012),
      (''TLS_ECDHE_RSA_WITH_AES_128_CBC_SHA'', 0xc013),
      (''TLS_ECDHE_RSA_WITH_AES_256_CBC_SHA'', 0xc014),
      (''TLS_ECDHE_RSA_WITH_AES_128_GCM_SHA256'', 0xc02f),
      (''TLS_ECDHE_ECDSA_WITH_AES_128_GCM_SHA256'', 0xc02b)]"

definition ParseCipherSuite :: "string \<Rightarrow> err + 16 word" where
  "ParseCipherSuite cs =
     (case map_of cipherSuites cs of
        Some c \<Rightarrow> Inr c
      | None \<Rightarrow> Inl (Err (''unsupported cipher suite: '' @ cs)))"

definition ParseTLSVersion :: "string \<Rightarrow> err + 16 word" where
  "ParseTLSVersion version =
     (if version = ''VersionTLS10'' then Inr 0x0301
      else if version = ''VersionTLS11'' then Inr 0x0302
      else if version = ''VersionTLS12'' then Inr 0x0303
      else Inl (Err (''unsupported TLS version: '' @ version)))"

definition defaultSuites :: "16 word list" where
  "defaultSuites = [0xc02b, 0xc02f, 0xc014, 0xc013, 0xc00a, 0xc009, 0x0035, 0x002f]"

fun parseSuites :: "string list \<Rightarrow> err + 16 word list" where
  "parseSuites [] = Inr []"
| "parseSuites (s # ss) =
     (case ParseCipherSuite s of
        Inl er \<Rightarrow> Inl er
      | Inr c \<Rightarrow> (case parseSuites ss of Inl er \<Rightarrow> Inl er | Inr cs \<Rightarrow> Inr (c # cs)))"

text \<open>Without settings the capacity stays zero; only a capacity of zero is replaced by the default.\<close>

definition NewTLSSessionCache :: "tls_session_cache \<Rightarrow> err + int" where
  "NewTLSSessionCache s =
     (let cacheType = (if tsc_Type s = [] then ''LRU'' else tsc_Type s) in
      if cacheType \<noteq> ''LRU'' then Inl (Err (''unsupported session cache type: '' @ tsc_Type s))
      else (case tsc_Settings s of
              None \<Rightarrow> Inr 0
            | Some params \<Rightarrow>
                if lru_Capacity params < 0 then Inl (Err (''bad LRU capacity: '' @ itoa (lru_Capacity params)))
                else if lru_Capacity params = 0 then Inr 1024
                else Inr (lru_Capacity params)))"

definition NewTLSConfig :: "tls_settings \<Rightarrow> err + tls_config" where
  "NewTLSConfig s =
     (case (if tls_MinVersion s = [] then Inr 0x0301 else ParseTLSVersion (tls_MinVersion s)) of
        Inl er \<Rightarrow> Inl er
      | Inr mn \<Rightarrow>
     (case (if tls_MaxVersion s = [] then Inr 0x0303 else ParseTLSVersion (tls_MaxVersion s)) of
        Inl er \<Rightarrow> Inl er
      | Inr mx \<Rightarrow>
     (case (if length (tls_CipherSuites s) = 0 then Inr defaultSuites else parseSuites (tls_CipherSuites s)) of
        Inl er \<Rightarrow> Inl er
      | Inr css \<Rightarrow>
     (case (if \<not> tls_SessionTicketsDisabled s then map_sum id Some (NewTLSSessionCache (tls_SessionCache s)) else Inr None) of
        Inl er \<Rightarrow> Inl er
      | Inr cache \<Rightarrow>
          Inr \<lparr>tc_MinVersion = mn, tc_MaxVersion = mx, tc_SessionTicketsDisabled = tls_SessionTicketsDisabled s,
               tc_ClientSessionCache = cache, tc_PreferServerCipherSuites = tls_PreferServerCipherSuites s,
               tc_CipherSuites = css, tc_InsecureSkipVerify = tls_InsecureSkipVerify s\<rparr>))))"

definition TLSSessionCacheEquals :: "tls_session_cache \<Rightarrow> tls_session_cache \<Rightarrow> bool" where
  "TLSSessionCacheEquals c o' =
     (if tsc_Type c \<noteq> tsc_Type o' then False
      else (case (tsc_Settings c, tsc_Settings o') of
              (None, None) \<Rightarrow> True
            | (Some cs, Some os) \<Rightarrow> lru_Capacity cs = lru_Capacity os
            | _ \<Rightarrow> False))"

definition TLSSettingsEquals :: "tls_settings \<Rightarrow> tls_settings \<Rightarrow> bool" where
  "TLSSettingsEquals s other =
     (case NewTLSConfig s of
        Inl _ \<Rightarrow> False
      | Inr scfg \<Rightarrow>
     (case NewTLSConfig other of
        Inl _ \<Rightarrow> False
      | Inr ocfg \<Rightarrow>
          \<not> (tc_PreferServerCipherSuites scfg \<noteq> tc_PreferServerCipherSuites ocfg \<or>
             tc_InsecureSkipVerify scfg \<noteq> tc_InsecureSkipVerify ocfg \<or>
             tc_MinVersion scfg \<noteq> tc_MinVersion ocfg \<or>
             tc_MaxVersion scfg \<noteq> tc_MaxVersion ocfg \<or>
             tc_SessionTicketsDisabled scfg \<noteq> tc_SessionTicketsDisabled ocfg) \<and>
          length (tc_CipherSuites scfg) = length (tc_CipherSuites ocfg) \<and>
          list_all2 (=) (tc_CipherSuites scfg) (tc_CipherSuites ocfg) \<and>
          TLSSessionCacheEquals (tls_SessionCache s) (tls_SessionCache other)))"


section \<open>Hosts and listeners\<close>

text \<open>Keys and certificates are byte strings. \<^verbatim>\<open>tls.X509KeyPair\<close> is a parameter.\<close>

record key_pair =
  kp_Key :: string
  kp_Cert :: string

definition NewKeyPair :: "(string \<Rightarrow> string \<Rightarrow> err option) \<Rightarrow> string \<Rightarrow> string \<Rightarrow> err + key_pair" where
  "NewKeyPair x509 cert key =
     (if length cert = 0 \<or> length key = 0 then Inl (Err ''Provide non-empty certificate and a private key'')
      else (case x509 cert key of Some er \<Rightarrow> Inl er | None \<Rightarrow> Inr \<lparr>kp_Key = key, kp_Cert = cert\<rparr>))"

definition KeyPairEquals :: "key_pair \<Rightarrow> key_pair \<Rightarrow> bool" where
  "KeyPairEquals c o' \<longleftrightarrow>
     length (kp_Cert c) = length (kp_Cert o') \<and> length (kp_Key c) = length (kp_Key o') \<and>
     kp_Cert c = kp_Cert o' \<and> kp_Key c = kp_Key o'"

record address =
  ad_Network :: string
  ad_Address :: string

definition AddressEquals :: "address \<Rightarrow> address \<Rightarrow> bool" where
  "AddressEquals a o' \<longleftrightarrow> ad_Network a = ad_Network o' \<and> ad_Address a = ad_Address o'"

definition NewAddress :: "string \<Rightarrow> string \<Rightarrow> err + address" where
  "NewAddress network addr =
     (if length addr = 0 then Inl (Err ''supply a non empty address'')
      else (let network = to_lower network in
            if network \<noteq> ''tcp'' \<and> network \<noteq> ''unix''
            then Inl (Err (''unsupported network '' @ squote network @ '', supported networks are tcp and unix''))
            else Inr \<lparr>ad_Network = network, ad_Address = addr\<rparr>))"

record listener =
  li_Id :: string
  li_Protocol :: string
  li_Address :: address
  li_Scope :: string
  li_Settings :: "tls_settings option"

definition ListenerTLSConfig :: "listener \<Rightarrow> err + tls_config" where
  "ListenerTLSConfig l =
     (if li_Protocol l \<noteq> ''https'' then Inl (Err (''wrong listener proto: '' @ li_Protocol l))
      else NewTLSConfig (case li_Settings l of
             Some t \<Rightarrow> t
           | None \<Rightarrow> \<lparr>tls_PreferServerCipherSuites = False, tls_InsecureSkipVerify = False, tls_MinVersion = [],
                      tls_MaxVersion = [], tls_SessionTicketsDisabled = False,
                      tls_SessionCache = \<lparr>tsc_Type = [], tsc_Settings = None\<rparr>, tls_CipherSuites = []\<rparr>))"

definition ListenerSettingsEquals :: "listener \<Rightarrow> listener \<Rightarrow> bool" where
  "ListenerSettingsEquals l o' =
     (case (li_Settings l, li_Settings o') of
        (None, None) \<Rightarrow> True
      | (Some ls, Some os) \<Rightarrow> TLSSettingsEquals os ls
      | _ \<Rightarrow> False)"

definition NewListener ::
  "(string \<Rightarrow> bool) \<Rightarrow> string \<Rightarrow> string \<Rightarrow> string \<Rightarrow> string \<Rightarrow> string \<Rightarrow> tls_settings option \<Rightarrow> err + listener" where
  "NewListener valid_route ident protocol network addr scope settings =
     (let protocol = to_lower protocol in
      if protocol \<noteq> ''http'' \<and> protocol \<noteq> ''https''
      then Inl (Err (''unsupported protocol '' @ squote protocol @ '', supported protocols are http and https''))
      else if scope \<noteq> [] \<and> \<not> valid_route scope then Inl (Err ''Scope should be a valid route expression'')
      else (case NewAddress network addr of
              Inl er \<Rightarrow> Inl er
            | Inr a \<Rightarrow> Inr \<lparr>li_Id = ident, li_Protocol = protocol, li_Address = a, li_Scope = scope,
                            li_Settings = settings\<rparr>))"

record ocsp_settings =
  oc_Enabled :: bool
  oc_Period :: string
  oc_Responders :: "string list"
  oc_SkipSignatureCheck :: bool

definition RefreshPeriod :: "(string \<Rightarrow> err + int) \<Rightarrow> ocsp_settings \<Rightarrow> err + int" where
  "RefreshPeriod parse_duration o' =
     (if oc_Period o' = [] then Inr (3600 * 1000000000) else parse_duration (oc_Period o'))"

definition OCSPEquals :: "(string \<Rightarrow> err + int) \<Rightarrow> ocsp_settings \<Rightarrow> ocsp_settings \<Rightarrow> bool" where
  "OCSPEquals pd o' other =
     (if oc_Enabled o' \<noteq> oc_Enabled other then False
      else (case RefreshPeriod pd o' of
              Inl _ \<Rightarrow> False
            | Inr p \<Rightarrow>
           (case RefreshPeriod pd other of
              Inl _ \<Rightarrow> False
            | Inr p2 \<Rightarrow>
                if p \<noteq> p2 then False
                else if length (oc_Responders o') \<noteq> length (oc_Responders other) then False
                else if length (oc_Responders o') = 0 \<or> length (oc_Responders other) = 0 then True
                else list_all (\<lambda>(a, b). a = b) (zip (oc_Responders o') (oc_Responders other)))))"

record host_settings =
  hs_Default :: bool
  hs_KeyPair :: "key_pair option"
  hs_OCSP :: ocsp_settings

record host =
  ho_Name :: string
  ho_Settings :: host_settings

definition NewHost :: "string \<Rightarrow> host_settings \<Rightarrow> err + host" where
  "NewHost name settings =
     (if name = [] then Inl (Err ''Hostname can not be empty'')
      else Inr \<lparr>ho_Name = name, ho_Settings = settings\<rparr>)"

section \<open>Frontends, backends, servers and middlewares\<close>

record http_frontend_limits =
  MaxMemBodyBytes :: int
  MaxBodyBytes :: int
  MaxRespMemBodyBytes :: int
  MaxRespBodyBytes :: int

record http_frontend_settings =
  fs_Limits :: http_frontend_limits
  fs_FailoverPredicate :: string
  fs_Hostname :: string
  fs_TrustForwardHeader :: bool
  fs_PassHostHeader :: bool

record eng_frontend =
  ef_Id :: string
  ef_Route :: string
  ef_Type :: string
  ef_BackendId :: string
  ef_Settings :: http_frontend_settings

record http_backend_settings =
  bs_Read :: string
  bs_Dial :: string
  bs_TLSHandshake :: string
  bs_Period :: string
  bs_MaxIdleConnsPerHost :: int
  bs_TLS :: "tls_settings option"

record eng_backend =
  eb_Id :: string
  eb_Type :: string
  eb_Settings :: http_backend_settings

record eng_server =
  es_Id :: string
  es_URL :: string

record eng_middleware =
  em_Id :: string
  em_Priority :: int
  em_Type :: string
  em_Middleware :: string     \<comment> \<open>the plugin's own data, not interpreted here\<close>

text \<open>
  What the constructors take from elsewhere: the validity of a route and of a failover
  expression, \<^verbatim>\<open>time.ParseDuration\<close> (in nanoseconds) and the printed form of a duration, and the
  validity of a request URI.
\<close>

record vulcan_checks =
  vc_route :: "string \<Rightarrow> bool"
  vc_predicate :: "string \<Rightarrow> bool"
  vc_ParseDuration :: "string \<Rightarrow> err + int"
  vc_DurationString :: "int \<Rightarrow> string"
  vc_request_uri :: "string \<Rightarrow> bool"

definition NewHTTPFrontend ::
  "vulcan_checks \<Rightarrow> string \<Rightarrow> string \<Rightarrow> string \<Rightarrow> http_frontend_settings \<Rightarrow> err + eng_frontend" where
  "NewHTTPFrontend vc ident backendId routeExpr settings =
     (if length ident = 0 \<or> length backendId = 0 then Inl (Err ''supply valid  route, id, and backendId'')
      else if \<not> vc_route vc routeExpr then Inl (Err (''route should be a valid route expression: '' @ routeExpr))
      else if fs_FailoverPredicate settings \<noteq> [] \<and> \<not> vc_predicate vc (fs_FailoverPredicate settings)
      then Inl (Err (''invalid failover predicate: '' @ fs_FailoverPredicate settings))
      else Inr \<lparr>ef_Id = ident, ef_Route = routeExpr, ef_Type = ''http'', ef_BackendId = backendId,
                ef_Settings = settings\<rparr>)"

definition FrontendSettingsEquals :: "http_frontend_settings \<Rightarrow> http_frontend_settings \<Rightarrow> bool" where
  "FrontendSettingsEquals l o' \<longleftrightarrow>
     MaxMemBodyBytes (fs_Limits l) = MaxMemBodyBytes (fs_Limits o') \<and>
     MaxBodyBytes (fs_Limits l) = MaxBodyBytes (fs_Limits o') \<and>
     fs_FailoverPredicate l = fs_FailoverPredicate o' \<and>
     fs_Hostname l = fs_Hostname o' \<and>
     fs_TrustForwardHeader l = fs_TrustForwardHeader o'"

definition BackendSettingsEquals :: "http_backend_settings \<Rightarrow> http_backend_settings \<Rightarrow> bool" where
  "BackendSettingsEquals s o' \<longleftrightarrow>
     bs_Read s = bs_Read o' \<and> bs_Dial s = bs_Dial o' \<and> bs_TLSHandshake s = bs_TLSHandshake o' \<and>
     bs_Period s = bs_Period o' \<and> bs_MaxIdleConnsPerHost s = bs_MaxIdleConnsPerHost o' \<and>
     (case (bs_TLS s, bs_TLS o') of
        (None, None) \<Rightarrow> True
      | (Some a, Some b) \<Rightarrow> TLSSettingsEquals a b
      | _ \<Rightarrow> False)"

text \<open>Durations in nanoseconds, zero where the setting is empty.\<close>

record transport_settings =
  ts_Read :: int
  ts_Dial :: int
  ts_TLSHandshake :: int
  ts_Period :: int
  ts_MaxIdleConnsPerHost :: int
  ts_TLS :: "tls_config option"

definition parseTimeout :: "vulcan_checks \<Rightarrow> string \<Rightarrow> string \<Rightarrow> err + int" where
  "parseTimeout vc what d =
     (if length d \<noteq> 0
      then (case vc_ParseDuration vc d of Inl er \<Rightarrow> Inl (Err (what @ '': '' @ errText er)) | Inr t \<Rightarrow> Inr t)
      else Inr 0)"

definition transportSettings :: "vulcan_checks \<Rightarrow> http_backend_settings \<Rightarrow> err + transport_settings" where
  "transportSettings vc s =
     (case parseTimeout vc ''invalid read timeout'' (bs_Read s) of
        Inl er \<Rightarrow> Inl er
      | Inr read \<Rightarrow>
     (case parseTimeout vc ''invalid dial timeout'' (bs_Dial s) of
        Inl er \<Rightarrow> Inl er
      | Inr dial \<Rightarrow>
     (case parseTimeout vc ''invalid tls handshake timeout'' (bs_TLSHandshake s) of
        Inl er \<Rightarrow> Inl er
      | Inr handshake \<Rightarrow>
     (case parseTimeout vc ''invalid tls handshake timeout'' (bs_Period s) of
        Inl er \<Rightarrow> Inl er
      | Inr period \<Rightarrow>
     (case (case bs_TLS s of None \<Rightarrow> Inr None | Some t \<Rightarrow> map_sum id Some (NewTLSConfig t)) of
        Inl er \<Rightarrow> Inl er
      | Inr tls \<Rightarrow>
          Inr \<lparr>ts_Read = read, ts_Dial = dial, ts_TLSHandshake = handshake, ts_Period = period,
               ts_MaxIdleConnsPerHost = bs_MaxIdleConnsPerHost s, ts_TLS = tls\<rparr>)))))"

definition NewHTTPBackend :: "vulcan_checks \<Rightarrow> string \<Rightarrow> http_backend_settings \<Rightarrow> err + eng_backend" where
  "NewHTTPBackend vc ident s =
     (case transportSettings vc s of
        Inl er \<Rightarrow> Inl er
      | Inr _ \<Rightarrow> Inr \<lparr>eb_Id = ident, eb_Type = ''http'', eb_Settings = s\<rparr>)"

definition NewEngineServer :: "vulcan_checks \<Rightarrow> string \<Rightarrow> string \<Rightarrow> err + eng_server" where
  "NewEngineServer vc ident u =
     (if vc_request_uri vc u then Inr \<lparr>es_Id = ident, es_URL = u\<rparr>
      else Inl (Err (''endpoint url '' @ squote u @ '' is not valid'')))"

text \<open>
  \<^verbatim>\<open>MiddlewareFromJSON\<close>: the outer document is decoded (\<open>unmarshal\<close>), the plugin for its type is
  looked up (\<open>getter\<close>) and decodes the inner document; the identifier that is passed wins.
\<close>

record 'd raw_middleware =
  rm_Id :: string
  rm_Type :: string
  rm_Priority :: int
  rm_Middleware :: 'd

definition MiddlewareFromJSON ::
  "('j \<Rightarrow> err + 'd raw_middleware) \<Rightarrow> (string \<Rightarrow> ('d \<Rightarrow> err + string) option) \<Rightarrow> 'j \<Rightarrow> string option \<Rightarrow>
     err + eng_middleware" where
  "MiddlewareFromJSON unmarshal getter doc ident =
     (case unmarshal doc of
        Inl er \<Rightarrow> Inl er
      | Inr ms \<Rightarrow>
     (case getter (rm_Type ms) of
        None \<Rightarrow> Inl (Err (''middleware of type '' @ rm_Type ms @ '' is not supported''))
      | Some fromJSON \<Rightarrow>
     (case fromJSON (rm_Middleware ms) of
        Inl er \<Rightarrow> Inl er
      | Inr m \<Rightarrow> Inr \<lparr>em_Id = (case ident of Some i \<Rightarrow> i | None \<Rightarrow> rm_Id ms),
                      em_Priority = rm_Priority ms, em_Type = rm_Type ms, em_Middleware = m\<rparr>)))"

section \<open>Keys of servers\<close>

record server_key =
  sk_BackendKey :: string
  sk_Id :: string

definition ServerKeyString :: "server_key \<Rightarrow> string" where
  "ServerKeyString k = sk_BackendKey k @ ''.'' @ sk_Id k"

definition ParseServerKey :: "string \<Rightarrow> err + server_key" where
  "ParseServerKey v =
     (case split_n2 v ''.'' of
        [bk, sid] \<Rightarrow> Inr \<lparr>sk_BackendKey = bk, sk_Id = sid\<rparr>
      | _ \<Rightarrow> Inl (Err (''invalid id: '' @ squote v)))"

definition MustParseServerKey :: "string \<Rightarrow> server_key go" where
  "MustParseServerKey v = (case ParseServerKey v of Inl _ \<Rightarrow> None | Inr k \<Rightarrow> Some k)"

section \<open>Properties\<close>

text \<open>
  C33: TLS settings that compare equal configure the same thing: both are valid and give one and
  the same configuration, session cache included. The comparison is symmetric, and reflexive
  exactly on the settings that are valid.
\<close>

theorem tls_settings_equals_sound:
  "(TLSSettingsEquals s t \<longrightarrow> (\<exists>cfg. NewTLSConfig s = Inr cfg \<and> NewTLSConfig t = Inr cfg)) \<and>
   TLSSettingsEquals s t = TLSSettingsEquals t s \<and> TLSSettingsEquals s s = (\<exists>cfg. NewTLSConfig s = Inr cfg)"
proof (intro conjI impI)
  show "TLSSettingsEquals s t = TLSSettingsEquals t s"
    by (auto simp: TLSSettingsEquals_def TLSSessionCacheEquals_def list_all2_eq [symmetric] split: sum.splits option.splits if_splits)
  show "TLSSettingsEquals s s = (\<exists>cfg. NewTLSConfig s = Inr cfg)"
    by (auto simp: TLSSettingsEquals_def TLSSessionCacheEquals_def list.rel_refl split: sum.splits option.splits)
next
  assume eq: "TLSSettingsEquals s t"
  then obtain a b where cfg: "NewTLSConfig s = Inr a" "NewTLSConfig t = Inr b"
    by (auto simp: TLSSettingsEquals_def split: sum.splits)
  from eq have "TLSSessionCacheEquals (tls_SessionCache s) (tls_SessionCache t)"
    by (auto simp: TLSSettingsEquals_def split: sum.splits)
  then have "NewTLSSessionCache (tls_SessionCache s) = NewTLSSessionCache (tls_SessionCache t)"
    by (auto simp: TLSSessionCacheEquals_def NewTLSSessionCache_def split: option.splits if_splits)
  moreover have "tls_SessionTicketsDisabled s = tls_SessionTicketsDisabled t"
    using eq cfg by (auto simp: TLSSettingsEquals_def NewTLSConfig_def split: sum.splits)
  ultimately have "tc_ClientSessionCache a = tc_ClientSessionCache b"
    using cfg by (auto simp: NewTLSConfig_def split: sum.splits if_splits)
  then have "a = b"
    using eq cfg by (auto simp: TLSSettingsEquals_def list_all2_eq [symmetric])
  then show "\<exists>cfg. NewTLSConfig s = Inr cfg \<and> NewTLSConfig t = Inr cfg" using cfg by blast
qed

definition sample_tls :: tls_settings where
  "sample_tls = \<lparr>tls_PreferServerCipherSuites = False, tls_InsecureSkipVerify = False, tls_MinVersion = ''VersionTLS10'',
     tls_MaxVersion = [], tls_SessionTicketsDisabled = False, tls_SessionCache = \<lparr>tsc_Type = [], tsc_Settings = None\<rparr>,
     tls_CipherSuites = []\<rparr>"

theorem tls_settings_equals_sound_witness:
  "\<exists>cfg. NewTLSConfig sample_tls = Inr cfg \<and> NewTLSConfig (sample_tls\<lparr>tls_MinVersion := []\<rparr>) = Inr cfg"
proof -
  have "TLSSettingsEquals sample_tls (sample_tls\<lparr>tls_MinVersion := []\<rparr>)" by code_simp
  then show ?thesis using tls_settings_equals_sound [of sample_tls "sample_tls\<lparr>tls_MinVersion := []\<rparr>"] by blast
qed

text \<open>
  A server key is read back from its printed form exactly when the identifier of its backend
  has no dot. The identifiers the program generates are joined by dots: their keys are cut after
  the namespace.
\<close>

lemma server_key_roundtrip:
  "ParseServerKey (ServerKeyString k) = Inr k \<longleftrightarrow> CHR ''.'' \<notin> set (sk_BackendKey k)"
proof
  assume "CHR ''.'' \<notin> set (sk_BackendKey k)"
  then show "ParseServerKey (ServerKeyString k) = Inr k" by (simp add: ParseServerKey_def ServerKeyString_def)
next
  assume parsed: "ParseServerKey (ServerKeyString k) = Inr k"
  show "CHR ''.'' \<notin> set (sk_BackendKey k)"
  proof
    assume "CHR ''.'' \<in> set (sk_BackendKey k)"
    then obtain a b where ab: "sk_BackendKey k = a @ CHR ''.'' # b" and "CHR ''.'' \<notin> set a"
      by (meson split_list_first)
    then have "ParseServerKey (ServerKeyString k) = Inr \<lparr>sk_BackendKey = a, sk_Id = b @ ''.'' @ sk_Id k\<rparr>"
      by (simp add: ParseServerKey_def ServerKeyString_def)
    with parsed have "sk_BackendKey k = a" by (metis Inr_inject server_key.select_convs(1))
    with ab show False by simp
  qed
qed

end
