(* ===== verification/Vulcan_Engine.thy ===== *)
theory Vulcan_Engine
  imports Vulcan_Model
begin

text \<open>
  The vulcand server: the operations of its API as a client sees them (\<open>vulcan_api\<close>, on the
  state of the server, each of which may fail), the guards of the API client \<^verbatim>\<open>api/client.go\<close>, and
  the in-memory engine \<^verbatim>\<open>engine/memng/mem.go\<close>, which is one such server.

  Each change of the in-memory engine is announced on a buffered channel of 1000 places; what
  does not fit is dropped. The log severity and the plugin registry it also keeps have no effect
  on its operations and are left out, as is \<^verbatim>\<open>Subscribe\<close>, which empties the channel.
\<close>

section \<open>The API of a vulcand server\<close>

record 's vulcan_api =
  va_GetStatus :: "'s \<Rightarrow> err option \<times> 's"
  va_GetFrontend :: "string \<Rightarrow> 's \<Rightarrow> (err + eng_frontend) \<times> 's"
  va_UpsertFrontend :: "eng_frontend \<Rightarrow> 's \<Rightarrow> err option \<times> 's"
  va_DeleteFrontend :: "string \<Rightarrow> 's \<Rightarrow> err option \<times> 's"
  va_GetBackend :: "string \<Rightarrow> 's \<Rightarrow> (err + eng_backend) \<times> 's"
  va_UpsertBackend :: "eng_backend \<Rightarrow> 's \<Rightarrow> err option \<times> 's"
  va_DeleteBackend :: "string \<Rightarrow> 's \<Rightarrow> err option \<times> 's"
  va_GetServers :: "string \<Rightarrow> 's \<Rightarrow> (err + eng_server list) \<times> 's"
  va_UpsertServer :: "string \<Rightarrow> eng_server \<Rightarrow> 's \<Rightarrow> err option \<times> 's"
  va_DeleteServer :: "string \<Rightarrow> string \<Rightarrow> 's \<Rightarrow> err option \<times> 's"
  va_UpsertMiddleware :: "string \<Rightarrow> eng_middleware \<Rightarrow> 's \<Rightarrow> err option \<times> 's"

text \<open>The client refuses empty identifiers before it contacts the server.\<close>

definition ClientUpsertBackend :: "'s vulcan_api \<Rightarrow> eng_backend \<Rightarrow> 's \<Rightarrow> err option \<times> 's" where
  "ClientUpsertBackend api b s =
     (if eb_Id b = [] then (Some (Err ''frontend id and middleware id can not be empty''), s)
      else va_UpsertBackend api b s)"

definition ClientUpsertServer :: "'s vulcan_api \<Rightarrow> string \<Rightarrow> eng_server \<Rightarrow> 's \<Rightarrow> err option \<times> 's" where
  "ClientUpsertServer api bk srv s =
     (if bk = [] \<or> es_Id srv = [] then (Some (Err ''backend id and server id can not be empty''), s)
      else va_UpsertServer api bk srv s)"

definition ClientGetServers :: "'s vulcan_api \<Rightarrow> string \<Rightarrow> 's \<Rightarrow> (err + eng_server list) \<times> 's" where
  "ClientGetServers api bk s =
     (if bk = [] then (Inl (Err ''backend id can not be empty''), s) else va_GetServers api bk s)"

definition ClientDeleteServer :: "'s vulcan_api \<Rightarrow> string \<Rightarrow> string \<Rightarrow> 's \<Rightarrow> err option \<times> 's" where
  "ClientDeleteServer api bk sid s =
     (if bk = [] then (Some (Err ''backend id can not be empty''), s) else va_DeleteServer api bk sid s)"

definition ClientUpsertMiddleware :: "'s vulcan_api \<Rightarrow> string \<Rightarrow> eng_middleware \<Rightarrow> 's \<Rightarrow> err option \<times> 's" where
  "ClientUpsertMiddleware api fk m s =
     (if fk = [] \<or> em_Id m = [] then (Some (Err ''frontend id and middleware id can not be empty''), s)
      else va_UpsertMiddleware api fk m s)"

section \<open>The in-memory engine\<close>

datatype change =
    HostUpserted host | HostDeleted string
  | ListenerUpserted listener | ListenerDeleted string
  | FrontendUpserted eng_frontend | FrontendDeleted string
  | MiddlewareUpserted string eng_middleware | MiddlewareDeleted string string
  | BackendUpserted eng_backend | BackendDeleted string
  | ServerUpserted string eng_server | ServerDeleted string string

record mem =
  m_Hosts :: "(string, host) gomap"
  m_Frontends :: "(string, eng_frontend) gomap"
  m_Backends :: "(string, eng_backend) gomap"
  m_Listeners :: "(string, listener) gomap"
  m_Middlewares :: "(string, eng_middleware list) gomap"
  m_Servers :: "(string, eng_server list) gomap"
  m_Changes :: "change list"

definition NewMem :: mem where
  "NewMem = \<lparr>m_Hosts = [], m_Frontends = [], m_Backends = [], m_Listeners = [], m_Middlewares = [], m_Servers = [],
     m_Changes = []\<rparr>"

definition emit :: "change \<Rightarrow> mem \<Rightarrow> mem" where
  "emit c m = (if length (m_Changes m) < 1000 then m\<lparr>m_Changes := m_Changes m @ [c]\<rparr> else m)"

text \<open>An entry of a list is replaced where its identifier occurs first, or appended; removed where it occurs first.\<close>

fun list_upsert :: "('a \<Rightarrow> string) \<Rightarrow> 'a \<Rightarrow> 'a list \<Rightarrow> 'a list" where
  "list_upsert idf x [] = [x]"
| "list_upsert idf x (y # ys) = (if idf y = idf x then x # ys else y # list_upsert idf x ys)"

fun list_remove :: "('a \<Rightarrow> string) \<Rightarrow> string \<Rightarrow> 'a list \<Rightarrow> 'a list option" where
  "list_remove idf k [] = None"
| "list_remove idf k (y # ys) =
     (if idf y = k then Some ys else map_option (Cons y) (list_remove idf k ys))"

definition MemGetHosts :: "(string list \<Rightarrow> string list) \<Rightarrow> mem \<Rightarrow> (err + host list) \<times> mem" where
  "MemGetHosts rng m = (Inr (map snd (gm_range rng (m_Hosts m))), m)"

definition MemGetHost :: "string \<Rightarrow> mem \<Rightarrow> (err + host) \<times> mem" where
  "MemGetHost k m = ((case gm_get (m_Hosts m) k of None \<Rightarrow> Inl (NotFound []) | Some h \<Rightarrow> Inr h), m)"

definition MemUpsertHost :: "host \<Rightarrow> mem \<Rightarrow> err option \<times> mem" where
  "MemUpsertHost h m = (None, emit (HostUpserted h) (m\<lparr>m_Hosts := gm_put (ho_Name h) h (m_Hosts m)\<rparr>))"

definition MemDeleteHost :: "string \<Rightarrow> mem \<Rightarrow> err option \<times> mem" where
  "MemDeleteHost k m =
     (if gm_get (m_Hosts m) k = None then (Some (NotFound []), m)
      else (None, emit (HostDeleted k) (m\<lparr>m_Hosts := gm_del k (m_Hosts m)\<rparr>)))"

definition MemGetListeners :: "(string list \<Rightarrow> string list) \<Rightarrow> mem \<Rightarrow> (err + listener list) \<times> mem" where
  "MemGetListeners rng m = (Inr (map snd (gm_range rng (m_Listeners m))), m)"

definition MemGetListener :: "string \<Rightarrow> mem \<Rightarrow> (err + listener) \<times> mem" where
  "MemGetListener k m = ((case gm_get (m_Listeners m) k of None \<Rightarrow> Inl (NotFound []) | Some l \<Rightarrow> Inr l), m)"

definition MemUpsertListener :: "listener \<Rightarrow> mem \<Rightarrow> err option \<times> mem" where
  "MemUpsertListener l m = (None, emit (ListenerUpserted l) (m\<lparr>m_Listeners := gm_put (li_Id l) l (m_Listeners m)\<rparr>))"

definition MemDeleteListener :: "string \<Rightarrow> mem \<Rightarrow> err option \<times> mem" where
  "MemDeleteListener k m =
     (if gm_get (m_Listeners m) k = None then (Some (NotFound []), m)
      else (None, emit (ListenerDeleted k) (m\<lparr>m_Listeners := gm_del k (m_Listeners m)\<rparr>)))"

definition MemGetFrontends :: "(string list \<Rightarrow> string list) \<Rightarrow> mem \<Rightarrow> (err + eng_frontend list) \<times> mem" where
  "MemGetFrontends rng m = (Inr (map snd (gm_range rng (m_Frontends m))), m)"

definition MemGetFrontend :: "string \<Rightarrow> mem \<Rightarrow> (err + eng_frontend) \<times> mem" where
  "MemGetFrontend k m = ((case gm_get (m_Frontends m) k of None \<Rightarrow> Inl (NotFound []) | Some f \<Rightarrow> Inr f), m)"

definition MemUpsertFrontend :: "eng_frontend \<Rightarrow> mem \<Rightarrow> err option \<times> mem" where
  "MemUpsertFrontend f m =
     (if gm_get (m_Backends m) (ef_BackendId f) = None
      then (Some (NotFound (''backend: '' @ ef_BackendId f @ '' not found'')), m)
      else (None, emit (FrontendUpserted f) (m\<lparr>m_Frontends := gm_put (ef_Id f) f (m_Frontends m)\<rparr>)))"

definition MemDeleteFrontend :: "string \<Rightarrow> mem \<Rightarrow> err option \<times> mem" where
  "MemDeleteFrontend k m =
     (if gm_get (m_Frontends m) k = None then (Some (NotFound []), m)
      else (let m = emit (FrontendDeleted k) m in (None, m\<lparr>m_Frontends := gm_del k (m_Frontends m)\<rparr>)))"

definition MemGetMiddlewares :: "string \<Rightarrow> mem \<Rightarrow> (err + eng_middleware list) \<times> mem" where
  "MemGetMiddlewares fk m = (Inr (case gm_get (m_Middlewares m) fk of None \<Rightarrow> [] | Some vals \<Rightarrow> vals), m)"

definition MemGetMiddleware :: "string \<Rightarrow> string \<Rightarrow> mem \<Rightarrow> (err + eng_middleware) \<times> mem" where
  "MemGetMiddleware fk mid m =
     ((case gm_get (m_Middlewares m) fk of
         None \<Rightarrow> Inl (NotFound (squote fk @ '' not found''))
       | Some vals \<Rightarrow>
           (case find (\<lambda>v. em_Id v = mid) vals of
              Some v \<Rightarrow> Inr v
            | None \<Rightarrow> Inl (NotFound (squote (fk @ ''.'' @ mid) @ '' not found'')))), m)"

definition MemUpsertMiddleware :: "string \<Rightarrow> eng_middleware \<Rightarrow> mem \<Rightarrow> err option \<times> mem" where
  "MemUpsertMiddleware fk md m =
     (if gm_get (m_Frontends m) fk = None then (Some (NotFound (squote fk @ '' not found'')), m)
      else (None, emit (MiddlewareUpserted fk md) (m\<lparr>m_Middlewares := gm_put fk
              (case gm_get (m_Middlewares m) fk of
                 None \<Rightarrow> [md] | Some vals \<Rightarrow> list_upsert em_Id md vals) (m_Middlewares m)\<rparr>)))"

definition MemDeleteMiddleware :: "string \<Rightarrow> string \<Rightarrow> mem \<Rightarrow> err option \<times> mem" where
  "MemDeleteMiddleware fk mid m =
     (case gm_get (m_Middlewares m) fk of
        None \<Rightarrow> (Some (NotFound []), m)
      | Some vals \<Rightarrow>
          (case list_remove em_Id mid vals of
             None \<Rightarrow> (Some (NotFound []), m)
           | Some vals' \<Rightarrow>
               (None, emit (MiddlewareDeleted fk mid) (m\<lparr>m_Middlewares := gm_put fk vals' (m_Middlewares m)\<rparr>))))"

definition MemGetBackends :: "(string list \<Rightarrow> string list) \<Rightarrow> mem \<Rightarrow> (err + eng_backend list) \<times> mem" where
  "MemGetBackends rng m = (Inr (map snd (gm_range rng (m_Backends m))), m)"

definition MemGetBackend :: "string \<Rightarrow> mem \<Rightarrow> (err + eng_backend) \<times> mem" where
  "MemGetBackend k m = ((case gm_get (m_Backends m) k of None \<Rightarrow> Inl (NotFound []) | Some b \<Rightarrow> Inr b), m)"

definition MemUpsertBackend :: "eng_backend \<Rightarrow> mem \<Rightarrow> err option \<times> mem" where
  "MemUpsertBackend b m =
     (let m = emit (BackendUpserted b) m in (None, m\<lparr>m_Backends := gm_put (eb_Id b) b (m_Backends m)\<rparr>))"

text \<open>The text of the first error names a frontend that uses the backend; the printed structure is left out.\<close>

definition MemDeleteBackend :: "string \<Rightarrow> mem \<Rightarrow> err option \<times> mem" where
  "MemDeleteBackend k m =
     (if \<exists>f \<in> set (map snd (m_Frontends m)). ef_BackendId f = k then (Some (Err ''Backend is in use by''), m)
      else if gm_get (m_Backends m) k = None then (Some (NotFound []), m)
      else (let m = emit (BackendDeleted k) m in (None, m\<lparr>m_Backends := gm_del k (m_Backends m)\<rparr>)))"

definition MemGetServers :: "string \<Rightarrow> mem \<Rightarrow> (err + eng_server list) \<times> mem" where
  "MemGetServers bk m = (Inr (case gm_get (m_Servers m) bk of None \<Rightarrow> [] | Some vals \<Rightarrow> vals), m)"

definition MemGetServer :: "string \<Rightarrow> string \<Rightarrow> mem \<Rightarrow> (err + eng_server) \<times> mem" where
  "MemGetServer bk sid m =
     ((case gm_get (m_Servers m) bk of
         None \<Rightarrow> Inl (NotFound [])
       | Some vals \<Rightarrow> (case find (\<lambda>v. es_Id v = sid) vals of Some v \<Rightarrow> Inr v | None \<Rightarrow> Inl (NotFound []))), m)"

definition MemUpsertServer :: "string \<Rightarrow> eng_server \<Rightarrow> mem \<Rightarrow> err option \<times> mem" where
  "MemUpsertServer bk srv m =
     (None, emit (ServerUpserted bk srv) (m\<lparr>m_Servers := gm_put bk
        (case gm_get (m_Servers m) bk of None \<Rightarrow> [srv] | Some vals \<Rightarrow> list_upsert es_Id srv vals) (m_Servers m)\<rparr>))"

definition MemDeleteServer :: "string \<Rightarrow> string \<Rightarrow> mem \<Rightarrow> err option \<times> mem" where
  "MemDeleteServer bk sid m =
     (case gm_get (m_Servers m) bk of
        None \<Rightarrow> (Some (NotFound []), m)
      | Some vals \<Rightarrow>
          (case list_remove es_Id sid vals of
             None \<Rightarrow> (Some (NotFound []), m)
           | Some vals' \<Rightarrow> (None, emit (ServerDeleted bk sid) (m\<lparr>m_Servers := gm_put bk vals' (m_Servers m)\<rparr>))))"

definition mem_api :: "mem vulcan_api" where
  "mem_api = \<lparr>va_GetStatus = (\<lambda>m. (None, m)),
     va_GetFrontend = MemGetFrontend, va_UpsertFrontend = MemUpsertFrontend, va_DeleteFrontend = MemDeleteFrontend,
     va_GetBackend = MemGetBackend, va_UpsertBackend = MemUpsertBackend, va_DeleteBackend = MemDeleteBackend,
     va_GetServers = MemGetServers, va_UpsertServer = MemUpsertServer, va_DeleteServer = MemDeleteServer,
     va_UpsertMiddleware = MemUpsertMiddleware\<rparr>"

lemma emit_sel [simp]:
  "m_Hosts (emit c m) = m_Hosts m" "m_Frontends (emit c m) = m_Frontends m" "m_Backends (emit c m) = m_Backends m"
  "m_Listeners (emit c m) = m_Listeners m" "m_Middlewares (emit c m) = m_Middlewares m" "m_Servers (emit c m) = m_Servers m"
  by (simp_all add: emit_def)

lemma emit_change: "\<exists>c. emit x m = m\<lparr>m_Changes := c\<rparr>"
  by (auto simp: emit_def intro: exI [of _ "m_Changes m"])

section \<open>The lists of servers\<close>

text \<open>What a list of objects holds, by identifier; the operations of the engine on such lists.\<close>

definition byId :: "('a \<Rightarrow> string) \<Rightarrow> 'a list \<Rightarrow> string \<rightharpoonup> 'a" where
  "byId idf xs = map_of (map (\<lambda>x. (idf x, x)) xs)"

lemma byId_simps [simp]:
  "byId idf [] = Map.empty"
  "byId idf (x # xs) = (byId idf xs)(idf x \<mapsto> x)"
  by (simp_all add: byId_def)

lemma byId_None: "byId idf xs k = None \<longleftrightarrow> k \<notin> idf ` set xs"
  by (induction xs) auto

lemma set_list_upsert: "idf ` set (list_upsert idf x ys) = insert (idf x) (idf ` set ys)"
  by (induction ys) auto

lemma distinct_list_upsert [simp, intro]:
  "distinct (map idf ys) \<Longrightarrow> distinct (map idf (list_upsert idf x ys))"
proof (induction ys)
  case (Cons y ys)
  then show ?case using set_list_upsert [of idf x ys] by auto
qed simp

lemma byId_list_upsert [simp]: "byId idf (list_upsert idf x ys) = (byId idf ys)(idf x \<mapsto> x)"
  by (induction ys) auto

lemma list_remove_None: "list_remove idf k ys = None \<longleftrightarrow> k \<notin> idf ` set ys"
  by (induction ys) auto

lemma dom_byId: "dom (byId idf xs) = idf ` set xs"
  by (induction xs) (simp_all add: dom_fun_upd del: fun_upd_apply)

lemma list_remove_Some:
  assumes "list_remove idf k ys = Some zs" and "distinct (map idf ys)"
  shows "distinct (map idf zs)" and "byId idf zs = (byId idf ys)(k := None)" and "idf ` set zs = idf ` set ys - {k}"
proof -
  have "set zs \<subseteq> set ys \<and> distinct (map idf zs) \<and> byId idf zs = (byId idf ys)(k := None)"
    using assms
  proof (induction ys arbitrary: zs)
    case (Cons y ys)
    then show ?case by (auto 0 4 simp: byId_None fun_upd_twist split: if_splits)
  qed simp
  then show "distinct (map idf zs)" and view: "byId idf zs = (byId idf ys)(k := None)" by auto
  show "idf ` set zs = idf ` set ys - {k}"
    using arg_cong [OF view, of dom] by (simp add: dom_byId)
qed

section \<open>The contract of a vulcand server\<close>

text \<open>
  What a client relies on: the servers of a backend as the server knows them (\<open>srvs\<close>), for
  states that satisfy \<open>inv\<close>. A change that succeeds has its effect and no other; one that fails
  has none on the servers.
\<close>

locale vulcand_servers =
  fixes api :: "'s vulcan_api"
    and inv :: "'s \<Rightarrow> bool"
    and srvs :: "'s \<Rightarrow> string \<Rightarrow> eng_server list"
  assumes distinct_srvs: "inv s \<Longrightarrow> distinct (map es_Id (srvs s bk))"
    and upsert_backend: "inv s \<Longrightarrow> va_UpsertBackend api b s = (res, s') \<Longrightarrow> inv s' \<and> srvs s' = srvs s"
    and get_servers: "inv s \<Longrightarrow> va_GetServers api bk s = (r, s') \<Longrightarrow> s' = s \<and> (\<forall>ss. r = Inr ss \<longrightarrow> ss = srvs s bk)"
    and upsert_server: "inv s \<Longrightarrow> va_UpsertServer api bk srv s = (None, s') \<Longrightarrow>
      inv s' \<and> srvs s' = (srvs s)(bk := list_upsert es_Id srv (srvs s bk))"
    and upsert_server_error: "inv s \<Longrightarrow> va_UpsertServer api bk srv s = (Some e, s') \<Longrightarrow> inv s' \<and> srvs s' = srvs s"
    and delete_server: "inv s \<Longrightarrow> va_DeleteServer api bk sid s = (None, s') \<Longrightarrow>
      inv s' \<and> (\<exists>rest. list_remove es_Id sid (srvs s bk) = Some rest \<and> srvs s' = (srvs s)(bk := rest))"
    and delete_server_error: "inv s \<Longrightarrow> va_DeleteServer api bk sid s = (Some e, s') \<Longrightarrow> inv s' \<and> srvs s' = srvs s"
begin

lemma view_upsert:
  assumes "inv s" and "va_UpsertServer api bk srv s = (None, s')"
  shows "byId es_Id (srvs s' bk) = (byId es_Id (srvs s bk))(es_Id srv \<mapsto> srv)"
  using upsert_server [OF assms] by simp

lemma view_delete:
  assumes "inv s" and "va_DeleteServer api bk sid s = (None, s')"
  shows "byId es_Id (srvs s' bk) = (byId es_Id (srvs s bk))(sid := None)"
  using delete_server [OF assms] list_remove_Some(2) distinct_srvs [OF assms(1)] by fastforce

lemma upsert_server_frame:
  assumes "inv s" and "va_UpsertServer api bk srv s = (e, s')"
  shows "inv s'" and "bk' \<noteq> bk \<Longrightarrow> srvs s' bk' = srvs s bk'"
proof -
  have "inv s' \<and> (bk' \<noteq> bk \<longrightarrow> srvs s' bk' = srvs s bk')"
  proof (cases e)
    case None
    then show ?thesis using upsert_server [OF assms(1)] assms(2) by fastforce
  next
    case (Some er)
    then show ?thesis using upsert_server_error [OF assms(1)] assms(2) by fastforce
  qed
  then show "inv s'" and "bk' \<noteq> bk \<Longrightarrow> srvs s' bk' = srvs s bk'" by blast+
qed

lemma delete_server_frame:
  assumes "inv s" and "va_DeleteServer api bk sid s = (e, s')"
  shows "inv s'" and "bk' \<noteq> bk \<Longrightarrow> srvs s' bk' = srvs s bk'"
proof -
  have "inv s' \<and> (bk' \<noteq> bk \<longrightarrow> srvs s' bk' = srvs s bk')"
  proof (cases e)
    case None
    then show ?thesis using delete_server [OF assms(1)] assms(2) by fastforce
  next
    case (Some er)
    then show ?thesis using delete_server_error [OF assms(1)] assms(2) by fastforce
  qed
  then show "inv s'" and "bk' \<noteq> bk \<Longrightarrow> srvs s' bk' = srvs s bk'" by blast+
qed

end

text \<open>A server that answers each question and refuses no removal of what it has.\<close>

locale vulcand_reliable = vulcand_servers +
  assumes get_servers_answers: "inv s \<Longrightarrow> fst (va_GetServers api bk s) = Inr (srvs s bk)"
    and delete_server_succeeds: "inv s \<Longrightarrow> sid \<in> es_Id ` set (srvs s bk) \<Longrightarrow> fst (va_DeleteServer api bk sid s) = None"
begin

lemma view_delete_present:
  assumes "inv s" and "sid \<in> es_Id ` set (srvs s bk)"
  shows "inv (snd (va_DeleteServer api bk sid s))"
    and "byId es_Id (srvs (snd (va_DeleteServer api bk sid s)) bk) = (byId es_Id (srvs s bk))(sid := None)"
    and "bk' \<noteq> bk \<Longrightarrow> srvs (snd (va_DeleteServer api bk sid s)) bk' = srvs s bk'"
proof -
  have ok: "va_DeleteServer api bk sid s = (None, snd (va_DeleteServer api bk sid s))"
    using delete_server_succeeds [OF assms] by (simp add: prod_eq_iff)
  show "inv (snd (va_DeleteServer api bk sid s))" and "bk' \<noteq> bk \<Longrightarrow> srvs (snd (va_DeleteServer api bk sid s)) bk' = srvs s bk'"
    using delete_server_frame [OF assms(1) ok] by blast+
  show "byId es_Id (srvs (snd (va_DeleteServer api bk sid s)) bk) = (byId es_Id (srvs s bk))(sid := None)"
    using view_delete [OF assms(1) ok] .
qed

end

section \<open>The in-memory engine keeps it\<close>

definition mem_wf :: "mem \<Rightarrow> bool" where
  "mem_wf m \<longleftrightarrow> gm_wf (m_Frontends m) \<and> gm_wf (m_Backends m) \<and> gm_wf (m_Middlewares m) \<and> gm_wf (m_Servers m) \<and>
     (\<forall>bk vals. gm_get (m_Servers m) bk = Some vals \<longrightarrow> distinct (map es_Id vals))"

lemma mem_wf_emit [simp]: "mem_wf (emit c m) = mem_wf m"
  by (simp add: mem_wf_def)

definition mem_srvs :: "mem \<Rightarrow> string \<Rightarrow> eng_server list" where
  "mem_srvs m bk = (case gm_get (m_Servers m) bk of None \<Rightarrow> [] | Some vals \<Rightarrow> vals)"

lemma mem_wf_NewMem [simp]: "mem_wf NewMem"
  by (simp add: mem_wf_def NewMem_def)

lemma mem_wf_upsert_server [simp, intro]: "mem_wf m \<Longrightarrow> mem_wf (snd (MemUpsertServer bk srv m))"
  by (auto simp: mem_wf_def MemUpsertServer_def split: option.split)

lemma mem_wf_delete_server [simp, intro]: "mem_wf m \<Longrightarrow> mem_wf (snd (MemDeleteServer bk sid m))"
  by (auto simp: mem_wf_def MemDeleteServer_def dest: list_remove_Some(1) split: option.split)

lemma mem_srvs_upsert [simp]:
  "mem_wf m \<Longrightarrow> mem_srvs (snd (MemUpsertServer bk srv m)) = (mem_srvs m)(bk := list_upsert es_Id srv (mem_srvs m bk))"
  by (auto simp: mem_wf_def mem_srvs_def MemUpsertServer_def fun_eq_iff split: option.split)

lemma mem_delete_server:
  assumes "mem_wf m"
  shows "MemDeleteServer bk sid m =
     (case list_remove es_Id sid (mem_srvs m bk) of
        None \<Rightarrow> (Some (NotFound []), m)
      | Some rest \<Rightarrow> (None, emit (ServerDeleted bk sid) (m\<lparr>m_Servers := gm_put bk rest (m_Servers m)\<rparr>)))"
  by (auto simp: MemDeleteServer_def mem_srvs_def split: option.split)

interpretation vm: vulcand_reliable mem_api mem_wf mem_srvs
proof unfold_locales
  fix m :: mem and bk
  assume "mem_wf m"
  then show "distinct (map es_Id (mem_srvs m bk))"
    by (auto simp: mem_wf_def mem_srvs_def split: option.split)
next
  fix m m' :: mem and b e
  assume "mem_wf m" and "va_UpsertBackend mem_api b m = (e, m')"
  then show "mem_wf m' \<and> mem_srvs m' = mem_srvs m"
    by (auto simp: mem_api_def MemUpsertBackend_def mem_wf_def mem_srvs_def fun_eq_iff)
next
  fix m m' :: mem and bk r
  assume "va_GetServers mem_api bk m = (r, m')"
  then show "m' = m \<and> (\<forall>ss. r = Inr ss \<longrightarrow> ss = mem_srvs m bk)"
    by (auto simp: mem_api_def MemGetServers_def mem_srvs_def)
next
  fix m m' :: mem and bk srv
  assume "mem_wf m" and "va_UpsertServer mem_api bk srv m = (None, m')"
  moreover from this have "m' = snd (MemUpsertServer bk srv m)"
    by (simp add: mem_api_def prod_eq_iff)
  ultimately show "mem_wf m' \<and> mem_srvs m' = (mem_srvs m)(bk := list_upsert es_Id srv (mem_srvs m bk))"
    by simp
next
  fix m m' :: mem and bk srv e
  assume "va_UpsertServer mem_api bk srv m = (Some e, m')"
  then show "mem_wf m' \<and> mem_srvs m' = mem_srvs m"
    by (simp add: mem_api_def MemUpsertServer_def)
next
  fix m m' :: mem and bk sid
  assume wf: "mem_wf m" and del: "va_DeleteServer mem_api bk sid m = (None, m')"
  then obtain rest where rest: "list_remove es_Id sid (mem_srvs m bk) = Some rest"
      and m': "m' = emit (ServerDeleted bk sid) (m\<lparr>m_Servers := gm_put bk rest (m_Servers m)\<rparr>)"
    by (auto simp: mem_api_def mem_delete_server split: option.splits)
  have "mem_wf m'"
    using mem_wf_delete_server [OF wf, of bk sid] del by (simp add: mem_api_def)
  then show "mem_wf m' \<and> (\<exists>rest. list_remove es_Id sid (mem_srvs m bk) = Some rest \<and> mem_srvs m' = (mem_srvs m)(bk := rest))"
    using rest wf by (auto simp: m' mem_srvs_def mem_wf_def fun_eq_iff)
next
  fix m m' :: mem and bk sid e
  assume "mem_wf m" and "va_DeleteServer mem_api bk sid m = (Some e, m')"
  then show "mem_wf m' \<and> mem_srvs m' = mem_srvs m"
    by (auto simp: mem_api_def mem_delete_server split: option.splits)
next
  fix m :: mem and bk
  show "fst (va_GetServers mem_api bk m) = Inr (mem_srvs m bk)"
    by (simp add: mem_api_def MemGetServers_def mem_srvs_def)
next
  fix m :: mem and bk sid
  assume "mem_wf m" and "sid \<in> es_Id ` set (mem_srvs m bk)"
  then show "fst (va_DeleteServer mem_api bk sid m) = None"
    using list_remove_None [of es_Id sid "mem_srvs m bk"]
    by (auto simp: mem_api_def mem_delete_server split: option.split)
qed

end
