(* ===== verification/Vulcand.thy ===== *)
theory Vulcand
  imports Engine Vulcan_Engine
begin

text \<open>
  The vulcand provider, \<^verbatim>\<open>loadbalancer/vulcand\<close>: how a resource becomes a frontend, a backend,
  servers and middlewares, and how they are registered through the API of a vulcand server.

  Parameters are the parsers of the standard library and of Kubernetes it calls on annotation
  values: quantities, JSON documents decoded over given settings (whatever a failed decode
  left behind is in the result), the outer document of a middleware, and JSON arrays of strings;
  and the plugin registry, which finds the decoder for the type of a middleware.

  The provider does not call the engine; the theory of the engine comes first so that the
  interpretation of the contract below makes the engine's lemmas available for this provider.
\<close>

record vulcan_env =
  ve_go :: go_env
  ve_checks :: vulcan_checks
  ve_quantity :: "string \<Rightarrow> int option"
  ve_json_frontend :: "string \<Rightarrow> http_frontend_settings \<Rightarrow> http_frontend_settings"
  ve_json_backend :: "string \<Rightarrow> http_backend_settings \<Rightarrow> http_backend_settings"
  ve_json_raw :: "string \<Rightarrow> err + string raw_middleware"
  ve_spec :: "string \<Rightarrow> (string \<Rightarrow> err + string) option"
  ve_json_strings :: "string list \<Rightarrow> err + string"

section \<open>Routes\<close>

record v_route_part =
  vp_part :: string
  vp_val :: string
  vp_header :: string

record v_route =
  vr_host :: "v_route_part option"
  vr_path :: "v_route_part option"
  vr_headers :: "v_route_part list"
  vr_methods :: "v_route_part list"

definition vulcanPart :: "string \<Rightarrow> string \<Rightarrow> route_part \<Rightarrow> v_route_part" where
  "vulcanPart plain regex p =
     \<lparr>vp_part = (if rp_regex p then regex else plain), vp_val = rp_value p, vp_header = []\<rparr>"

text \<open>One round of the loop of \<^verbatim>\<open>NewRoute\<close>; the flag says that a prefix was seen.\<close>

definition vulcanRoutePart :: "route_part \<Rightarrow> v_route \<times> bool \<Rightarrow> v_route \<times> bool" where
  "vulcanRoutePart p st =
     (case st of (r, prefix) \<Rightarrow>
        if rp_kind p = HostPart then (r\<lparr>vr_host := Some (vulcanPart ''Host'' ''HostRegexp'' p)\<rparr>, prefix)
        else if rp_kind p = MethodPart then
          (r\<lparr>vr_methods := vr_methods r @ [vulcanPart ''Method'' ''MethodRegexp'' p]\<rparr>, prefix)
        else if rp_kind p = HeaderPart then
          (r\<lparr>vr_headers := vr_headers r @ [(vulcanPart ''Header'' ''HeaderRegexp'' p)\<lparr>vp_header := rp_header p\<rparr>]\<rparr>, prefix)
        else if rp_kind p = PathPart then
          (if prefix then r else r\<lparr>vr_path := Some (vulcanPart ''Path'' ''PathRegexp'' p)\<rparr>, prefix)
        else if rp_kind p = PrefixPart then
          (r\<lparr>vr_path := Some \<lparr>vp_part = ''PathRegexp'', vp_val = rp_value p @ ''.*'', vp_header = []\<rparr>\<rparr>, True)
        else (r, prefix))"

definition emptyRoute :: v_route where
  "emptyRoute = \<lparr>vr_host = None, vr_path = None, vr_headers = [], vr_methods = []\<rparr>"

definition VulcanNewRoute :: "kroute \<Rightarrow> v_route" where
  "VulcanNewRoute rt =
     (if RouteEmpty rt
      then emptyRoute\<lparr>vr_path := Some \<lparr>vp_part = ''PathRegexp'', vp_val = ''.*'', vp_header = []\<rparr>\<rparr>
      else fst (fold vulcanRoutePart (RouteParts rt) (emptyRoute, False)))"

definition VulcanPartString :: "v_route_part \<Rightarrow> string" where
  "VulcanPartString p =
     (let val = (if vp_header p \<noteq> [] then ''`'' @ vp_header p @ ''`, `'' @ vp_val p @ ''`'' else ''`'' @ vp_val p @ ''`'')
      in vp_part p @ ''('' @ val @ '')'')"

definition VulcanRouteString :: "v_route \<Rightarrow> string" where
  "VulcanRouteString r =
     join '' && ''
       ((case vr_host r of Some h \<Rightarrow> [VulcanPartString h] | None \<Rightarrow> []) @
        (case vr_path r of Some p \<Rightarrow> [VulcanPartString p] | None \<Rightarrow> []) @
        map VulcanPartString (vr_methods r) @ map VulcanPartString (vr_headers r))"

text \<open>
  \<^verbatim>\<open>NewRouteFromString\<close>: \<open>matcher\<close> gives all submatches of an expression in a string, the whole
  match first. The part it reads is not put into the route.
\<close>

definition NewRouteFromString :: "(string \<Rightarrow> string list list) \<Rightarrow> string \<Rightarrow> v_route" where
  "NewRouteFromString matcher expr =
     fold (\<lambda>bit r.
        (case matcher bit of
           [] \<Rightarrow> r
         | m # _ \<Rightarrow>
             if length m = 2 then
               (let value = split_n2 (trim CHR ''`'' (m ! 1)) ''`, `'';
                    part = (if length value = 2
                            then \<lparr>vp_part = m ! 0, vp_val = value ! 1, vp_header = value ! 0\<rparr>
                            else \<lparr>vp_part = m ! 0, vp_val = value ! 0, vp_header = []\<rparr>)
                in r)
             else r))
       (fields_func (\<lambda>c. is_space c \<or> c = CHR ''&'') expr) emptyRoute"

section \<open>Frontends and backends\<close>

record v_frontend =
  vf_Frontend :: eng_frontend
  vf_middlewares :: "eng_middleware list"

record v_backend =
  vb_Backend :: eng_backend
  vb_servers :: "eng_server list"

definition newFrontend :: "eng_frontend \<Rightarrow> v_frontend" where
  "newFrontend f = \<lparr>vf_Frontend = f, vf_middlewares = []\<rparr>"

definition newBackend :: "eng_backend \<Rightarrow> v_backend" where
  "newBackend b = \<lparr>vb_Backend = b, vb_servers = []\<rparr>"

definition FrontendGetID :: "v_frontend \<Rightarrow> string" where
  "FrontendGetID f = ef_Id (vf_Frontend f)"

definition BackendGetID :: "v_backend \<Rightarrow> string" where
  "BackendGetID b = eb_Id (vb_Backend b)"

text \<open>\<^verbatim>\<open>strconv.ParseBool\<close> with its error ignored gives \<^verbatim>\<open>false\<close> for what it cannot read.\<close>

definition boolOrFalse :: "string \<Rightarrow> bool" where
  "boolOrFalse val = (case parse_bool val of Some b \<Rightarrow> b | None \<Rightarrow> False)"

definition frontendLimits :: "vulcan_env \<Rightarrow> resource \<Rightarrow> http_frontend_limits" where
  "frontendLimits env rsc =
     (let limits = \<lparr>MaxMemBodyBytes = 1048576, MaxBodyBytes = 1048576,
                    MaxRespMemBodyBytes = 1048576, MaxRespBodyBytes = 1048576\<rparr>;
          limits = (case Option.bind (GetAnnotation rsc MaxReqSizeKey) (ve_quantity env) of
                      Some q \<Rightarrow> limits\<lparr>MaxBodyBytes := q, MaxMemBodyBytes := q\<rparr>
                    | None \<Rightarrow> limits)
      in (case Option.bind (GetAnnotation rsc MaxRespSizeKey) (ve_quantity env) of
            Some q \<Rightarrow> limits\<lparr>MaxRespBodyBytes := q, MaxRespMemBodyBytes := q\<rparr>
          | None \<Rightarrow> limits))"

definition VulcanNewFrontend :: "vulcan_env \<Rightarrow> resource \<Rightarrow> err + v_frontend" where
  "VulcanNewFrontend env rsc =
     (let rt = VulcanNewRoute (r_route rsc);
          s = \<lparr>fs_Limits = frontendLimits env rsc,
               fs_FailoverPredicate =
                 (case GetAnnotation rsc FailoverExpressionKey of Some val \<Rightarrow> val | None \<Rightarrow> []),
               fs_Hostname = (case vr_host rt of Some h \<Rightarrow> vp_val h | None \<Rightarrow> []),
               fs_TrustForwardHeader =
                 (case GetAnnotation rsc TrustForwardHeadersKey of
                    Some val \<Rightarrow> boolOrFalse val | None \<Rightarrow> DefaultTrustForwardHeaders),
               fs_PassHostHeader =
                 (case GetAnnotation rsc PassHostHeaderKey of
                    Some val \<Rightarrow> boolOrFalse val | None \<Rightarrow> DefaultPassHostHeader)\<rparr>;
          s = (case GetAnnotation rsc FrontendSettingsKey of
                 Some val \<Rightarrow> ve_json_frontend env val s | None \<Rightarrow> s)
      in map_sum (\<lambda>e. e) newFrontend
           (NewHTTPFrontend (ve_checks env) (r_id rsc) (r_id rsc) (VulcanRouteString rt) s))"

definition VulcanNewBackend :: "vulcan_env \<Rightarrow> resource \<Rightarrow> err + v_backend" where
  "VulcanNewBackend env rsc =
     (let duration = (\<lambda>key. case GetAnnotation rsc key of
                              None \<Rightarrow> []
                            | Some val \<Rightarrow>
                                (case vc_ParseDuration (ve_checks env) val of
                                   Inl er \<Rightarrow> [] | Inr t \<Rightarrow> vc_DurationString (ve_checks env) t));
          s = \<lparr>bs_Read = duration ''read_timeout'', bs_Dial = duration ''dial_timeout'',
               bs_TLSHandshake = [], bs_Period = [],
               bs_MaxIdleConnsPerHost =
                 (case Option.bind (GetAnnotation rsc ''max_idle_conns_per_host'') (\<lambda>v.
                         case atoi v of (i, ok) \<Rightarrow> if ok then Some i else None) of
                    Some i \<Rightarrow> i | None \<Rightarrow> 0),
               bs_TLS = None\<rparr>;
          s = (case GetAnnotation rsc BackendSettingsKey of
                 Some val \<Rightarrow> ve_json_backend env val s | None \<Rightarrow> s)
      in case NewHTTPBackend (ve_checks env) (r_id rsc) s of
           Inl er \<Rightarrow> Inl er
         | Inr b \<Rightarrow> Inr (newBackend (if r_websocket rsc then b\<lparr>eb_Type := ''ws''\<rparr> else b)))"

section \<open>Servers and middlewares\<close>

text \<open>
  \<^verbatim>\<open>NewServers\<close> prints the URL of each server; where the URL does not parse, \<^verbatim>\<open>URL()\<close> returned a
  nil pointer and printing it panics. An error of the engine's constructor ends the loop.
\<close>

fun vulcanServersLoop :: "vulcan_env \<Rightarrow> kserver list \<Rightarrow> eng_server list \<Rightarrow> (eng_server list \<times> err option) go" where
  "vulcanServersLoop env [] list = Some (list, None)"
| "vulcanServersLoop env (server # servers) list =
     (case ServerURL (ve_go env) server of
        None \<Rightarrow> None
      | Some u \<Rightarrow>
          (case NewEngineServer (ve_checks env) (sv_id server) u of
             Inl er \<Rightarrow> Some (list, Some er)
           | Inr s \<Rightarrow> vulcanServersLoop env servers (list @ [s])))"

definition VulcanNewServers :: "vulcan_env \<Rightarrow> resource \<Rightarrow> (eng_server list \<times> err option) go" where
  "VulcanNewServers env rsc = vulcanServersLoop env (r_servers rsc) []"

text \<open>\<^verbatim>\<open>fmt.Sprintf\<close> for the two verbs the templates use.\<close>

fun sprintf :: "string \<Rightarrow> string list \<Rightarrow> string" where
  "sprintf [] args = []"
| "sprintf [c] args = [c]"
| "sprintf (c # d # cs) args =
     (if c = CHR ''%'' \<and> d = CHR ''s'' then
        (case args of a # as \<Rightarrow> a @ sprintf cs as | [] \<Rightarrow> ''%!s(MISSING)'' @ sprintf cs [])
      else if c = CHR ''%'' \<and> d = CHR ''q'' then
        (case args of a # as \<Rightarrow> quote a @ sprintf cs as | [] \<Rightarrow> ''%!q(MISSING)'' @ sprintf cs [])
      else c # sprintf (d # cs) args)"

definition RedirectSSL :: string where
  "RedirectSSL = ''{
      \"Priority\": 1,
      \"Type\": \"rewrite\",
      \"Middleware\": {
        \"Regexp\": \"^http://(.*)\",
        \"Replacement\": \"https://$1\",
        \"Rewritebody\": false,
        \"Redirect\": true
      }
    }''"

definition Trace :: string where
  "Trace = ''{
      \"Priority\": 1,
      \"Type\": \"trace\",
      \"Middleware\": {
        \"ReqHeaders\": %s,
        \"RespHeaders\": %s,
        \"Addr\": \"syslog://127.0.0.1:514\",
        \"Prefix\": \"@app\"
      }
    }''"

definition Auth :: string where
  "Auth = ''{
      \"Priority\": 1,
      \"Type\": \"auth\",
      \"Middleware\": {
        \"User\": \"%s\",
        \"Pass\": \"%s\"
      }
    }''"

definition Maintenance :: string where
  "Maintenance = ''{
      \"Priority\": 1,
      \"Type\": \"cbreaker\",
      \"Middleware\": {
        \"Condition\": \"ResponseCodeRatio(500, 600, 0, 600) > 0.9\",
        \"Fallback\": {
          \"Type\": \"response\",
          \"Action\": {
            \"StatusCode\": 503,
            \"Body\": %q
          }
        },
        \"FallbackDuration\": 1000000000,
        \"RecoveryDuration\": 1000000000,
        \"CheckPeriod\": 100000000
      }
    }''"

definition DefaultMiddleware :: "(string, string) gomap" where
  "DefaultMiddleware =
     [(''auth'', Auth), (''maintenance'', Maintenance), (''redirect_to_ssl'', RedirectSSL), (''trace'', Trace)]"

text \<open>The document for one entry of that map and the annotation's value; none when the entry is skipped.\<close>

definition isRegexSpace :: "char \<Rightarrow> bool" where
  "isRegexSpace c \<longleftrightarrow> c = CHR 0x09 \<or> c = CHR 0x0A \<or> c = CHR 0x0C \<or> c = CHR 0x0D \<or> c = CHR '' ''"

definition defaultDocument :: "vulcan_env \<Rightarrow> string \<Rightarrow> string \<Rightarrow> string \<Rightarrow> string option" where
  "defaultDocument env key def val =
     (if key = ''redirect_to_ssl'' then (if parse_bool val = Some True then Some def else None)
      else if key = ''trace'' then
        (let bits = split_on CHR '','' (filter (\<lambda>c. \<not> isRegexSpace c) val);
             list = (case ve_json_strings env bits of
                       Inl er \<Rightarrow> ''[]'' | Inr l \<Rightarrow> if l = [] then ''[]'' else l)
         in Some (sprintf def [list, list]))
      else if key = ''auth'' then
        (case split_n2 val '':'' of
           [u] \<Rightarrow> Some (sprintf def [u, []])
         | [u, p] \<Rightarrow> Some (sprintf def [u, p])
         | _ \<Rightarrow> Some (sprintf def [''admin'', ''admin'']))
      else if key = ''maintenance'' then Some (sprintf def [val])
      else Some def)"

definition defaultMiddlewares :: "vulcan_env \<Rightarrow> resource \<Rightarrow> eng_middleware list" where
  "defaultMiddlewares env rsc =
     List.map_filter (\<lambda>(key, def).
        do {
          val \<leftarrow> GetAnnotation rsc key;
          doc \<leftarrow> (if length val > 0 then defaultDocument env key def val else None);
          (case MiddlewareFromJSON (ve_json_raw env) (ve_spec env) doc (Some key) of Inl er \<Rightarrow> None | Inr m \<Rightarrow> Some m)
        }) (gm_range (env_range (ve_go env)) DefaultMiddleware)"

text \<open>The expression for the keys of custom middlewares, with its only group.\<close>

definition customMiddlewareId :: "string \<Rightarrow> string option" where
  "customMiddlewareId key =
     (if has_prefix key ''middleware.''
      then (let i = takeWhile (\<lambda>c. c \<noteq> CHR ''.'') (drop 11 key) in if i = [] then None else Some i)
      else None)"

definition customMiddlewares :: "vulcan_env \<Rightarrow> resource \<Rightarrow> eng_middleware list" where
  "customMiddlewares env rsc =
     List.map_filter (\<lambda>(key, val).
        do {
          i \<leftarrow> customMiddlewareId key;
          (case MiddlewareFromJSON (ve_json_raw env) (ve_spec env) val (Some i) of Inl er \<Rightarrow> None | Inr m \<Rightarrow> Some m)
        })
       (gm_range (env_range (ve_go env))
          (GetAnnotations (\<lambda>k. customMiddlewareId k \<noteq> None) (env_range (ve_go env)) rsc))"

definition VulcanNewMiddlewares :: "vulcan_env \<Rightarrow> resource \<Rightarrow> eng_middleware list \<times> err option" where
  "VulcanNewMiddlewares env rsc = (defaultMiddlewares env rsc @ customMiddlewares env rsc, None)"

section \<open>Registration\<close>

definition VulcanAddServer :: "eng_server iface \<Rightarrow> v_backend \<Rightarrow> v_backend go" where
  "VulcanAddServer srv b =
     (case srv of Own s \<Rightarrow> Some (b\<lparr>vb_servers := vb_servers b @ [s]\<rparr>) | Foreign _ \<Rightarrow> None)"

definition VulcanAddMiddleware :: "eng_middleware iface \<Rightarrow> v_frontend \<Rightarrow> v_frontend go" where
  "VulcanAddMiddleware mid f =
     (case mid of Own m \<Rightarrow> Some (f\<lparr>vf_middlewares := vf_middlewares f @ [m]\<rparr>) | Foreign _ \<Rightarrow> None)"

definition VulcanUpsertFrontend :: "'s vulcan_api \<Rightarrow> v_frontend iface \<Rightarrow> 's \<Rightarrow> err option \<times> 's" where
  "VulcanUpsertFrontend api fr s =
     (case fr of
        Foreign _ \<Rightarrow> (Some ErrUnexpectedFrontendType, s)
      | Own f \<Rightarrow>
          (case va_UpsertFrontend api (vf_Frontend f) s of
             (Some er, s) \<Rightarrow> (Some er, s)
           | (None, s) \<Rightarrow>
               (None, fold (\<lambda>mid s. snd (ClientUpsertMiddleware api (FrontendGetID f) mid s)) (vf_middlewares f) s)))"

definition VulcanUpsertServer :: "'s vulcan_api \<Rightarrow> v_backend iface \<Rightarrow> eng_server iface \<Rightarrow> 's \<Rightarrow> (err option \<times> 's) go" where
  "VulcanUpsertServer api ba srv s =
     (case srv of
        Own x \<Rightarrow> Some (ClientUpsertServer api (iface_GetID BackendGetID ba) x s)
      | Foreign _ \<Rightarrow> None)"

definition VulcanDeleteServer :: "'s vulcan_api \<Rightarrow> v_backend iface \<Rightarrow> eng_server iface \<Rightarrow> 's \<Rightarrow> err option \<times> 's" where
  "VulcanDeleteServer api ba srv s =
     ClientDeleteServer api (iface_GetID BackendGetID ba) (iface_GetID es_Id srv) s"

text \<open>
  The loop of \<^verbatim>\<open>UpsertBackend\<close> over the servers of the backend: each is upserted and struck off
  the servers that are to be removed; the first error ends the loop. (The servers of a backend
  are the provider's own, so \<^verbatim>\<open>UpsertServer\<close> does not panic on them.)
\<close>

fun upsertServersLoop ::
  "'s vulcan_api \<Rightarrow> string \<Rightarrow> eng_server list \<Rightarrow> (string, eng_server) gomap \<Rightarrow> 's \<Rightarrow>
     (err option \<times> (string, eng_server) gomap) \<times> 's" where
  "upsertServersLoop api bk [] extra s = ((None, extra), s)"
| "upsertServersLoop api bk (srv # srvs) extra s =
     (case ClientUpsertServer api bk srv s of
        (Some er, s) \<Rightarrow> ((Some er, extra), s)
      | (None, s) \<Rightarrow> upsertServersLoop api bk srvs (gm_del (es_Id srv) extra) s)"

definition VulcanUpsertBackend ::
  "'s vulcan_api \<Rightarrow> (string list \<Rightarrow> string list) \<Rightarrow> v_backend iface \<Rightarrow> 's \<Rightarrow> err option \<times> 's" where
  "VulcanUpsertBackend api rng ba s =
     (case ba of
        Foreign _ \<Rightarrow> (Some ErrUnexpectedBackendType, s)
      | Own b \<Rightarrow>
          (case ClientUpsertBackend api (vb_Backend b) s of
             (Some er, s) \<Rightarrow> (Some er, s)
           | (None, s) \<Rightarrow>
               (let (ss, s) = ClientGetServers api (BackendGetID b) s;
                    ss = (case ss of Inr l \<Rightarrow> l | Inl _ \<Rightarrow> []);
                    extra = fold (\<lambda>x m. gm_put (es_Id x) x m) ss []
                in case upsertServersLoop api (BackendGetID b) (vb_servers b) extra s of
                     ((Some er, _), s) \<Rightarrow> (Some er, s)
                   | ((None, extra), s) \<Rightarrow>
                       (None, fold (\<lambda>e s. snd (VulcanDeleteServer api (Own b) (Own (snd e)) s)) (gm_range rng extra) s))))"

definition VulcanGetFrontend :: "'s vulcan_api \<Rightarrow> string \<Rightarrow> 's \<Rightarrow> (err + v_frontend) \<times> 's" where
  "VulcanGetFrontend api i s = apfst (map_sum (\<lambda>e. e) newFrontend) (va_GetFrontend api i s)"

definition VulcanGetBackend :: "'s vulcan_api \<Rightarrow> string \<Rightarrow> 's \<Rightarrow> (err + v_backend) \<times> 's" where
  "VulcanGetBackend api i s = apfst (map_sum (\<lambda>e. e) newBackend) (va_GetBackend api i s)"

definition VulcanGetServers :: "'s vulcan_api \<Rightarrow> string \<Rightarrow> 's \<Rightarrow> (eng_server list \<times> err option) \<times> 's" where
  "VulcanGetServers api i s =
     apfst (\<lambda>r. case r of Inl er \<Rightarrow> ([], Some er) | Inr l \<Rightarrow> (l, None)) (ClientGetServers api i s)"

definition VulcanDeleteFrontend :: "'s vulcan_api \<Rightarrow> v_frontend iface \<Rightarrow> 's \<Rightarrow> err option \<times> 's" where
  "VulcanDeleteFrontend api fr s = va_DeleteFrontend api (iface_GetID FrontendGetID fr) s"

definition VulcanDeleteBackend :: "'s vulcan_api \<Rightarrow> v_backend iface \<Rightarrow> 's \<Rightarrow> err option \<times> 's" where
  "VulcanDeleteBackend api ba s = va_DeleteBackend api (iface_GetID BackendGetID ba) s"

definition vulcan_ops :: "vulcan_env \<Rightarrow> 's vulcan_api \<Rightarrow> ('s, v_frontend, v_backend, eng_server, eng_middleware) lb_ops" where
  "vulcan_ops env api =
     \<lparr>lb_NewFrontend = VulcanNewFrontend env, lb_UpsertFrontend = (\<lambda>f. VulcanUpsertFrontend api (Own f)),
      lb_DeleteFrontend = (\<lambda>f. VulcanDeleteFrontend api (Own f)),
      lb_NewBackend = VulcanNewBackend env,
      lb_UpsertBackend = (\<lambda>b. VulcanUpsertBackend api (env_range (ve_go env)) (Own b)),
      lb_DeleteBackend = (\<lambda>b. VulcanDeleteBackend api (Own b)),
      lb_NewServers = VulcanNewServers env, lb_NewMiddlewares = VulcanNewMiddlewares env,
      lb_AddServer = (\<lambda>s. VulcanAddServer (Own s)), lb_AddMiddleware = (\<lambda>m. VulcanAddMiddleware (Own m)),
      lb_Kind = ''vulcand'', lb_Status = va_GetStatus api\<rparr>"

section \<open>Reconciliation of the servers of a backend\<close>

lemma byId_append: "byId idf (xs @ ys) = byId idf ys ++ byId idf xs"
  by (simp add: byId_def map_of_append)

lemma byId_rev_Cons: "m ++ byId idf (rev (x # xs)) = m(idf x \<mapsto> x) ++ byId idf (rev xs)"
  by (auto simp: byId_append map_add_def fun_eq_iff split: option.split)

lemma byId_Some: "distinct (map idf xs) \<Longrightarrow> byId idf xs k = Some x \<longleftrightarrow> x \<in> set xs \<and> idf x = k"
  by (induction xs) (auto simp: image_iff)

definition extraServers :: "eng_server list \<Rightarrow> (string, eng_server) gomap" where
  "extraServers ss = fold (\<lambda>x m. gm_put (es_Id x) x m) ss []"

lemma extraServers_alt: "extraServers ss = fold (\<lambda>e. gm_put (fst e) (snd e)) (map (\<lambda>x. (es_Id x, x)) ss) []"
  by (simp add: extraServers_def fold_map comp_def)

lemma gm_wf_extraServers [simp]: "gm_wf (extraServers ss)"
  by (simp add: extraServers_alt gm.inv_put_all)

lemma gm_get_extraServers: "gm_get (extraServers ss) k = byId es_Id (rev ss) k"
  by (simp add: extraServers_alt gm.get_put_all byId_def rev_map split: option.split)

lemma byId_rev:
  assumes "distinct (map idf xs)"
  shows "byId idf (rev xs) = byId idf xs"
proof -
  have "map_of (rev (map (\<lambda>x. (idf x, x)) xs)) = map_of (map (\<lambda>x. (idf x, x)) xs)"
    by (rule map_of_inject_set [THEN iffD2]) (use assms in \<open>simp_all add: comp_def rev_map [symmetric]\<close>)
  then show ?thesis by (simp add: byId_def rev_map)
qed

context vulcand_reliable
begin

text \<open>The first loop: upserting the servers of the backend and striking them off the rest.\<close>

lemma upsertServersLoop_effect:
  assumes "inv s" and "upsertServersLoop api bk xs extra s = ((None, extra'), s')"
  shows "inv s'" and "byId es_Id (srvs s' bk) = byId es_Id (srvs s bk) ++ byId es_Id (rev xs)"
    and "bk' \<noteq> bk \<Longrightarrow> srvs s' bk' = srvs s bk'" and "extra' = fold gm_del (map es_Id xs) extra"
proof -
  have "inv s' \<and> byId es_Id (srvs s' bk) = byId es_Id (srvs s bk) ++ byId es_Id (rev xs) \<and>
      (bk' \<noteq> bk \<longrightarrow> srvs s' bk' = srvs s bk') \<and> extra' = fold gm_del (map es_Id xs) extra"
    using assms
  proof (induction xs arbitrary: s extra)
    case (Cons x xs)
    from Cons.prems(2) obtain s1 where up: "va_UpsertServer api bk x s = (None, s1)"
        and rest: "upsertServersLoop api bk xs (gm_del (es_Id x) extra) s1 = ((None, extra'), s')"
      by (auto simp: ClientUpsertServer_def split: prod.splits option.splits if_splits)
    show ?case
      using Cons.IH [OF upsert_server_frame(1) [OF Cons.prems(1) up] rest] view_upsert [OF Cons.prems(1) up]
        upsert_server_frame(2) [OF Cons.prems(1) up]
      by (simp add: byId_rev_Cons del: rev.simps fun_upd_apply)
  qed simp
  then show "inv s'" and "byId es_Id (srvs s' bk) = byId es_Id (srvs s bk) ++ byId es_Id (rev xs)"
    and "bk' \<noteq> bk \<Longrightarrow> srvs s' bk' = srvs s bk'" and "extra' = fold gm_del (map es_Id xs) extra" by blast+
qed

text \<open>The second loop: the removal of what is left.\<close>

lemma deleteServers_effect:
  assumes "inv s" and "bk \<noteq> []" and "distinct ks" and "set ks \<subseteq> es_Id ` set (srvs s bk)"
  defines "s' \<equiv> fold (\<lambda>k s. snd (ClientDeleteServer api bk k s)) ks s"
  shows "inv s' \<and> byId es_Id (srvs s' bk) = (byId es_Id (srvs s bk)) |` (- set ks) \<and>
     (\<forall>bk'. bk' \<noteq> bk \<longrightarrow> srvs s' bk' = srvs s bk')"
  using assms(1,3,4) unfolding s'_def
proof (induction ks arbitrary: s)
  case (Cons k ks)
  let ?s1 = "snd (va_DeleteServer api bk k s)"
  have k: "k \<in> es_Id ` set (srvs s bk)" using Cons.prems(3) by simp
  note step = view_delete_present [OF Cons.prems(1) k]
  have "es_Id ` set (srvs ?s1 bk) = es_Id ` set (srvs s bk) - {k}"
    using arg_cong [OF step(2), of dom] by (simp add: dom_byId)
  then have "set ks \<subseteq> es_Id ` set (srvs ?s1 bk)" using Cons.prems(2,3) by auto
  then show ?case
    using Cons.IH [OF step(1)] Cons.prems(2) step(2,3) assms(2)
    by (auto simp: ClientDeleteServer_def restrict_map_def fun_eq_iff)
qed (simp add: restrict_map_def)

text \<open>
  An upsert that succeeds leaves exactly the servers of the backend, the last one where two
  share an identifier, and does not touch the servers of any other backend.
\<close>

lemma VulcanUpsertBackend_servers:
  assumes "inv s" and "range_ok rng" and "VulcanUpsertBackend api rng (Own b) s = (None, s')"
  shows "inv s' \<and> byId es_Id (srvs s' (BackendGetID b)) = byId es_Id (rev (vb_servers b)) \<and>
    (\<forall>bk. bk \<noteq> BackendGetID b \<longrightarrow> srvs s' bk = srvs s bk)"
proof -
  let ?bk = "BackendGetID b"
  from assms(3) obtain s1 where nonempty: "?bk \<noteq> []" and up: "va_UpsertBackend api (vb_Backend b) s = (None, s1)"
    by (auto simp: VulcanUpsertBackend_def ClientUpsertBackend_def BackendGetID_def split: prod.splits option.splits if_splits)
  have s1: "inv s1" "srvs s1 = srvs s" using upsert_backend [OF assms(1) up] by auto
  let ?ss = "srvs s ?bk"
  have get: "va_GetServers api ?bk s1 = (Inr ?ss, s1)"
    using get_servers_answers [OF s1(1), of ?bk] get_servers [OF s1(1), of ?bk] s1(2)
    by (metis prod.collapse)
  from assms(3) obtain extra' s2 where loop: "upsertServersLoop api ?bk (vb_servers b) (extraServers ?ss) s1 = ((None, extra'), s2)"
    and s': "s' = fold (\<lambda>e s. snd (VulcanDeleteServer api (Own b) (Own (snd e)) s)) (gm_range rng extra') s2"
    using up nonempty
    by (auto simp: VulcanUpsertBackend_def ClientUpsertBackend_def ClientGetServers_def BackendGetID_def extraServers_def
        get [unfolded BackendGetID_def] split: prod.splits option.splits if_splits)
  note up2 = upsertServersLoop_effect [OF s1(1) loop]
  have wf': "gm_wf extra'" unfolding up2(4) by (rule gm.inv_del_all) simp
  have look: "gm_get extra' k = (if k \<in> es_Id ` set (vb_servers b) then None else byId es_Id ?ss k)" for k
    using distinct_srvs [OF assms(1)] by (simp add: up2(4) gm.get_del_all gm_get_extraServers byId_rev)
  have key: "es_Id (snd e) = fst e \<and> e \<in> set extra'" if "e \<in> set (gm_range rng extra')" for e
  proof -
    have "e \<in> set extra'" using that set_gm_range [OF wf' assms(2)] by simp
    moreover from this have "gm_get extra' (fst e) = Some (snd e)"
      using gm_wf_distinct [OF wf'] by simp
    ultimately show ?thesis using byId_Some [OF distinct_srvs [OF assms(1)]] by (auto simp: look split: if_splits)
  qed
  let ?ks = "map fst (gm_range rng extra')"
  have keys: "set ?ks = es_Id ` set ?ss - es_Id ` set (vb_servers b)"
    unfolding image_set [symmetric] set_gm_range [OF wf' assms(2)] dom_map_of_conv_image_fst [symmetric]
    by (auto simp: look dom_byId [symmetric] split: if_splits)
  have "distinct ?ks"
    using gm_wf_distinct [OF wf'] mset_gm_range [OF wf' assms(2)] by (metis mset_eq_imp_distinct_iff mset_map)
  moreover have "set ?ks \<subseteq> es_Id ` set (srvs s2 ?bk)"
    unfolding keys dom_byId [symmetric] up2(2) s1(2) by auto
  moreover have "s' = fold (\<lambda>k s. snd (ClientDeleteServer api ?bk k s)) ?ks s2"
    unfolding s' fold_map comp_def
    by (rule fold_cong) (auto simp: VulcanDeleteServer_def iface_GetID_def dest: key)
  ultimately have fin: "inv s' \<and> byId es_Id (srvs s' ?bk) = (byId es_Id (srvs s2 ?bk)) |` (- set ?ks) \<and>
      (\<forall>bk. bk \<noteq> ?bk \<longrightarrow> srvs s' bk = srvs s2 bk)"
    using deleteServers_effect [OF up2(1) nonempty] by blast
  have "(byId es_Id ?ss ++ byId es_Id (rev (vb_servers b))) |` (- set ?ks) = byId es_Id (rev (vb_servers b))"
  proof (rule ext)
    fix k
    have "byId es_Id ?ss k = None \<longleftrightarrow> k \<notin> es_Id ` set ?ss"
        "byId es_Id (rev (vb_servers b)) k = None \<longleftrightarrow> k \<notin> es_Id ` set (vb_servers b)"
      by (simp_all add: byId_None)
    then show "((byId es_Id ?ss ++ byId es_Id (rev (vb_servers b))) |` (- set ?ks)) k = byId es_Id (rev (vb_servers b)) k"
      unfolding keys restrict_map_def map_add_def by (cases "byId es_Id (rev (vb_servers b)) k") auto
  qed
  then show ?thesis using fin up2(2,3) s1(2) by auto
qed

end

section \<open>The provider over the in-memory engine keeps the contract\<close>

definition mem_mids :: "mem \<Rightarrow> string \<Rightarrow> eng_middleware list" where
  "mem_mids m fk = (case gm_get (m_Middlewares m) fk of None \<Rightarrow> [] | Some vals \<Rightarrow> vals)"

definition vulcan_has_frontend :: "mem \<Rightarrow> v_frontend \<Rightarrow> bool" where
  "vulcan_has_frontend m f \<longleftrightarrow>
     gm_get (m_Frontends m) (FrontendGetID f) = Some (vf_Frontend f) \<and>
     (FrontendGetID f \<noteq> [] \<longrightarrow>
        byId em_Id (rev (filter (\<lambda>x. em_Id x \<noteq> []) (vf_middlewares f))) \<subseteq>\<^sub>m byId em_Id (mem_mids m (FrontendGetID f)))"

definition vulcan_has_backend :: "mem \<Rightarrow> v_backend \<Rightarrow> bool" where
  "vulcan_has_backend m b \<longleftrightarrow>
     gm_get (m_Backends m) (BackendGetID b) = Some (vb_Backend b) \<and>
     byId es_Id (mem_srvs m (BackendGetID b)) = byId es_Id (rev (vb_servers b))"

lemma mem_wf_sel: "mem_wf m \<Longrightarrow> gm_wf (m_Frontends m)" "mem_wf m \<Longrightarrow> gm_wf (m_Backends m)"
  "mem_wf m \<Longrightarrow> gm_wf (m_Middlewares m)" "mem_wf m \<Longrightarrow> gm_wf (m_Servers m)"
  by (simp_all add: mem_wf_def)

lemma mem_wf_put [simp, intro]:
  "mem_wf m \<Longrightarrow> mem_wf (m\<lparr>m_Frontends := gm_put k f (m_Frontends m)\<rparr>)"
  "mem_wf m \<Longrightarrow> mem_wf (m\<lparr>m_Backends := gm_put k b (m_Backends m)\<rparr>)"
  "mem_wf m \<Longrightarrow> mem_wf (m\<lparr>m_Middlewares := gm_put k l (m_Middlewares m)\<rparr>)"
  "mem_wf m \<Longrightarrow> mem_wf (m\<lparr>m_Frontends := gm_del k (m_Frontends m)\<rparr>)"
  "mem_wf m \<Longrightarrow> mem_wf (m\<lparr>m_Backends := gm_del k (m_Backends m)\<rparr>)"
  by (simp_all add: mem_wf_def)

text \<open>Changes of servers change nothing else, whatever their result; so for middlewares.\<close>

definition servers_only :: "mem \<Rightarrow> mem \<Rightarrow> bool" where
  "servers_only m m' \<longleftrightarrow> m_Hosts m' = m_Hosts m \<and> m_Listeners m' = m_Listeners m \<and> m_Frontends m' = m_Frontends m \<and>
     m_Backends m' = m_Backends m \<and> m_Middlewares m' = m_Middlewares m"

definition middlewares_only :: "mem \<Rightarrow> mem \<Rightarrow> bool" where
  "middlewares_only m m' \<longleftrightarrow> m_Hosts m' = m_Hosts m \<and> m_Listeners m' = m_Listeners m \<and> m_Frontends m' = m_Frontends m \<and>
     m_Backends m' = m_Backends m \<and> m_Servers m' = m_Servers m"

lemma server_ops_frame:
  assumes "mem_wf m"
  shows "ClientUpsertServer mem_api bk srv m = (e, m') \<Longrightarrow>
      mem_wf m' \<and> servers_only m m' \<and> (\<forall>bk'. bk' \<noteq> bk \<longrightarrow> mem_srvs m' bk' = mem_srvs m bk')"
    and "ClientDeleteServer mem_api bk sid m = (e, m') \<Longrightarrow>
      mem_wf m' \<and> servers_only m m' \<and> (\<forall>bk'. bk' \<noteq> bk \<longrightarrow> mem_srvs m' bk' = mem_srvs m bk')"
proof -
  have id: "servers_only m m" by (simp add: servers_only_def)
  show "mem_wf m' \<and> servers_only m m' \<and> (\<forall>bk'. bk' \<noteq> bk \<longrightarrow> mem_srvs m' bk' = mem_srvs m bk')"
    if "ClientUpsertServer mem_api bk srv m = (e, m')"
  proof (cases "bk = [] \<or> es_Id srv = []")
    case True
    with that assms id show ?thesis by (auto simp: ClientUpsertServer_def)
  next
    case False
    with that have up: "va_UpsertServer mem_api bk srv m = (e, m')" by (simp add: ClientUpsertServer_def)
    then have "servers_only m m'"
      by (auto simp: mem_api_def MemUpsertServer_def servers_only_def)
    with vm.upsert_server_frame [OF assms up] show ?thesis by blast
  qed
  show "mem_wf m' \<and> servers_only m m' \<and> (\<forall>bk'. bk' \<noteq> bk \<longrightarrow> mem_srvs m' bk' = mem_srvs m bk')"
    if "ClientDeleteServer mem_api bk sid m = (e, m')"
  proof (cases "bk = []")
    case True
    with that assms id show ?thesis by (auto simp: ClientDeleteServer_def)
  next
    case False
    with that have del: "va_DeleteServer mem_api bk sid m = (e, m')" by (simp add: ClientDeleteServer_def)
    then have "servers_only m m'"
      by (auto simp: mem_api_def MemDeleteServer_def servers_only_def split: option.splits)
    with vm.delete_server_frame [OF assms del] show ?thesis by blast
  qed
qed

lemma upsertServersLoop_frame:
  assumes "mem_wf m" and "upsertServersLoop mem_api bk xs extra m = (r, m')"
  shows "mem_wf m' \<and> servers_only m m' \<and> (\<forall>bk'. bk' \<noteq> bk \<longrightarrow> mem_srvs m' bk' = mem_srvs m bk')"
  using assms
proof (induction xs arbitrary: extra m)
  case Nil
  then show ?case by (auto simp: servers_only_def)
next
  case (Cons x xs)
  obtain e m1 where up: "ClientUpsertServer mem_api bk x m = (e, m1)" by fastforce
  note one = server_ops_frame(1) [OF Cons.prems(1) up]
  show ?case
  proof (cases e)
    case None
    with Cons.prems(2) up have "upsertServersLoop mem_api bk xs (gm_del (es_Id x) extra) m1 = (r, m')" by simp
    from Cons.IH [OF _ this] one show ?thesis by (auto simp: servers_only_def)
  next
    case (Some er)
    with Cons.prems(2) up one show ?thesis by auto
  qed
qed

lemma deleteServers_frame:
  assumes "mem_wf m"
  shows "mem_wf (fold (\<lambda>e m. snd (VulcanDeleteServer mem_api (Own b) (Own (snd e)) m)) es m) \<and>
    (servers_only m (fold (\<lambda>e m. snd (VulcanDeleteServer mem_api (Own b) (Own (snd e)) m)) es m)) \<and>
    (\<forall>bk'. bk' \<noteq> BackendGetID b \<longrightarrow>
       mem_srvs (fold (\<lambda>e m. snd (VulcanDeleteServer mem_api (Own b) (Own (snd e)) m)) es m) bk' = mem_srvs m bk')"
  using assms
proof (induction es arbitrary: m)
  case Nil
  then show ?case by (auto simp: servers_only_def)
next
  case (Cons e es)
  let ?m = "snd (VulcanDeleteServer mem_api (Own b) (Own (snd e)) m)"
  have one: "mem_wf ?m \<and> servers_only m ?m \<and> (\<forall>bk'. bk' \<noteq> BackendGetID b \<longrightarrow> mem_srvs ?m bk' = mem_srvs m bk')"
    using server_ops_frame(2) [OF Cons.prems, of "BackendGetID b" "es_Id (snd e)"]
    by (metis VulcanDeleteServer_def iface_GetID_def iface.simps(5) prod.collapse)
  with Cons.IH [of ?m] show ?case by (auto simp: servers_only_def)
qed

lemma VulcanUpsertBackend_frame:
  assumes "mem_wf m" and "VulcanUpsertBackend mem_api rng (Own b) m = (e, m')"
  shows "mem_wf m' \<and> m_Frontends m' = m_Frontends m \<and> m_Middlewares m' = m_Middlewares m \<and>
    m_Backends m' = (if BackendGetID b = [] then m_Backends m else gm_put (BackendGetID b) (vb_Backend b) (m_Backends m)) \<and>
    (BackendGetID b = [] \<longrightarrow> e \<noteq> None) \<and>
    (\<forall>bk. bk \<noteq> BackendGetID b \<longrightarrow> mem_srvs m' bk = mem_srvs m bk)"
proof (cases "BackendGetID b = []")
  case True
  with assms show ?thesis by (auto simp: VulcanUpsertBackend_def ClientUpsertBackend_def BackendGetID_def)
next
  case False
  let ?m1 = "(emit (BackendUpserted (vb_Backend b)) m)\<lparr>m_Backends := gm_put (BackendGetID b) (vb_Backend b) (m_Backends m)\<rparr>"
  obtain er extra m2 where loop: "upsertServersLoop mem_api (BackendGetID b) (vb_servers b)
      (extraServers (mem_srvs ?m1 (BackendGetID b))) ?m1 = ((er, extra), m2)"
    by (metis prod.collapse)
  have m1: "mem_wf ?m1"
    using mem_wf_put(2) [of "emit (BackendUpserted (vb_Backend b)) m" "BackendGetID b" "vb_Backend b"] assms(1) by simp
  have "m' = (case er of Some x \<Rightarrow> m2
      | None \<Rightarrow> fold (\<lambda>e m. snd (VulcanDeleteServer mem_api (Own b) (Own (snd e)) m)) (gm_range rng extra) m2)"
    using assms(2) False loop
    by (auto simp: VulcanUpsertBackend_def ClientUpsertBackend_def ClientGetServers_def BackendGetID_def mem_api_def
        MemUpsertBackend_def MemGetServers_def extraServers_def mem_srvs_def split: option.splits prod.splits)
  moreover note upsertServersLoop_frame [OF m1 loop] deleteServers_frame [of m2 b "gm_range rng extra"]
  moreover have "mem_srvs ?m1 = mem_srvs m" by (simp add: mem_srvs_def fun_eq_iff)
  ultimately show ?thesis using False by (auto simp: servers_only_def split: option.splits)
qed

text \<open>The loop over the middlewares of a frontend.\<close>

definition upsertMiddlewares :: "string \<Rightarrow> eng_middleware list \<Rightarrow> mem \<Rightarrow> mem" where
  "upsertMiddlewares fk mids m = fold (\<lambda>mid m. snd (ClientUpsertMiddleware mem_api fk mid m)) mids m"

lemma ClientUpsertMiddleware_mem:
  "snd (ClientUpsertMiddleware mem_api fk md m) =
     (if fk = [] \<or> em_Id md = [] \<or> gm_get (m_Frontends m) fk = None then m
      else emit (MiddlewareUpserted fk md)
             (m\<lparr>m_Middlewares := gm_put fk (list_upsert em_Id md (mem_mids m fk)) (m_Middlewares m)\<rparr>))"
  by (auto simp: ClientUpsertMiddleware_def mem_api_def MemUpsertMiddleware_def mem_mids_def split: option.split)

lemma upsertMiddlewares_frame:
  assumes "mem_wf m"
  shows "mem_wf (upsertMiddlewares fk mids m) \<and> (middlewares_only m (upsertMiddlewares fk mids m)) \<and>
    (\<forall>fk'. fk' \<noteq> fk \<longrightarrow> mem_mids (upsertMiddlewares fk mids m) fk' = mem_mids m fk')"
  using assms unfolding upsertMiddlewares_def
proof (induction mids arbitrary: m)
  case Nil
  then show ?case by (auto simp: middlewares_only_def)
next
  case (Cons md mids)
  let ?m = "snd (ClientUpsertMiddleware mem_api fk md m)"
  have "mem_wf ?m \<and> middlewares_only m ?m \<and> (\<forall>fk'. fk' \<noteq> fk \<longrightarrow> mem_mids ?m fk' = mem_mids m fk')"
    using Cons.prems mem_wf_sel(3) [OF Cons.prems]
    by (auto simp: ClientUpsertMiddleware_mem mem_mids_def middlewares_only_def)
  with Cons.IH [of ?m] show ?case by (auto simp: middlewares_only_def)
qed

lemma upsertMiddlewares_view:
  assumes "mem_wf m" and "fk \<noteq> []" and "gm_get (m_Frontends m) fk \<noteq> None"
  shows "byId em_Id (mem_mids (upsertMiddlewares fk mids m) fk) =
     byId em_Id (mem_mids m fk) ++ byId em_Id (rev (filter (\<lambda>x. em_Id x \<noteq> []) mids))"
  using assms unfolding upsertMiddlewares_def
proof (induction mids arbitrary: m)
  case (Cons md mids)
  let ?m = "snd (ClientUpsertMiddleware mem_api fk md m)"
  have "mem_wf ?m" and "gm_get (m_Frontends ?m) fk \<noteq> None"
    using Cons.prems by (auto simp: ClientUpsertMiddleware_mem)
  note IH = Cons.IH [OF this(1) assms(2) this(2)]
  show ?case
  proof (cases "em_Id md = []")
    case True
    then show ?thesis using IH by (simp add: ClientUpsertMiddleware_mem)
  next
    case False
    then have "byId em_Id (mem_mids ?m fk) = (byId em_Id (mem_mids m fk))(em_Id md \<mapsto> md)"
      using Cons.prems mem_wf_sel(3) [OF Cons.prems(1)]
      by (auto simp: ClientUpsertMiddleware_mem mem_mids_def split: option.splits)
    with IH False show ?thesis by (simp add: byId_rev_Cons del: rev.simps fun_upd_apply)
  qed
qed simp

lemma VulcanUpsertFrontend_mem:
  "VulcanUpsertFrontend mem_api (Own f) m =
     (if gm_get (m_Backends m) (ef_BackendId (vf_Frontend f)) = None
      then (Some (NotFound (''backend: '' @ ef_BackendId (vf_Frontend f) @ '' not found'')), m)
      else (None, upsertMiddlewares (FrontendGetID f) (vf_middlewares f)
                    (emit (FrontendUpserted (vf_Frontend f))
                       (m\<lparr>m_Frontends := gm_put (FrontendGetID f) (vf_Frontend f) (m_Frontends m)\<rparr>))))"
  by (simp add: VulcanUpsertFrontend_def mem_api_def MemUpsertFrontend_def FrontendGetID_def upsertMiddlewares_def)

text \<open>
  The state satisfies its invariant, and the order of Go's map loops (a parameter of the
  provider) visits each entry once.
\<close>

definition vulcan_inv :: "vulcan_env \<Rightarrow> mem \<Rightarrow> bool" where
  "vulcan_inv env m \<longleftrightarrow> mem_wf m \<and> range_ok (env_range (ve_go env))"

lemma vulcan_ops_sel [simp]:
  "lb_UpsertBackend (vulcan_ops env api) = (\<lambda>b. VulcanUpsertBackend api (env_range (ve_go env)) (Own b))"
  "lb_UpsertFrontend (vulcan_ops env api) = (\<lambda>f. VulcanUpsertFrontend api (Own f))"
  "lb_DeleteBackend (vulcan_ops env api) = (\<lambda>b. va_DeleteBackend api (BackendGetID b))"
  "lb_DeleteFrontend (vulcan_ops env api) = (\<lambda>f. va_DeleteFrontend api (FrontendGetID f))"
  by (simp_all add: vulcan_ops_def VulcanDeleteBackend_def VulcanDeleteFrontend_def iface_GetID_def fun_eq_iff)

lemma vulcan_has_backend_cong:
  "gm_get (m_Backends m') (BackendGetID b) = gm_get (m_Backends m) (BackendGetID b) \<Longrightarrow>
   mem_srvs m' (BackendGetID b) = mem_srvs m (BackendGetID b) \<Longrightarrow> vulcan_has_backend m' b = vulcan_has_backend m b"
  by (simp add: vulcan_has_backend_def)

lemma vulcan_has_frontend_cong:
  "gm_get (m_Frontends m') (FrontendGetID f) = gm_get (m_Frontends m) (FrontendGetID f) \<Longrightarrow>
   mem_mids m' (FrontendGetID f) = mem_mids m (FrontendGetID f) \<Longrightarrow> vulcan_has_frontend m' f = vulcan_has_frontend m f"
  by (simp add: vulcan_has_frontend_def)

text \<open>The laws of the contract, operation by operation.\<close>

lemma vulcan_constructor_ids:
  "VulcanNewBackend env r = Inr b \<Longrightarrow> BackendGetID b = r_id r"
  "VulcanNewFrontend env r = Inr f \<Longrightarrow> FrontendGetID f = r_id r"
  by (auto simp: VulcanNewBackend_def NewHTTPBackend_def BackendGetID_def newBackend_def VulcanNewFrontend_def
      NewHTTPFrontend_def FrontendGetID_def newFrontend_def Let_def split: option.splits sum.splits if_splits)

lemma VulcanUpsertBackend_law:
  assumes wf: "mem_wf m" and up: "VulcanUpsertBackend mem_api rng (Own b) m = (e, m')"
  shows "mem_wf m' \<and> dom (gm_get (m_Frontends m')) = dom (gm_get (m_Frontends m)) \<and>
      dom (gm_get (m_Backends m)) \<subseteq> dom (gm_get (m_Backends m')) \<and>
      dom (gm_get (m_Backends m')) \<subseteq> insert (BackendGetID b) (dom (gm_get (m_Backends m))) \<and>
      (\<forall>b'. BackendGetID b' \<noteq> BackendGetID b \<longrightarrow> vulcan_has_backend m' b' = vulcan_has_backend m b') \<and>
      vulcan_has_frontend m' = vulcan_has_frontend m"
proof -
  note fr = VulcanUpsertBackend_frame [OF assms]
  have "vulcan_has_backend m' b' = vulcan_has_backend m b'" if "BackendGetID b' \<noteq> BackendGetID b" for b'
    using that fr mem_wf_sel(2) [OF wf] by (intro vulcan_has_backend_cong) auto
  moreover have "vulcan_has_frontend m' = vulcan_has_frontend m"
    using fr by (intro ext vulcan_has_frontend_cong) (simp_all add: mem_mids_def)
  ultimately show ?thesis using fr mem_wf_sel(2) [OF wf] by (auto split: if_splits)
qed

lemma mem_wf_upsert_frontend:
  "mem_wf m \<Longrightarrow> mem_wf (emit c (m\<lparr>m_Frontends := gm_put k f (m_Frontends m)\<rparr>))"
  by simp

lemma VulcanUpsertFrontend_law:
  assumes wf: "mem_wf m" and up: "VulcanUpsertFrontend mem_api (Own f) m = (e, m')"
  shows "mem_wf m' \<and> dom (gm_get (m_Backends m')) = dom (gm_get (m_Backends m)) \<and>
      dom (gm_get (m_Frontends m)) \<subseteq> dom (gm_get (m_Frontends m')) \<and>
      dom (gm_get (m_Frontends m')) \<subseteq> insert (FrontendGetID f) (dom (gm_get (m_Frontends m))) \<and>
      (\<forall>f'. FrontendGetID f' \<noteq> FrontendGetID f \<longrightarrow> vulcan_has_frontend m' f' = vulcan_has_frontend m f') \<and>
      vulcan_has_backend m' = vulcan_has_backend m"
proof -
  let ?m1 = "emit (FrontendUpserted (vf_Frontend f)) (m\<lparr>m_Frontends := gm_put (FrontendGetID f) (vf_Frontend f) (m_Frontends m)\<rparr>)"
  note mids = upsertMiddlewares_frame [OF mem_wf_upsert_frontend [OF wf], of "FrontendGetID f" "vf_middlewares f"
      "FrontendUpserted (vf_Frontend f)" "FrontendGetID f" "vf_Frontend f"]
  from up consider "m' = m" | "m' = upsertMiddlewares (FrontendGetID f) (vf_middlewares f) ?m1"
    by (auto simp: VulcanUpsertFrontend_mem split: if_splits)
  then show ?thesis
  proof cases
    case 1
    then show ?thesis using wf by auto
  next
    case 2
    with mids have only: "middlewares_only ?m1 m'" and wf': "mem_wf m'" by simp_all
    have "vulcan_has_frontend m' f' = vulcan_has_frontend m f'" if "FrontendGetID f' \<noteq> FrontendGetID f" for f'
      using that mids mem_wf_sel(1) [OF wf] 2 only
      by (intro vulcan_has_frontend_cong) (auto simp: middlewares_only_def mem_mids_def)
    moreover have "vulcan_has_backend m' = vulcan_has_backend m"
      using only by (intro ext vulcan_has_backend_cong) (auto simp: middlewares_only_def mem_srvs_def)
    ultimately show ?thesis using wf' only mem_wf_sel(1) [OF wf] by (auto simp: middlewares_only_def)
  qed
qed

lemma VulcanUpsertFrontend_has:
  assumes wf: "mem_wf m" and up: "VulcanUpsertFrontend mem_api (Own f) m = (None, m')"
  shows "vulcan_has_frontend m' f"
proof -
  let ?m1 = "emit (FrontendUpserted (vf_Frontend f)) (m\<lparr>m_Frontends := gm_put (FrontendGetID f) (vf_Frontend f) (m_Frontends m)\<rparr>)"
  note wf1 = mem_wf_upsert_frontend [OF wf, of "FrontendUpserted (vf_Frontend f)" "FrontendGetID f" "vf_Frontend f"]
  have m': "m' = upsertMiddlewares (FrontendGetID f) (vf_middlewares f) ?m1"
    using up by (auto simp: VulcanUpsertFrontend_mem split: if_splits)
  have "gm_get (m_Frontends m') (FrontendGetID f) = Some (vf_Frontend f)"
    using upsertMiddlewares_frame [OF wf1, of "FrontendGetID f" "vf_middlewares f"] mem_wf_sel(1) [OF wf]
    by (auto simp: m' middlewares_only_def)
  then show ?thesis
    using upsertMiddlewares_view [OF wf1, of "FrontendGetID f" "vf_middlewares f"] mem_wf_sel(1) [OF wf]
    by (auto simp: vulcan_has_frontend_def m')
qed

lemma mem_delete_frontend_law:
  assumes "mem_wf m" and "MemDeleteFrontend k m = (e, m')"
  shows "mem_wf m' \<and> dom (gm_get (m_Backends m')) = dom (gm_get (m_Backends m)) \<and>
      dom (gm_get (m_Frontends m)) - {k} \<subseteq> dom (gm_get (m_Frontends m')) \<and>
      dom (gm_get (m_Frontends m')) \<subseteq> dom (gm_get (m_Frontends m)) \<and>
      (\<forall>f'. FrontendGetID f' \<noteq> k \<longrightarrow> vulcan_has_frontend m' f' = vulcan_has_frontend m f') \<and>
      vulcan_has_backend m' = vulcan_has_backend m"
proof (cases "gm_get (m_Frontends m) k")
  case (Some f)
  then have m': "m' = (emit (FrontendDeleted k) m)\<lparr>m_Frontends := gm_del k (m_Frontends m)\<rparr>"
    using assms(2) by (simp add: MemDeleteFrontend_def Let_def)
  have "mem_wf m'" using mem_wf_put(4) [of "emit (FrontendDeleted k) m" k] assms(1) by (simp add: m')
  then show ?thesis
    by (auto simp: m' vulcan_has_frontend_def vulcan_has_backend_def mem_mids_def mem_srvs_def fun_eq_iff split: if_splits)
qed (use assms in \<open>auto simp: MemDeleteFrontend_def\<close>)

lemma mem_delete_backend_law:
  assumes "mem_wf m" and "MemDeleteBackend k m = (e, m')"
  shows "mem_wf m' \<and> dom (gm_get (m_Frontends m')) = dom (gm_get (m_Frontends m)) \<and>
      dom (gm_get (m_Backends m)) - {k} \<subseteq> dom (gm_get (m_Backends m')) \<and>
      dom (gm_get (m_Backends m')) \<subseteq> dom (gm_get (m_Backends m)) \<and>
      (\<forall>b'. BackendGetID b' \<noteq> k \<longrightarrow> vulcan_has_backend m' b' = vulcan_has_backend m b') \<and>
      vulcan_has_frontend m' = vulcan_has_frontend m"
proof -
  from assms(2) consider "m' = m" | "m' = (emit (BackendDeleted k) m)\<lparr>m_Backends := gm_del k (m_Backends m)\<rparr>"
    by (auto simp: MemDeleteBackend_def Let_def split: if_splits)
  then show ?thesis
  proof cases
    case 2
    have "mem_wf m'" using mem_wf_put(5) [of "emit (BackendDeleted k) m" k] assms(1) by (simp add: 2)
    then show ?thesis
      by (auto simp: 2 vulcan_has_frontend_def vulcan_has_backend_def mem_mids_def mem_srvs_def fun_eq_iff split: if_splits)
  qed (use assms in auto)
qed

lemma mem_delete_gone:
  "MemDeleteFrontend k m = (None, m') \<Longrightarrow> k \<notin> dom (gm_get (m_Frontends m'))"
  "MemDeleteBackend k m = (None, m') \<Longrightarrow> k \<notin> dom (gm_get (m_Backends m'))"
  by (auto simp: MemDeleteFrontend_def MemDeleteBackend_def Let_def split: if_splits)

lemma mem_api_delete [simp]: "va_DeleteFrontend mem_api = MemDeleteFrontend" "va_DeleteBackend mem_api = MemDeleteBackend"
  by (simp_all add: mem_api_def)

interpretation vl: load_balancer "vulcan_ops env mem_api" "vulcan_inv env" FrontendGetID BackendGetID
  "\<lambda>m. dom (gm_get (m_Frontends m))" "\<lambda>m. dom (gm_get (m_Backends m))" vulcan_has_frontend vulcan_has_backend
  for env
proof (unfold_locales, goal_cases)
  case 1
  then show ?case by (simp add: vulcan_ops_def vulcan_constructor_ids)
next
  case 2
  then show ?case by (simp add: vulcan_ops_def vulcan_constructor_ids)
next
  case 3
  then show ?case by (auto simp: vulcan_ops_def VulcanAddServer_def BackendGetID_def)
next
  case 4
  then show ?case by (auto simp: vulcan_ops_def VulcanAddMiddleware_def FrontendGetID_def)
next
  case 6
  then show ?case using VulcanUpsertBackend_law by (auto simp: vulcan_inv_def)
next
  case (5 m b m')
  then have up: "VulcanUpsertBackend mem_api (env_range (ve_go env)) (Own b) m = (None, m')"
      and wf: "mem_wf m" and rng: "range_ok (env_range (ve_go env))"
    by (simp_all add: vulcan_inv_def)
  show ?case
    using vm.VulcanUpsertBackend_servers [OF wf rng up] VulcanUpsertBackend_frame [OF wf up] mem_wf_sel(2) [OF wf]
    by (auto simp: vulcan_has_backend_def)
next
  case 8
  then show ?case using VulcanUpsertFrontend_law by (auto simp: vulcan_inv_def)
next
  case 7
  then show ?case using VulcanUpsertFrontend_has by (auto simp: vulcan_inv_def)
next
  case 10
  then show ?case using mem_delete_frontend_law by (auto simp: vulcan_inv_def)
next
  case 9
  then show ?case using mem_delete_gone by simp
next
  case 12
  then show ?case using mem_delete_backend_law by (auto simp: vulcan_inv_def)
next
  case 11
  then show ?case using mem_delete_gone by simp
next
  case 13
  then show ?case by (auto simp: vulcan_has_frontend_def)
next
  case 14
  then show ?case by (auto simp: vulcan_has_backend_def)
qed

section \<open>The route expression\<close>

text \<open>
  The loop of \<^verbatim>\<open>NewRoute\<close> in closed form: the last host, the last prefix or else the last path,
  all methods and all headers in order.
\<close>

definition lastOr :: "'a option \<Rightarrow> 'a list \<Rightarrow> 'a option" where
  "lastOr d xs = (if xs = [] then d else Some (last xs))"

lemma lastOr_simps [simp]: "lastOr d [] = d" "lastOr d (x # xs) = lastOr (Some x) xs"
  by (simp_all add: lastOr_def)

definition prefixPart :: "route_part \<Rightarrow> v_route_part" where
  "prefixPart p = \<lparr>vp_part = ''PathRegexp'', vp_val = rp_value p @ ''.*'', vp_header = []\<rparr>"

lemma vulcanRoutePart_pair:
  "vulcanRoutePart p (r, pre) =
     (if rp_kind p = HostPart then (r\<lparr>vr_host := Some (vulcanPart ''Host'' ''HostRegexp'' p)\<rparr>, pre)
      else if rp_kind p = MethodPart then
        (r\<lparr>vr_methods := vr_methods r @ [vulcanPart ''Method'' ''MethodRegexp'' p]\<rparr>, pre)
      else if rp_kind p = HeaderPart then
        (r\<lparr>vr_headers := vr_headers r @ [(vulcanPart ''Header'' ''HeaderRegexp'' p)\<lparr>vp_header := rp_header p\<rparr>]\<rparr>, pre)
      else if rp_kind p = PathPart then
        (if pre then r else r\<lparr>vr_path := Some (vulcanPart ''Path'' ''PathRegexp'' p)\<rparr>, pre)
      else if rp_kind p = PrefixPart then (r\<lparr>vr_path := Some (prefixPart p)\<rparr>, True)
      else (r, pre))"
  by (simp add: vulcanRoutePart_def prefixPart_def)

lemma fold_vulcanRoutePart:
  "fold vulcanRoutePart ps (r, pre) =
     (let part = (\<lambda>kind. filter (\<lambda>p. rp_kind p = kind) ps) in
      (\<lparr>vr_host = lastOr (vr_host r) (map (vulcanPart ''Host'' ''HostRegexp'') (part HostPart)),
       vr_path = (if part PrefixPart = [] then
                    (if pre then vr_path r else lastOr (vr_path r) (map (vulcanPart ''Path'' ''PathRegexp'') (part PathPart)))
                  else lastOr None (map prefixPart (part PrefixPart))),
       vr_headers = vr_headers r @ map (\<lambda>p. (vulcanPart ''Header'' ''HeaderRegexp'' p)\<lparr>vp_header := rp_header p\<rparr>) (part HeaderPart),
       vr_methods = vr_methods r @ map (vulcanPart ''Method'' ''MethodRegexp'') (part MethodPart)\<rparr>,
       pre \<or> part PrefixPart \<noteq> []))"
proof (induction ps arbitrary: r pre)
  case Nil
  then show ?case by (simp)
next
  case (Cons p ps)
  consider "rp_kind p = HostPart" | "rp_kind p = MethodPart" | "rp_kind p = HeaderPart" | "rp_kind p = PathPart"
    | "rp_kind p = PrefixPart" | "rp_kind p \<notin> {HostPart, MethodPart, HeaderPart, PathPart, PrefixPart}" by auto
  then show ?case
    by cases (simp_all add: vulcanRoutePart_pair Cons.IH Let_def lastOr_def)
qed

lemma VulcanNewRoute_cong:
  assumes "\<And>kind. filter (\<lambda>p. rp_kind p = kind) (rt_parts rt) = filter (\<lambda>p. rp_kind p = kind) (rt_parts rt')"
    and "mset (rt_parts rt) = mset (rt_parts rt')"
  shows "VulcanNewRoute rt = VulcanNewRoute rt'"
proof -
  have "RouteEmpty rt = RouteEmpty rt'"
    using mset_eq_length [OF assms(2)] by (simp add: RouteEmpty_def)
  then show ?thesis
    using assms(1) by (simp add: VulcanNewRoute_def fold_vulcanRoutePart RouteParts_def Let_def)
qed

text \<open>What the objects for a resource depend on.\<close>

lemma VulcanNewFrontend_cong:
  assumes "r_id r = r_id r'" and "r_annotations r = r_annotations r'" and "VulcanNewRoute (r_route r) = VulcanNewRoute (r_route r')"
  shows "VulcanNewFrontend env r = VulcanNewFrontend env r'"
  by (simp only: VulcanNewFrontend_def frontendLimits_def GetAnnotation_def assms)

lemma VulcanNewBackend_cong:
  assumes "r_id r = r_id r'" and "r_annotations r = r_annotations r'" and "r_websocket r = r_websocket r'"
  shows "VulcanNewBackend env r = VulcanNewBackend env r'"
  by (simp only: VulcanNewBackend_def GetAnnotation_def assms)

text \<open>A template with its verbs replaced.\<close>

lemma sprintf_skip: "CHR ''%'' \<notin> set p \<Longrightarrow> sprintf (p @ CHR ''%'' # q) args = p @ sprintf (CHR ''%'' # q) args"
proof (induction p)
  case (Cons c p)
  then show ?case by (cases p) auto
qed simp

lemma sprintf_s: "CHR ''%'' \<notin> set p \<Longrightarrow> sprintf (p @ ''%s'' @ q) (a # as) = p @ a @ sprintf q as"
  by (simp add: sprintf_skip)

lemma sprintf_none: "CHR ''%'' \<notin> set p \<Longrightarrow> sprintf p args = p"
  by (induction p args rule: sprintf.induct) auto

definition authPre :: string where
  "authPre = ''{
      \"Priority\": 1,
      \"Type\": \"auth\",
      \"Middleware\": {
        \"User\": \"''"

definition authMid :: string where
  "authMid = ''\",
        \"Pass\": \"''"

definition authPost :: string where
  "authPost = ''\"
      }
    }''"

lemma Auth_split: "Auth = authPre @ ''%s'' @ authMid @ ''%s'' @ authPost"
  by (simp add: Auth_def authPre_def authMid_def authPost_def)

section \<open>Properties\<close>

text \<open>
  C5: registering a backend reconciles its servers. After an upsert that succeeds, the engine
  has for this backend exactly the servers of the object that was passed (the last one where
  two share an identifier): stale servers are gone, changed ones are replaced, and the servers
  of every other backend are as before. The order of the loop over the stale ones is irrelevant.
\<close>

theorem vulcan_upsert_backend_exact:
  assumes "mem_wf m" and "range_ok rng" and "VulcanUpsertBackend mem_api rng (Own b) m = (None, m')"
  shows "byId es_Id (mem_srvs m' (BackendGetID b)) = byId es_Id (rev (vb_servers b)) \<and>
     gm_get (m_Backends m') (BackendGetID b) = Some (vb_Backend b) \<and> m_Frontends m' = m_Frontends m \<and>
     (bk \<noteq> BackendGetID b \<longrightarrow> mem_srvs m' bk = mem_srvs m bk)"
  using vm.VulcanUpsertBackend_servers [OF assms] VulcanUpsertBackend_frame [OF assms(1,3)] mem_wf_sel(2) [OF assms(1)]
  by auto

definition sample_backend :: v_backend where
  "sample_backend = \<lparr>vb_Backend = \<lparr>eb_Id = ''test.bar.web'', eb_Type = ''http'',
       eb_Settings = \<lparr>bs_Read = [], bs_Dial = [], bs_TLSHandshake = [], bs_Period = [], bs_MaxIdleConnsPerHost = 0, bs_TLS = None\<rparr>\<rparr>,
     vb_servers = [\<lparr>es_Id = ''a'', es_URL = ''http://10.0.0.1:80''\<rparr>]\<rparr>"

definition sample_mem :: mem where
  "sample_mem = NewMem\<lparr>m_Servers := [(''test.bar.web'', [\<lparr>es_Id = ''a'', es_URL = ''http://10.0.0.9:80''\<rparr>,
     \<lparr>es_Id = ''b'', es_URL = ''http://10.0.0.2:80''\<rparr>])]\<rparr>"

theorem vulcan_upsert_backend_exact_witness:
  "\<exists>m'. VulcanUpsertBackend mem_api rev (Own sample_backend) sample_mem = (None, m') \<and>
     byId es_Id (mem_srvs m' ''test.bar.web'') = [''a'' \<mapsto> \<lparr>es_Id = ''a'', es_URL = ''http://10.0.0.1:80''\<rparr>]"
proof -
  let ?r = "VulcanUpsertBackend mem_api rev (Own sample_backend) sample_mem"
  have ok: "?r = (None, snd ?r)" by code_simp
  have "mem_wf sample_mem" by (simp add: sample_mem_def mem_wf_def NewMem_def gm_wf_def)
  from vulcan_upsert_backend_exact [OF this range_ok_rev ok] ok show ?thesis
    by (intro exI [of _ "snd ?r"]) (simp add: BackendGetID_def sample_backend_def)
qed

text \<open>
  What the program registers does not depend on Go's map order. For any two orders of the
  loops over the annotations, the frontend (with its route expression and all its settings) and
  the backend built for a port are the same objects.
\<close>

lemma vulcan_objects_order_independent:
  assumes "gm_wf anno" and "range_ok rng1" and "range_ok rng2"
    and "distinct (map fst (scopedEntries (Keyspace g) ns anno))"
  shows "let r1 = NewResource (g\<lparr>env_range := rng1\<rparr>) ident ns anno;
         r2 = NewResource (g\<lparr>env_range := rng2\<rparr>) ident ns anno
     in VulcanNewFrontend env r1 = VulcanNewFrontend env r2 \<and> VulcanNewBackend env r1 = VulcanNewBackend env r2"
proof -
  note eq = NewResource_order [OF assms, where ident = ident]
  have "VulcanNewRoute (r_route (NewResource (g\<lparr>env_range := rng1\<rparr>) ident ns anno)) =
      VulcanNewRoute (r_route (NewResource (g\<lparr>env_range := rng2\<rparr>) ident ns anno))"
    by (rule VulcanNewRoute_cong [OF eq(4) eq(3)])
  then show ?thesis
    unfolding Let_def by (intro conjI VulcanNewFrontend_cong VulcanNewBackend_cong eq(1,2)) simp_all
qed

definition sample_checks :: vulcan_checks where
  "sample_checks = \<lparr>vc_route = (\<lambda>_. True), vc_predicate = (\<lambda>_. True), vc_ParseDuration = (\<lambda>d. Inl (Err ''time: invalid duration'')),
     vc_DurationString = (\<lambda>t. itoa t), vc_request_uri = (\<lambda>u. u \<noteq> [])\<rparr>"

definition sample_vulcan :: vulcan_env where
  "sample_vulcan = \<lparr>ve_go = sample_env, ve_checks = sample_checks, ve_quantity = (\<lambda>_. None),
     ve_json_frontend = (\<lambda>_ s. s), ve_json_backend = (\<lambda>_ s. s),
     ve_json_raw = (\<lambda>doc. Inr \<lparr>rm_Id = [], rm_Type = ''auth'', rm_Priority = 1, rm_Middleware = doc\<rparr>),
     ve_spec = (\<lambda>_. Some Inr),
     ve_json_strings = (\<lambda>l. Inr (join '','' l))\<rparr>"

text \<open>
  An empty \<^verbatim>\<open>scheme\<close> annotation crashes the program. The addresses of the Endpoints are taken
  with whatever scheme is annotated; without one the text is no URL, \<^verbatim>\<open>URL()\<close> logs the error and
  returns nil, and printing that nil pointer panics. (As \<^verbatim>\<open>url.Parse\<close> documents, a text that
  starts with a colon has no URL.)
\<close>

lemma vulcan_empty_scheme_panics:
  assumes "NoServers r" and "GetAnnotation r ''scheme'' = Some []"
    and "endpointServers (ve_go env) en port (Some []) \<noteq> []"
    and url: "\<And>rest. env_url (ve_go env) (CHR '':'' # rest) = None"
  shows "VulcanNewServers env (AddServers (ve_go env) svc (Some en) port r) = None"
proof -
  let ?srvs = "endpointServers (ve_go env) en port (Some [])"
  have "r_servers (AddServers (ve_go env) svc (Some en) port r) = ?srvs"
    using AddServers_eq [OF assms(1), of "ve_go env" svc "Some en" port] assms(2,3) by (simp add: Let_def)
  moreover obtain x xs where x: "?srvs = x # xs" using assms(3) by (cases ?srvs) auto
  have "sv_scheme x = []"
  proof -
    have "x \<in> set ?srvs" by (simp add: x)
    then show ?thesis by (auto simp: endpointServers_def mkServer_def split: if_splits)
  qed
  then have "ServerURL (ve_go env) x = None"
    by (simp add: ServerURL_def ServerRawURL_def url)
  ultimately show ?thesis by (simp add: VulcanNewServers_def x)
qed

text \<open>
  Credentials go into the JSON document of the authentication middleware as they are: user
  and password of the annotation are copied between the quotes, and a quote or a backslash in
  them is not escaped. (A document that is not JSON any more is dropped with a warning, and the
  frontend is registered without authentication.)
\<close>

lemma vulcan_auth_unescaped:
  assumes "CHR '':'' \<notin> set user"
  shows "\<exists>pre mid post. defaultDocument env ''auth'' Auth (user @ '':'' @ pass) = Some (pre @ user @ mid @ pass @ post) \<and>
     last pre = CHR 0x22 \<and> hd mid = CHR 0x22 \<and> last mid = CHR 0x22 \<and> hd post = CHR 0x22"
proof -
  have "defaultDocument env ''auth'' Auth (user @ '':'' @ pass) = Some (sprintf Auth [user, pass])"
    using assms by (simp add: defaultDocument_def)
  also have "sprintf Auth [user, pass] = authPre @ user @ authMid @ pass @ authPost"
    unfolding Auth_split
    by (simp add: sprintf_s [unfolded append_Cons append_Nil] authPre_def authMid_def sprintf_none authPost_def)
  finally show ?thesis
    by (intro exI [of _ authPre] exI [of _ authMid] exI [of _ authPost]) (simp add: authPre_def authMid_def authPost_def)
qed

text \<open>
  C38: middlewares are never taken away. Registering a frontend adds and replaces the middlewares
  of the object, but those the engine has from before and the object no longer has stay as they
  are: removing the annotation of a middleware (its maintenance page, say) has no effect.
\<close>

theorem vulcan_stale_middlewares_stay:
  assumes "mem_wf m" and "VulcanUpsertFrontend mem_api (Own f) m = (None, m')" and "FrontendGetID f \<noteq> []"
    and "byId em_Id (mem_mids m (FrontendGetID f)) i = Some x" and "i \<notin> em_Id ` set (vf_middlewares f)"
  shows "byId em_Id (mem_mids m' (FrontendGetID f)) i = Some x"
proof -
  let ?m1 = "emit (FrontendUpserted (vf_Frontend f)) (m\<lparr>m_Frontends := gm_put (FrontendGetID f) (vf_Frontend f) (m_Frontends m)\<rparr>)"
  note wf1 = mem_wf_upsert_frontend [OF assms(1), of "FrontendUpserted (vf_Frontend f)" "FrontendGetID f" "vf_Frontend f"]
  have "m' = upsertMiddlewares (FrontendGetID f) (vf_middlewares f) ?m1"
    using assms(2) by (auto simp: VulcanUpsertFrontend_mem split: if_splits)
  moreover have "byId em_Id (rev (filter (\<lambda>x. em_Id x \<noteq> []) (vf_middlewares f))) i = None"
    using assms(5) by (auto simp: byId_None)
  ultimately show ?thesis
    using upsertMiddlewares_view [OF wf1 assms(3), of "vf_middlewares f"] assms(4) mem_wf_sel(1) [OF assms(1)]
    by (simp add: mem_mids_def map_add_def)
qed

definition sample_maintained :: mem where
  "sample_maintained = NewMem\<lparr>m_Backends := [(''b'', vb_Backend sample_backend)],
     m_Middlewares := [(''f'', [\<lparr>em_Id = ''maintenance'', em_Priority = 1, em_Type = ''cbreaker'', em_Middleware = []\<rparr>])]\<rparr>"

definition sample_frontend :: v_frontend where
  "sample_frontend = newFrontend \<lparr>ef_Id = ''f'', ef_Route = ''PathRegexp(`.*`)'', ef_Type = ''http'', ef_BackendId = ''b'',
     ef_Settings = \<lparr>fs_Limits = \<lparr>MaxMemBodyBytes = 0, MaxBodyBytes = 0, MaxRespMemBodyBytes = 0, MaxRespBodyBytes = 0\<rparr>,
       fs_FailoverPredicate = [], fs_Hostname = [], fs_TrustForwardHeader = True, fs_PassHostHeader = True\<rparr>\<rparr>"

theorem vulcan_stale_middlewares_stay_witness:
  "byId em_Id (mem_mids (snd (VulcanUpsertFrontend mem_api (Own sample_frontend) sample_maintained)) ''f'') ''maintenance'' =
     Some \<lparr>em_Id = ''maintenance'', em_Priority = 1, em_Type = ''cbreaker'', em_Middleware = []\<rparr>"
proof -
  let ?run = "VulcanUpsertFrontend mem_api (Own sample_frontend) sample_maintained"
  have wf: "mem_wf sample_maintained" by (simp add: sample_maintained_def mem_wf_def NewMem_def gm_wf_def)
  have run: "?run = (None, snd ?run)"
    by (simp add: VulcanUpsertFrontend_mem sample_maintained_def sample_frontend_def newFrontend_def)
  have f: "FrontendGetID sample_frontend = ''f''" "vf_middlewares sample_frontend = []"
    by (simp_all add: sample_frontend_def newFrontend_def FrontendGetID_def)
  have "byId em_Id (mem_mids sample_maintained ''f'') ''maintenance'' =
      Some \<lparr>em_Id = ''maintenance'', em_Priority = 1, em_Type = ''cbreaker'', em_Middleware = []\<rparr>"
    by (simp add: sample_maintained_def mem_mids_def)
  then show ?thesis using vulcan_stale_middlewares_stay [OF wf run] by (simp add: f)
qed

end
