(* ===== verification/Engine_Vulcand.thy ===== *)
theory Engine_Vulcand
  imports Vulcand
begin

text \<open>
  The engine with the vulcand provider over the in-memory engine: what the handlers leave
  registered. The lemmas of the engine's contract are used through its interpretation.
\<close>

section \<open>Progress\<close>

text \<open>On the in-memory engine a backend is refused only for an empty identifier.\<close>

lemma upsertServersLoop_mem_ok:
  "bk \<noteq> [] \<Longrightarrow> \<forall>x \<in> set xs. es_Id x \<noteq> [] \<Longrightarrow> fst (fst (upsertServersLoop mem_api bk xs extra m)) = None"
proof (induction xs arbitrary: extra m)
  case (Cons x xs)
  then show ?case by (simp add: ClientUpsertServer_def mem_api_def MemUpsertServer_def)
qed simp

lemma VulcanUpsertBackend_mem_ok:
  assumes "BackendGetID b \<noteq> []" and "\<forall>x \<in> set (vb_servers b). es_Id x \<noteq> []"
  shows "fst (VulcanUpsertBackend mem_api rng (Own b) m) = None"
proof -
  let ?m1 = "(emit (BackendUpserted (vb_Backend b)) m)\<lparr>m_Backends := gm_put (BackendGetID b) (vb_Backend b) (m_Backends m)\<rparr>"
  have "fst (VulcanUpsertBackend mem_api rng (Own b) m) = fst (fst (upsertServersLoop mem_api (BackendGetID b) (vb_servers b)
      (extraServers (mem_srvs ?m1 (BackendGetID b))) ?m1))"
    using assms(1)
    by (auto simp: VulcanUpsertBackend_def ClientUpsertBackend_def ClientGetServers_def BackendGetID_def mem_api_def
        MemUpsertBackend_def MemGetServers_def extraServers_def mem_srvs_def split: option.splits prod.splits)
  also have "\<dots> = None" by (rule upsertServersLoop_mem_ok [OF assms])
  finally show ?thesis .
qed

lemma runAll_ok:
  assumes "\<And>x s. x \<in> set xs \<Longrightarrow> I s \<Longrightarrow> fst (f x s) = None \<and> I (snd (f x s))" and "I s"
  shows "fst (runAll f xs s) = None"
  using assms
proof (induction xs arbitrary: s)
  case (Cons x xs)
  have "fst (f x s) = None \<and> I (snd (f x s))" using Cons.prems(1) [of x s] Cons.prems(2) by simp
  then obtain s1 where "f x s = (None, s1)" and "I s1" by (metis prod.collapse)
  then show ?case using Cons by simp
qed simp

lemma addAll_servers: "addAll (\<lambda>s. VulcanAddServer (Own s)) xs b = Some (b\<lparr>vb_servers := vb_servers b @ xs\<rparr>)"
  by (induction xs arbitrary: b) (simp_all add: VulcanAddServer_def)

lemma addAll_middlewares: "addAll (\<lambda>m. VulcanAddMiddleware (Own m)) xs f = Some (f\<lparr>vf_middlewares := vf_middlewares f @ xs\<rparr>)"
  by (induction xs arbitrary: f) (simp_all add: VulcanAddMiddleware_def)

text \<open>The objects that are built for a resource.\<close>

lemma buildObject_vulcan:
  assumes "buildObject (vulcan_ops env api) r = Some (Inr (b, f))"
  obtains b0 f0 ss where "VulcanNewBackend env r = Inr b0" and "VulcanNewServers env r = Some (ss, None)"
    and "VulcanNewFrontend env r = Inr f0" and "b = b0\<lparr>vb_servers := vb_servers b0 @ ss\<rparr>"
    and "f = f0\<lparr>vf_middlewares := vf_middlewares f0 @ fst (VulcanNewMiddlewares env r)\<rparr>"
  using assms
  by (auto simp: buildObject_def vulcan_ops_def addAll_servers addAll_middlewares VulcanNewMiddlewares_def
      split: sum.splits bind_splits option.splits)

lemma VulcanNewFrontend_Inr:
  assumes "VulcanNewFrontend env r = Inr f"
  shows "r_id r \<noteq> []" and "ef_Id (vf_Frontend f) = r_id r" and "ef_BackendId (vf_Frontend f) = r_id r"
    and "vf_middlewares f = []"
  using assms
  by (auto simp: VulcanNewFrontend_def NewHTTPFrontend_def newFrontend_def Let_def split: sum.splits if_splits)

lemma VulcanNewBackend_Inr:
  assumes "VulcanNewBackend env r = Inr b"
  shows "BackendGetID b = r_id r" and "vb_servers b = []"
  using assms
  by (auto simp: VulcanNewBackend_def NewHTTPBackend_def newBackend_def BackendGetID_def Let_def
      split: sum.splits if_splits option.splits)

lemma vulcanServersLoop_ids:
  "vulcanServersLoop env xs acc = Some (ss, None) \<Longrightarrow> map es_Id ss = map es_Id acc @ map sv_id xs"
  by (induction xs arbitrary: acc)
    (auto simp: NewEngineServer_def split: option.splits sum.splits if_splits)

lemma buildObjects_In:
  "buildObjects lb rs = Some (Inr bfs) \<Longrightarrow> bf \<in> set bfs \<Longrightarrow> \<exists>r \<in> set rs. buildObject lb r = Some (Inr bf)"
  by (induction rs arbitrary: bfs) (auto split: sum.splits bind_splits)

lemma upsertObjects_vulcan_ok:
  assumes "vulcan_inv env m" and "buildObjects (vulcan_ops env mem_api) rs = Some (Inr bfs)"
    and "\<forall>r \<in> set rs. \<forall>x \<in> set (r_servers r). sv_id x \<noteq> []"
  shows "fst (upsertObjects (vulcan_ops env mem_api) bfs m) = None"
proof -
  let ?lb = "vulcan_ops env mem_api"
  have built: "BackendGetID (fst bf) \<noteq> [] \<and> (\<forall>x \<in> set (vb_servers (fst bf)). es_Id x \<noteq> []) \<and>
      ef_BackendId (vf_Frontend (snd bf)) = BackendGetID (fst bf)" if bf: "bf \<in> set bfs" for bf
  proof -
    obtain r where r: "r \<in> set rs" and "buildObject ?lb r = Some (Inr (fst bf, snd bf))"
      using buildObjects_In [OF assms(2) bf] by auto
    then obtain b0 f0 ss where b0: "VulcanNewBackend env r = Inr b0" and ss: "VulcanNewServers env r = Some (ss, None)"
        and f0: "VulcanNewFrontend env r = Inr f0" and bf': "fst bf = b0\<lparr>vb_servers := vb_servers b0 @ ss\<rparr>"
        "snd bf = f0\<lparr>vf_middlewares := vf_middlewares f0 @ fst (VulcanNewMiddlewares env r)\<rparr>"
      by (elim buildObject_vulcan)
    have "es_Id ` set ss = sv_id ` set (r_servers r)"
      using vulcanServersLoop_ids [of env "r_servers r" "[]" ss] ss unfolding VulcanNewServers_def
      by (metis append_Nil list.simps(8) image_set)
    then have "\<forall>x \<in> set ss. es_Id x \<noteq> []" using assms(3) r by (metis (no_types, lifting) imageE imageI)
    then show ?thesis
      using VulcanNewBackend_Inr [OF b0] VulcanNewFrontend_Inr [OF f0] bf' by (auto simp: BackendGetID_def)
  qed
  have one: "fst (runAll (lb_UpsertBackend ?lb) (map fst bfs) m) = None"
    by (rule runAll_ok [where I = "\<lambda>_. True"]) (use built in \<open>auto simp: VulcanUpsertBackend_mem_ok\<close>)
  then obtain m1 where m1: "runAll (lb_UpsertBackend ?lb) (map fst bfs) m = (None, m1)" by (metis prod.collapse)
  have wf1: "vulcan_inv env m1" and have_ids: "BackendGetID ` set (map fst bfs) \<subseteq> dom (gm_get (m_Backends m1))"
    using vl.be.runAll_grown [OF assms(1) m1 subset_refl] vl.be.runAll_ids [OF assms(1) m1]
    by (simp_all add: vl.be.grown_def)
  have "fst (runAll (lb_UpsertFrontend ?lb) (map snd bfs) m1) = None"
  proof (rule runAll_ok [where I = "\<lambda>m. vulcan_inv env m \<and> BackendGetID ` set (map fst bfs) \<subseteq> dom (gm_get (m_Backends m))"])
    fix f m assume f: "f \<in> set (map snd bfs)"
      and I: "vulcan_inv env m \<and> BackendGetID ` set (map fst bfs) \<subseteq> dom (gm_get (m_Backends m))"
    from f obtain b where "(b, f) \<in> set bfs" by auto
    then have "ef_BackendId (vf_Frontend f) \<in> BackendGetID ` set (map fst bfs)" using built by force
    then have ok: "lb_UpsertFrontend ?lb f m = (None, snd (lb_UpsertFrontend ?lb f m))"
      using I by (auto simp: VulcanUpsertFrontend_mem)
    then show "fst (lb_UpsertFrontend ?lb f m) = None \<and> vulcan_inv env (snd (lb_UpsertFrontend ?lb f m)) \<and>
        BackendGetID ` set (map fst bfs) \<subseteq> dom (gm_get (m_Backends (snd (lb_UpsertFrontend ?lb f m))))"
      using vl.upsert_frontend_frame [OF conjunct1 [OF I] ok] I by (metis fst_conv)
  qed (use wf1 have_ids in simp)
  then show ?thesis using m1 by (simp add: upsertObjects_def)
qed

text \<open>Adding resources on the in-memory engine, with progress.\<close>

lemma addResources_vulcan:
  assumes "vulcan_inv env m" and "buildObjects (vulcan_ops env mem_api) rs = Some (Inr bfs)"
    and "distinct (map r_id rs)" and "\<forall>r \<in> set rs. \<forall>x \<in> set (r_servers r). sv_id x \<noteq> []"
    and "\<And>i. \<not> ce_done ce i" and "ce_ok ce" and "default_policy back" and "0 \<le> MaxElapsedTime back"
  shows "\<exists>m'. addResources (vulcan_ops env mem_api) back ce rs m = Some (None, m') \<and>
     list_all (\<lambda>(b, f). vulcan_has_backend m' b \<and> vulcan_has_frontend m' f) bfs \<and>
     dom (gm_get (m_Frontends m')) = dom (gm_get (m_Frontends m)) \<union> r_id ` set rs \<and>
     dom (gm_get (m_Backends m')) = dom (gm_get (m_Backends m)) \<union> r_id ` set rs"
proof -
  let ?fn = "upsertObjects (vulcan_ops env mem_api) bfs"
  have "?fn m = (None, snd (?fn m))"
    using upsertObjects_vulcan_ok [OF assms(1,2,4)] by (metis prod.collapse)
  then have "Commit ce ?fn back m = Some (None, snd (?fn m))"
    by (rule Commit_first_attempt [OF assms(5-8)])
  then have run: "addResources (vulcan_ops env mem_api) back ce rs m = Some (None, snd (?fn m))"
    using assms(2) by (simp add: addResources_def)
  note ok = vl.addResources_success [OF assms(1) run assms(5,3)]
  have "list_all (\<lambda>(b, f). vulcan_has_backend (snd (?fn m)) b \<and> vulcan_has_frontend (snd (?fn m)) f) bfs"
    using ok(1) assms(2) by (simp add: list_all_iff)
  then show ?thesis using run ok(2,3) by blast
qed

text \<open>
  Deleting resources on the in-memory engine, with progress: the frontends this program makes use
  the backend of their own identifier, so that nothing holds a backend once its frontend is gone.
\<close>

definition own_backends :: "mem \<Rightarrow> bool" where
  "own_backends m \<longleftrightarrow> list_all (\<lambda>e. ef_BackendId (snd e) = fst e) (m_Frontends m)"

lemma deleteObject_vulcan_ok:
  assumes "own_backends m" and "k \<in> dom (gm_get (m_Frontends m))" and "k \<in> dom (gm_get (m_Backends m))"
    and "FrontendGetID f = k" and "BackendGetID b = k"
  shows "\<exists>m'. deleteObject (vulcan_ops env mem_api) f b m = (None, m') \<and> own_backends m'"
proof -
  let ?m1 = "(emit (FrontendDeleted k) m)\<lparr>m_Frontends := gm_del k (m_Frontends m)\<rparr>"
  have one: "MemDeleteFrontend k m = (None, ?m1)" using assms(2) by (auto simp: MemDeleteFrontend_def)
  have own1: "own_backends ?m1" using assms(1) by (auto simp: own_backends_def list_all_iff gm_del_def)
  have "\<not> (\<exists>f \<in> set (map snd (m_Frontends ?m1)). ef_BackendId f = k)"
    using assms(1) by (auto simp: own_backends_def list_all_iff gm_del_def)
  moreover have "gm_get (m_Backends ?m1) k \<noteq> None" using assms(3) by auto
  ultimately have "\<exists>m'. MemDeleteBackend k ?m1 = (None, m') \<and> m_Frontends m' = m_Frontends ?m1"
    unfolding MemDeleteBackend_def by (simp add: Let_def)
  then show ?thesis using one own1 assms(4,5) by (auto simp: deleteObject_def own_backends_def)
qed

lemma deleteResources_vulcan_api:
  assumes "vulcan_inv env m" and "own_backends m"
    and "\<forall>r \<in> set rs. (\<exists>b. VulcanNewBackend env r = Inr b) \<and> (\<exists>f. VulcanNewFrontend env r = Inr f)"
    and "distinct (map r_id rs)" and "r_id ` set rs \<subseteq> dom (gm_get (m_Frontends m))" and "r_id ` set rs \<subseteq> dom (gm_get (m_Backends m))"
    and "\<And>n i. \<not> ce_done (ces n) i" and "\<And>n. ce_ok (ces n)" and "default_policy policy" and "0 \<le> MaxElapsedTime policy"
    and "\<And>r f b m m'. r \<in> set rs \<Longrightarrow> FrontendGetID f = r_id r \<Longrightarrow> BackendGetID b = r_id r \<Longrightarrow>
      deleteObject (vulcan_ops env mem_api) f b m = (None, m') \<Longrightarrow> deleteObject (vulcan_ops env api) f b m = (None, m')"
  shows "\<exists>m'. deleteResources (vulcan_ops env mem_api) policy ces rs m = Some (None, m') \<and>
     deleteResources (vulcan_ops env api) policy ces rs m = Some (None, m') \<and> own_backends m'"
  using assms(1-8,11)
proof (induction rs arbitrary: m ces)
  case (Cons r rs)
  let ?lb = "vulcan_ops env mem_api" and ?api = "vulcan_ops env api"
  obtain b f where b: "VulcanNewBackend env r = Inr b" and f: "VulcanNewFrontend env r = Inr f" using Cons.prems(3) by auto
  have ids: "FrontendGetID f = r_id r" "BackendGetID b = r_id r"
    using VulcanNewFrontend_Inr(2) [OF f] VulcanNewBackend_Inr(1) [OF b] by (simp_all add: FrontendGetID_def)
  have here: "r_id r \<in> dom (gm_get (m_Frontends m))" "r_id r \<in> dom (gm_get (m_Backends m))" using Cons.prems(5,6) by simp_all
  obtain m1 where one: "deleteObject ?lb f b m = (None, m1)" and own1: "own_backends m1"
    using deleteObject_vulcan_ok [OF Cons.prems(2) here ids, of env] by blast
  have api: "deleteObject ?api f b m = (None, m1)" using Cons.prems(9) [OF _ ids one] by simp
  have com: "Commit (ces 0) (deleteObject ?lb f b) policy m = Some (None, m1)"
      "Commit (ces 0) (deleteObject ?api f b) policy m = Some (None, m1)"
    using Commit_first_attempt [where fn = "deleteObject ?lb f b" and s = m, OF Cons.prems(7,8) assms(9,10) one]
      Commit_first_attempt [where fn = "deleteObject ?api f b" and s = m, OF Cons.prems(7,8) assms(9,10) api] by simp_all
  have shrunk: "vl.shrunk env {r_id r} m m1" using vl.deleteObject_shrunk [OF Cons.prems(1) one ids(1,2)] .
  then have keep: "vulcan_inv env m1" "dom (gm_get (m_Frontends m)) - {r_id r} \<subseteq> dom (gm_get (m_Frontends m1))"
      "dom (gm_get (m_Backends m)) - {r_id r} \<subseteq> dom (gm_get (m_Backends m1))"
    unfolding vl.shrunk_def by blast+
  have "r_id r \<notin> r_id ` set rs" "r_id ` set rs \<subseteq> dom (gm_get (m_Frontends m))" "r_id ` set rs \<subseteq> dom (gm_get (m_Backends m))"
    using Cons.prems(4-6) by simp_all
  then have other: "r_id ` set rs \<subseteq> dom (gm_get (m_Frontends m)) - {r_id r}" "r_id ` set rs \<subseteq> dom (gm_get (m_Backends m)) - {r_id r}"
    by (simp_all add: subset_Diff_insert)
  note there = subset_trans [OF other(1) keep(2)] subset_trans [OF other(2) keep(3)]
  have "\<exists>m'. deleteResources ?lb policy (\<lambda>i. ces (Suc i)) rs m1 = Some (None, m') \<and>
      deleteResources ?api policy (\<lambda>i. ces (Suc i)) rs m1 = Some (None, m') \<and> own_backends m'"
  proof (rule Cons.IH [OF keep(1) own1 _ _ there])
    show "deleteObject ?api f b m = (None, m')"
      if "r \<in> set rs" "FrontendGetID f = r_id r" "BackendGetID b = r_id r" "deleteObject ?lb f b m = (None, m')" for r f b m m'
      using Cons.prems(9) [of r f b m m'] that by simp
  qed (use Cons.prems(3,4,7,8) in simp_all)
  then show ?case using b f com by (simp add: vulcan_ops_def)
qed simp

lemmas deleteResources_vulcan = deleteResources_vulcan_api [where api = mem_api]

section \<open>A registered resource\<close>

definition sample_resource :: resource where
  "sample_resource = \<lparr>r_route = \<lparr>rt_parts = []\<rparr>, r_id = ''test.bar.web'', r_annotations = [],
     r_servers = [\<lparr>sv_id = ''a'', sv_scheme = ''http'', sv_ip = ''10.0.0.1'', sv_port = 80, sv_websocket = False\<rparr>],
     r_websocket = False\<rparr>"

definition sample_policy :: exponential_backoff where
  "sample_policy = (NewExponentialBackOff 0)\<lparr>MaxElapsedTime := 10 * Second\<rparr>"

definition sample_registered :: mem where
  "sample_registered =
     (case addResources (vulcan_ops sample_vulcan mem_api) sample_policy sample_ce [sample_resource] NewMem of
        Some (_, m) \<Rightarrow> m | None \<Rightarrow> NewMem)"

lemma sample_inv [simp]: "vulcan_inv sample_vulcan NewMem"
  by (simp add: vulcan_inv_def sample_vulcan_def sample_env_def)

lemma sample_policy_ok [simp]: "default_policy sample_policy" "MaxElapsedTime sample_policy = 10 * Second"
  by (simp_all add: sample_policy_def)

lemma sample_never_done [simp]: "\<not> ce_done sample_ce i"
  by (simp add: sample_ce_def)

lemma sample_registered_inv: "vulcan_inv sample_vulcan sample_registered"
  using vl.addResources_changed [OF sample_inv, of sample_policy sample_ce "[sample_resource]"]
  by (auto simp: sample_registered_def vl.changed_def split: option.split)

lemma sample_registered_keys:
  "dom (gm_get (m_Frontends sample_registered)) = {''test.bar.web''}"
proof -
  have "map fst (m_Frontends sample_registered) = [''test.bar.web'']" by code_simp
  then show ?thesis by (metis dom_map_of_conv_image_fst image_set list.set(1,2))
qed

section \<open>Properties\<close>

text \<open>
  C10: adding resources registers them. If the objects for the resources can be built and their
  identifiers are distinct, the commit succeeds (at its first attempt), and afterwards each
  backend is registered with exactly its servers and each frontend with its middlewares; no
  other identifier was added and none was removed.
\<close>

theorem vulcand_add_resources:
  assumes "vulcan_inv env m" and "buildObjects (vulcan_ops env mem_api) rs = Some (Inr bfs)"
    and "distinct (map r_id rs)" and "\<forall>r \<in> set rs. \<forall>x \<in> set (r_servers r). sv_id x \<noteq> []"
    and "\<And>i. \<not> ce_done ce i" and "ce_ok ce" and "default_policy back" and "0 \<le> MaxElapsedTime back"
  shows "\<exists>m'. addResources (vulcan_ops env mem_api) back ce rs m = Some (None, m') \<and>
     list_all (\<lambda>(b, f). vulcan_has_backend m' b \<and> vulcan_has_frontend m' f) bfs \<and>
     dom (gm_get (m_Frontends m')) = dom (gm_get (m_Frontends m)) \<union> r_id ` set rs \<and>
     dom (gm_get (m_Backends m')) = dom (gm_get (m_Backends m)) \<union> r_id ` set rs"
  using assms by (rule addResources_vulcan)

theorem vulcand_add_resources_witness:
  "\<exists>m'. addResources (vulcan_ops sample_vulcan mem_api) sample_policy sample_ce [sample_resource] NewMem = Some (None, m') \<and>
     dom (gm_get (m_Frontends m')) = {''test.bar.web''}"
proof -
  have "case buildObjects (vulcan_ops sample_vulcan mem_api) [sample_resource] of Some (Inr bfs) \<Rightarrow> True | _ \<Rightarrow> False"
    by code_simp
  then obtain bfs where bfs: "buildObjects (vulcan_ops sample_vulcan mem_api) [sample_resource] = Some (Inr bfs)"
    by (auto split: option.splits sum.splits)
  have "\<forall>r \<in> set [sample_resource]. \<forall>x \<in> set (r_servers r). sv_id x \<noteq> []" by (simp add: sample_resource_def)
  from vulcand_add_resources [OF sample_inv bfs _ this sample_never_done ce_ok_sample sample_policy_ok(1)] show ?thesis
    by (auto simp: sample_resource_def NewMem_def)
qed

text \<open>
  C3: updating an object replaces its resources. When an update returns no error, however many
  attempts it took, the identifiers of the old object that the new one no longer has are gone
  from the load balancer, those of the new object are registered, with exactly the servers of
  the new resources, and all others are as before.
\<close>

theorem vulcand_update_resources:
  assumes "vulcan_inv env m" and "distinct (map r_id new)" and "\<And>n i. \<not> ce_done (ces n) i"
    and "updateResources (vulcan_ops env mem_api) back ces new old m = Some (None, m')"
  shows "dom (gm_get (m_Frontends m')) = (dom (gm_get (m_Frontends m)) - r_id ` set old) \<union> r_id ` set new \<and>
     dom (gm_get (m_Backends m')) = (dom (gm_get (m_Backends m)) - r_id ` set old) \<union> r_id ` set new \<and>
     (\<exists>bfs. buildObjects (vulcan_ops env mem_api) new = Some (Inr bfs) \<and>
        list_all (\<lambda>(b, f). vulcan_has_backend m' b \<and> vulcan_has_frontend m' f) bfs)"
  using vl.updateResources_success [OF assms(1,4,3,2)] by (auto simp: list_all_iff)

theorem vulcand_update_resources_witness:
  "\<exists>m'. updateResources (vulcan_ops sample_vulcan mem_api) sample_policy (\<lambda>_. sample_ce)
       [sample_resource\<lparr>r_id := ''test.bar.api''\<rparr>] [sample_resource] sample_registered = Some (None, m') \<and>
     dom (gm_get (m_Frontends m')) = {''test.bar.api''}"
proof -
  let ?new = "[sample_resource\<lparr>r_id := ''test.bar.api''\<rparr>]"
  let ?run = "updateResources (vulcan_ops sample_vulcan mem_api) sample_policy (\<lambda>_. sample_ce) ?new [sample_resource] sample_registered"
  have "case ?run of Some (None, m') \<Rightarrow> True | _ \<Rightarrow> False" by code_simp
  then obtain m' where run: "?run = Some (None, m')" by (auto split: option.splits)
  have "distinct (map r_id ?new)" by simp
  from vulcand_update_resources [OF sample_registered_inv this sample_never_done run] run show ?thesis
    by (auto simp: sample_registered_keys sample_resource_def)
qed

text \<open>
  C11: deleting resources removes them. When it returns no error, exactly the identifiers of the
  resources are gone, and every other frontend and backend is registered as it was.
\<close>

theorem vulcand_delete_resources:
  assumes "vulcan_inv env m" and "\<And>n i. \<not> ce_done (ces n) i"
    and "deleteResources (vulcan_ops env mem_api) back ces rs m = Some (None, m')"
  shows "dom (gm_get (m_Frontends m')) = dom (gm_get (m_Frontends m)) - r_id ` set rs \<and>
     dom (gm_get (m_Backends m')) = dom (gm_get (m_Backends m)) - r_id ` set rs \<and>
     (BackendGetID b \<notin> r_id ` set rs \<longrightarrow> vulcan_has_backend m' b = vulcan_has_backend m b) \<and>
     (FrontendGetID f \<notin> r_id ` set rs \<longrightarrow> vulcan_has_frontend m' f = vulcan_has_frontend m f)"
  using vl.deleteResources_success [OF assms(1,3,2)] by (simp add: vl.shrunk_def)

theorem vulcand_delete_resources_witness:
  "\<exists>m'. deleteResources (vulcan_ops sample_vulcan mem_api) sample_policy (\<lambda>_. sample_ce) [sample_resource] sample_registered =
       Some (None, m') \<and> dom (gm_get (m_Frontends m')) = {}"
proof -
  let ?run = "deleteResources (vulcan_ops sample_vulcan mem_api) sample_policy (\<lambda>_. sample_ce) [sample_resource] sample_registered"
  have "case ?run of Some (None, m') \<Rightarrow> True | _ \<Rightarrow> False" by code_simp
  then obtain m' where run: "?run = Some (None, m')" by (auto split: option.splits)
  from vulcand_delete_resources [OF sample_registered_inv sample_never_done run] run show ?thesis
    by (auto simp: sample_registered_keys sample_resource_def)
qed

text \<open>A server that fails the next calls to delete a backend, as a lost connection would.\<close>

definition flaky_api :: "(mem \<times> nat) vulcan_api" where
  "flaky_api =
     (let lift = (\<lambda>op (m, n). apsnd (\<lambda>m. (m, n)) (op m)) in
      \<lparr>va_GetStatus = (\<lambda>(m, n). (None, (m, n))),
       va_GetFrontend = (\<lambda>k (m, n). apsnd (\<lambda>m. (m, n)) (MemGetFrontend k m)),
       va_UpsertFrontend = (\<lambda>f. lift (MemUpsertFrontend f)), va_DeleteFrontend = (\<lambda>k. lift (MemDeleteFrontend k)),
       va_GetBackend = (\<lambda>k (m, n). apsnd (\<lambda>m. (m, n)) (MemGetBackend k m)),
       va_UpsertBackend = (\<lambda>b. lift (MemUpsertBackend b)),
       va_DeleteBackend = (\<lambda>k (m, n). if n > 0 then (Some (Remote ''connection reset''), (m, n - 1))
                                       else lift (MemDeleteBackend k) (m, n)),
       va_GetServers = (\<lambda>k (m, n). apsnd (\<lambda>m. (m, n)) (MemGetServers k m)),
       va_UpsertServer = (\<lambda>bk srv. lift (MemUpsertServer bk srv)),
       va_DeleteServer = (\<lambda>bk sid. lift (MemDeleteServer bk sid)),
       va_UpsertMiddleware = (\<lambda>fk md. lift (MemUpsertMiddleware fk md))\<rparr>)"

text \<open>
  C37: retrying a deletion does not help. The function that is retried deletes the frontend
  first; when one call to delete the backend then fails, every later attempt fails at the
  frontend, which is gone. The commit runs into its timeout although the server has long
  recovered, the backend stays registered, and the remaining resources are not deleted at all.
\<close>

theorem delete_retry_leaks_backend:
  assumes "ce_ok (ces 0)" and "\<And>i. \<not> ce_done (ces 0) i" and "0 < timeout"
    and "VulcanNewFrontend env r = Inr f" and "VulcanNewBackend env r = Inr b"
    and "gm_get (m_Frontends m) (r_id r) \<noteq> None"
  shows "deleteResources (vulcan_ops env flaky_api) (NewExponentialBackOff t0\<lparr>MaxElapsedTime := timeout\<rparr>) ces (r # rs) (m, 1) =
     Some (Some CommitTimeout, ((emit (FrontendDeleted (r_id r)) m)\<lparr>m_Frontends := gm_del (r_id r) (m_Frontends m)\<rparr>, 0))"
proof -
  let ?lb = "vulcan_ops env flaky_api"
  let ?pol = "NewExponentialBackOff t0\<lparr>MaxElapsedTime := timeout\<rparr>"
  let ?m1 = "(emit (FrontendDeleted (r_id r)) m)\<lparr>m_Frontends := gm_del (r_id r) (m_Frontends m)\<rparr>"
  let ?fn = "deleteObject ?lb f b"
  have ids: "FrontendGetID f = r_id r"
    using VulcanNewFrontend_Inr(2) [OF assms(4)] by (simp add: FrontendGetID_def)
  have first: "?fn (m, 1) = (Some (Remote ''connection reset''), (?m1, 0))"
    using assms(6) by (simp add: deleteObject_def flaky_api_def MemDeleteFrontend_def ids Let_def)
  have stuck: "?fn (?m1, 0) = (Some (NotFound []), (?m1, 0))"
    by (simp add: deleteObject_def flaky_api_def MemDeleteFrontend_def ids Let_def)
  have pol: "default_policy (Reset 0 ?pol)" "interval_ok (Reset 0 ?pol)" by simp_all
  have "Commit (ces 0) ?fn ?pol (m, 1) =
      commitLoop (ces 0) ?fn (Suc 0) (0 + ce_cost (ces 0) 0 + pause (ces 0) 0 (Reset 0 ?pol))
        (incrementCurrentInterval (Reset 0 ?pol)) (?m1, 0)"
    unfolding Commit_def using assms(2,3) pause_bounds(2) [OF assms(1) pol, of 0]
    by (subst commitLoop_round) (simp_all add: first del: One_nat_def)
  also have "\<dots> = Some (Some CommitTimeout, (?m1, 0))"
    by (rule commitLoop_stuck [where e = "NotFound []"]) (use pol assms(1-3) stuck in simp_all)
  finally have com: "Commit (ces 0) ?fn ?pol (m, 1) = Some (Some CommitTimeout, (?m1, 0))" .
  have "lb_NewBackend ?lb r = Inr b" "lb_NewFrontend ?lb r = Inr f"
    using assms(4,5) by (simp_all add: vulcan_ops_def)
  then show ?thesis by (simp add: com del: One_nat_def)
qed

theorem delete_retry_leaks_backend_witness:
  "deleteResources (vulcan_ops sample_vulcan flaky_api) (NewExponentialBackOff 0\<lparr>MaxElapsedTime := 10 * Second\<rparr>)
       (\<lambda>_. sample_ce) [sample_resource] (sample_registered, 1) =
     Some (Some CommitTimeout, ((emit (FrontendDeleted ''test.bar.web'') sample_registered)
       \<lparr>m_Frontends := gm_del ''test.bar.web'' (m_Frontends sample_registered)\<rparr>, 0))"
proof -
  have "case VulcanNewFrontend sample_vulcan sample_resource of Inr f \<Rightarrow> True | Inl _ \<Rightarrow> False" by code_simp
  then obtain f where f: "VulcanNewFrontend sample_vulcan sample_resource = Inr f" by (auto split: sum.splits)
  have "case VulcanNewBackend sample_vulcan sample_resource of Inr f \<Rightarrow> True | Inl _ \<Rightarrow> False" by code_simp
  then obtain b where b: "VulcanNewBackend sample_vulcan sample_resource = Inr b" by (auto split: sum.splits)
  have "gm_get (m_Frontends sample_registered) (r_id sample_resource) \<noteq> None"
    using sample_registered_keys by (auto simp: sample_resource_def)
  then have "deleteResources (vulcan_ops sample_vulcan flaky_api) (NewExponentialBackOff 0\<lparr>MaxElapsedTime := 10 * Second\<rparr>)
       (\<lambda>_. sample_ce) [sample_resource] (sample_registered, 1) =
     Some (Some CommitTimeout,
       ((emit (FrontendDeleted (r_id sample_resource)) sample_registered)
         \<lparr>m_Frontends := gm_del (r_id sample_resource) (m_Frontends sample_registered)\<rparr>, 0))"
    by (intro delete_retry_leaks_backend [OF _ _ _ f b]) simp_all
  then show ?thesis by (simp add: sample_resource_def del: One_nat_def)
qed

lemma Add_service_vulcan:
  assumes "vulcan_inv env (e_lb st)" and "default_policy back" and "0 \<le> MaxElapsedTime back"
    and "\<And>i. \<not> ce_done (ces 0) i" and "ce_ok (ces 0)"
    and "GenResources (ve_go env) cl (KService svc) (e_cache st) = Some ((rs, er), k)"
    and "buildObjects (vulcan_ops env mem_api) rs = Some (Inr bfs)"
    and "distinct (map (portID svc) (svc_ports svc))"
  shows "\<exists>m'. Add \<lparr>e_env = ve_go env, e_client = cl, e_backoff = back, e_ops = vulcan_ops env mem_api\<rparr> ces (KService svc) st =
       Some \<lparr>e_cache = k, e_lb = m'\<rparr> \<and>
     list_all (\<lambda>(b, f). vulcan_has_backend m' b \<and> vulcan_has_frontend m' f) bfs \<and>
     dom (gm_get (m_Frontends m')) = dom (gm_get (m_Frontends (e_lb st))) \<union> portID svc ` set (svc_ports svc) \<and>
     dom (gm_get (m_Backends m')) = dom (gm_get (m_Backends (e_lb st))) \<union> portID svc ` set (svc_ports svc)"
proof -
  note gen = GenResources_Service [OF assms(6)]
  have "distinct (map r_id rs)" using gen(1) assms(8) by (metis mset_eq_imp_distinct_iff)
  moreover have "r_id ` set rs = portID svc ` set (svc_ports svc)"
    using gen(1) by (metis image_set set_mset_mset)
  ultimately show ?thesis
    using addResources_vulcan [OF assms(1,7) _ gen(2) assms(4,5,2,3)] assms(6) by (auto simp: Add_def)
qed

lemma Delete_service_vulcan:
  assumes "vulcan_inv env (e_lb st)" and "own_backends (e_lb st)" and "default_policy policy" and "0 \<le> MaxElapsedTime policy"
    and "\<And>n i. \<not> ce_done (ces n) i" and "\<And>n. ce_ok (ces n)"
    and "GenResources (ve_go env) cl (KService svc) (e_cache st) = Some ((rs, er), k)"
    and "\<forall>r \<in> set rs. (\<exists>b. VulcanNewBackend env r = Inr b) \<and> (\<exists>f. VulcanNewFrontend env r = Inr f)"
    and "distinct (map (portID svc) (svc_ports svc))"
    and "portID svc ` set (svc_ports svc) \<subseteq> dom (gm_get (m_Frontends (e_lb st)))"
    and "portID svc ` set (svc_ports svc) \<subseteq> dom (gm_get (m_Backends (e_lb st)))"
  shows "\<exists>k' m'. Delete \<lparr>e_env = ve_go env, e_client = cl, e_backoff = policy, e_ops = vulcan_ops env mem_api\<rparr> ces (KService svc) st =
       Some \<lparr>e_cache = k', e_lb = m'\<rparr> \<and> vl.shrunk env (portID svc ` set (svc_ports svc)) (e_lb st) m' \<and>
     dom (gm_get (m_Frontends m')) = dom (gm_get (m_Frontends (e_lb st))) - portID svc ` set (svc_ports svc) \<and>
     dom (gm_get (m_Backends m')) = dom (gm_get (m_Backends (e_lb st))) - portID svc ` set (svc_ports svc)"
proof -
  note gen = GenResources_Service [OF assms(7)]
  have ids: "r_id ` set rs = portID svc ` set (svc_ports svc)" using gen(1) by (metis image_set set_mset_mset)
  have dist: "distinct (map r_id rs)" using gen(1) assms(9) by (metis mset_eq_imp_distinct_iff)
  have "\<exists>m'. deleteResources (vulcan_ops env mem_api) policy ces rs (e_lb st) = Some (None, m') \<and>
      deleteResources (vulcan_ops env mem_api) policy ces rs (e_lb st) = Some (None, m') \<and> own_backends m'"
    by (rule deleteResources_vulcan [OF assms(1,2,8) dist _ _ assms(5,6,3,4)]) (simp_all add: ids assms(10,11))
  then obtain m' where run: "deleteResources (vulcan_ops env mem_api) policy ces rs (e_lb st) = Some (None, m')" by (elim exE conjE)
  have "Delete \<lparr>e_env = ve_go env, e_client = cl, e_backoff = policy, e_ops = vulcan_ops env mem_api\<rparr> ces (KService svc) st =
      Some \<lparr>e_cache = ServiceDeleted (om_namespace (svc_meta svc)) (om_name (svc_meta svc)) k, e_lb = m'\<rparr>"
    by (simp add: Delete_def assms(7) run)
  then show ?thesis
    using vl.deleteResources_success [OF assms(1) run assms(5), unfolded ids] by (intro exI conjI) blast+
qed

definition sample_engine :: "(mem, v_frontend, v_backend, eng_server, eng_middleware) engine" where
  "sample_engine = \<lparr>e_env = ve_go sample_vulcan, e_client = sample_client, e_backoff = sample_policy,
     e_ops = vulcan_ops sample_vulcan mem_api\<rparr>"

text \<open>
  After the handler of a deleted Service returned, the Service is no longer mapped to an
  Ingress: looking its Ingress up fails at once, without asking the store or the server,
  whatever became of the commits.
\<close>

lemma delete_service_forgets_ingress:
  assumes "Delete e ces (KService svc) st = Some st'"
  shows "GetIngress now cl (om_namespace (svc_meta svc)) (om_name (svc_meta svc)) (e_cache st') =
     (Inl (Err (''No Ingress associated with Service('' @
        quote (cacheLookupKey (om_namespace (svc_meta svc)) (om_name (svc_meta svc))) @ '')'')), e_cache st')"
  using assms by (auto simp: Delete_def GetIngress_def ServiceDeleted_def Let_def split: bind_splits prod.splits)

end
