(* ===== verification/Delta_FIFO.thy ===== *)
theory Delta_FIFO
  imports Kube_Cache
begin

text \<open>
  The queue between the watch on the server and the handlers, \<^verbatim>\<open>pkg/client/cache/delta_fifo.go\<close>:
  for every key that changed the list of its changes, and the keys in the order they are to be
  handled. The locks of the Go queue make each operation one step. \<^verbatim>\<open>Pop\<close> blocks on an empty
  queue, which is \<open>None\<close>.
\<close>

section \<open>Deltas\<close>

datatype delta_type = Added | Updated | Deleted | Sync

record delta =
  d_Type :: delta_type
  d_Object :: kobject

definition Newest :: "delta list \<Rightarrow> delta option" where
  "Newest d = (if length d > 0 then Some (last d) else None)"

definition Oldest :: "delta list \<Rightarrow> delta option" where
  "Oldest d = (if length d > 0 then Some (hd d) else None)"

definition isDeletionDup :: "delta \<Rightarrow> delta \<Rightarrow> delta option" where
  "isDeletionDup a b =
     (if d_Type b \<noteq> Deleted \<or> d_Type a \<noteq> Deleted then None
      else (case d_Object b of KTombstone _ _ \<Rightarrow> Some a | _ \<Rightarrow> Some b))"

definition isDup :: "delta \<Rightarrow> delta \<Rightarrow> delta option" where
  "isDup a b = (case isDeletionDup a b of Some out \<Rightarrow> Some out | None \<Rightarrow> None)"

definition dedupDeltas :: "delta list \<Rightarrow> delta list" where
  "dedupDeltas deltas =
     (let n = length deltas in
      if n < 2 then deltas
      else (case isDup (deltas ! (n - 1)) (deltas ! (n - 2)) of
              Some out \<Rightarrow> take (n - 2) deltas @ [out]
            | None \<Rightarrow> deltas))"

section \<open>The queue\<close>

record delta_fifo =
  f_items :: "(string, delta list) gomap"
  f_queue :: "string list"

text \<open>
  The key function, the compressor if there is one, and what the consumer of the queue is known
  to have: its keys and a look-up.
\<close>

record known_objects =
  ko_ListKeys :: "string list"
  ko_GetByKey :: "string \<Rightarrow> err + kobject option"

record fifo_config =
  fc_keyFunc :: "store_arg \<Rightarrow> err + string"
  fc_compressor :: "(delta list \<Rightarrow> delta list) option"
  fc_range :: "string list \<Rightarrow> string list"

definition NewDeltaFIFO :: delta_fifo where
  "NewDeltaFIFO = \<lparr>f_items = [], f_queue = []\<rparr>"

definition ErrZeroLengthDeltasObject :: err where
  "ErrZeroLengthDeltasObject = Err (''0 length Deltas object; can'' @ [CHR 0x27] @ ''t get key'')"

definition KeyOf :: "fifo_config \<Rightarrow> kobject \<Rightarrow> err + string" where
  "KeyOf fc obj = (case obj of KTombstone key _ \<Rightarrow> Inr key | _ \<Rightarrow> fc_keyFunc fc (Obj obj))"

definition KeyOfDeltas :: "fifo_config \<Rightarrow> delta list \<Rightarrow> err + string" where
  "KeyOfDeltas fc d = (case Newest d of None \<Rightarrow> Inl ErrZeroLengthDeltasObject | Some n \<Rightarrow> KeyOf fc (d_Object n))"

definition queueActionLocked :: "fifo_config \<Rightarrow> delta_type \<Rightarrow> kobject \<Rightarrow> delta_fifo \<Rightarrow> err option \<times> delta_fifo" where
  "queueActionLocked fc actionType obj f =
     (case KeyOf fc obj of
        Inl er \<Rightarrow> (Some er, f)
      | Inr key \<Rightarrow>
          (let old = gm_get (f_items f) key;
               newDeltas = dedupDeltas ((case old of Some d \<Rightarrow> d | None \<Rightarrow> []) @ [\<lparr>d_Type = actionType, d_Object = obj\<rparr>]);
               newDeltas = (case fc_compressor fc of Some compress \<Rightarrow> compress newDeltas | None \<Rightarrow> newDeltas)
           in if length newDeltas > 0
              then (None, f\<lparr>f_queue := (if old = None then f_queue f @ [key] else f_queue f),
                            f_items := gm_put key newDeltas (f_items f)\<rparr>)
              else if old \<noteq> None then (None, f\<lparr>f_items := gm_del key (f_items f)\<rparr>)
              else (None, f)))"

definition FifoAdd :: "fifo_config \<Rightarrow> kobject \<Rightarrow> delta_fifo \<Rightarrow> err option \<times> delta_fifo" where
  "FifoAdd fc obj f = queueActionLocked fc Added obj f"

definition FifoUpdate :: "fifo_config \<Rightarrow> kobject \<Rightarrow> delta_fifo \<Rightarrow> err option \<times> delta_fifo" where
  "FifoUpdate fc obj f = queueActionLocked fc Updated obj f"

text \<open>A deletion of what the consumer does not have is dropped (or, without known objects, of what is not queued).\<close>

definition FifoDelete :: "fifo_config \<Rightarrow> known_objects option \<Rightarrow> kobject \<Rightarrow> delta_fifo \<Rightarrow> err option \<times> delta_fifo" where
  "FifoDelete fc known obj f =
     (case KeyOf fc obj of
        Inl er \<Rightarrow> (Some er, f)
      | Inr key \<Rightarrow>
          (case known of
             None \<Rightarrow> if gm_get (f_items f) key = None then (None, f) else queueActionLocked fc Deleted obj f
           | Some ko \<Rightarrow> if ko_GetByKey ko key = Inr None then (None, f) else queueActionLocked fc Deleted obj f))"

text \<open>On an empty list of deltas \<^verbatim>\<open>Newest()\<close> is nil, and reading its object panics.\<close>

definition AddIfNotPresent :: "fifo_config \<Rightarrow> delta list \<Rightarrow> delta_fifo \<Rightarrow> (err option \<times> delta_fifo) go" where
  "AddIfNotPresent fc deltas f =
     (case Newest deltas of
        None \<Rightarrow> None
      | Some n \<Rightarrow>
          Some (case KeyOf fc (d_Object n) of
                  Inl er \<Rightarrow> (Some er, f)
                | Inr key \<Rightarrow>
                    if gm_get (f_items f) key \<noteq> None then (None, f)
                    else (None, f\<lparr>f_queue := f_queue f @ [key], f_items := gm_put key deltas (f_items f)\<rparr>)))"

definition FifoList :: "fifo_config \<Rightarrow> delta_fifo \<Rightarrow> (kobject list) go" where
  "FifoList fc f = those (map (\<lambda>(k, item). map_option d_Object (Newest item)) (gm_range (fc_range fc) (f_items f)))"

definition FifoListKeys :: "fifo_config \<Rightarrow> delta_fifo \<Rightarrow> string list" where
  "FifoListKeys fc f = map fst (gm_range (fc_range fc) (f_items f))"

definition FifoGetByKey :: "string \<Rightarrow> delta_fifo \<Rightarrow> delta list option" where
  "FifoGetByKey key f = gm_get (f_items f) key"

definition FifoGet :: "fifo_config \<Rightarrow> kobject \<Rightarrow> delta_fifo \<Rightarrow> err + delta list option" where
  "FifoGet fc obj f = (case KeyOf fc obj of Inl er \<Rightarrow> Inl er | Inr key \<Rightarrow> Inr (FifoGetByKey key f))"

fun popLoop :: "string list \<Rightarrow> (string, delta list) gomap \<Rightarrow> (delta list \<times> delta_fifo) option" where
  "popLoop [] items = None"
| "popLoop (key # queue) items =
     (case gm_get items key of
        None \<Rightarrow> popLoop queue items
      | Some item \<Rightarrow> Some (item, \<lparr>f_items = gm_del key items, f_queue = queue\<rparr>))"

definition Pop :: "delta_fifo \<Rightarrow> (delta list \<times> delta_fifo) option" where
  "Pop f = popLoop (f_queue f) (f_items f)"

text \<open>The first error ends \<^verbatim>\<open>Replace\<close>; what was queued before stays queued.\<close>

fun replaceLoop :: "fifo_config \<Rightarrow> kobject list \<Rightarrow> string set \<Rightarrow> delta_fifo \<Rightarrow> (err + string set) \<times> delta_fifo" where
  "replaceLoop fc [] keys f = (Inr keys, f)"
| "replaceLoop fc (item # list) keys f =
     (case KeyOf fc item of
        Inl er \<Rightarrow> (Inl er, f)
      | Inr key \<Rightarrow>
          (case queueActionLocked fc Sync item f of
             (Some er, f) \<Rightarrow> (Inl er, f)
           | (None, f) \<Rightarrow> replaceLoop fc list (insert key keys) f))"

fun deleteLoop :: "fifo_config \<Rightarrow> (string \<Rightarrow> kobject option) \<Rightarrow> string set \<Rightarrow> string list \<Rightarrow> delta_fifo \<Rightarrow> err option \<times> delta_fifo" where
  "deleteLoop fc deletedObj keys [] f = (None, f)"
| "deleteLoop fc deletedObj keys (k # ks) f =
     (if k \<in> keys then deleteLoop fc deletedObj keys ks f
      else (case queueActionLocked fc Deleted (KTombstone k (deletedObj k)) f of
              (Some er, f) \<Rightarrow> (Some er, f)
            | (None, f) \<Rightarrow> deleteLoop fc deletedObj keys ks f))"

definition FifoReplace :: "fifo_config \<Rightarrow> known_objects option \<Rightarrow> kobject list \<Rightarrow> delta_fifo \<Rightarrow> err option \<times> delta_fifo" where
  "FifoReplace fc known list f =
     (case replaceLoop fc list {} f of
        (Inl er, f) \<Rightarrow> (Some er, f)
      | (Inr keys, f) \<Rightarrow>
          (case known of
             None \<Rightarrow>
               deleteLoop fc (\<lambda>k. Option.bind (gm_get (f_items f) k) (\<lambda>d. map_option d_Object (Newest d))) keys
                 (fc_range fc (map fst (f_items f))) f
           | Some ko \<Rightarrow>
               deleteLoop fc (\<lambda>k. case ko_GetByKey ko k of Inr obj \<Rightarrow> obj | Inl er \<Rightarrow> None) keys (ko_ListKeys ko) f))"

section \<open>The invariant of the queue\<close>

text \<open>
  What the comment on the structure promises: the queued keys are those of the items, each once,
  and no item is empty. (A compressor could empty an item, and leave its key in the queue.)
\<close>

definition fifo_wf :: "delta_fifo \<Rightarrow> bool" where
  "fifo_wf f \<longleftrightarrow> gm_wf (f_items f) \<and> distinct (f_queue f) \<and> set (f_queue f) = dom (gm_get (f_items f)) \<and>
     (\<forall>k d. gm_get (f_items f) k = Some d \<longrightarrow> d \<noteq> [])"

lemma fifo_wf_New [simp]: "fifo_wf NewDeltaFIFO"
  by (simp add: fifo_wf_def NewDeltaFIFO_def)

lemma dedupDeltas_neq_Nil [simp]: "ds \<noteq> [] \<Longrightarrow> dedupDeltas ds \<noteq> []"
  by (auto simp: dedupDeltas_def Let_def split: option.split)

lemma queueActionLocked_eq:
  assumes "fc_compressor fc = None" and "KeyOf fc obj = Inr key"
  shows "queueActionLocked fc t obj f =
     (None, f\<lparr>f_queue := (if gm_get (f_items f) key = None then f_queue f @ [key] else f_queue f),
        f_items := gm_put key (dedupDeltas ((case gm_get (f_items f) key of Some d \<Rightarrow> d | None \<Rightarrow> []) @
          [\<lparr>d_Type = t, d_Object = obj\<rparr>])) (f_items f)\<rparr>)"
  using assms by (auto simp: queueActionLocked_def Let_def)

lemma fifo_wf_append:
  assumes "fifo_wf f" and "d \<noteq> []"
  shows "fifo_wf (f\<lparr>f_queue := (if gm_get (f_items f) k = None then f_queue f @ [k] else f_queue f),
     f_items := gm_put k d (f_items f)\<rparr>)"
  using assms by (auto simp: fifo_wf_def split: if_splits)

lemma fifo_wf_new_key:
  "fifo_wf f \<Longrightarrow> d \<noteq> [] \<Longrightarrow> gm_get (f_items f) k = None \<Longrightarrow>
   fifo_wf (f\<lparr>f_queue := f_queue f @ [k], f_items := gm_put k d (f_items f)\<rparr>)"
  using fifo_wf_append [of f d k] by simp

lemma fifo_wf_queueAction [simp, intro]:
  assumes "fc_compressor fc = None" and "fifo_wf f"
  shows "fifo_wf (snd (queueActionLocked fc t obj f))"
proof (cases "KeyOf fc obj")
  case (Inr key)
  then show ?thesis using queueActionLocked_eq [OF assms(1) Inr] fifo_wf_append [OF assms(2)] by simp
qed (use assms in \<open>simp add: queueActionLocked_def\<close>)

lemma fifo_wf_replaceLoop [simp, intro]:
  "fc_compressor fc = None \<Longrightarrow> fifo_wf f \<Longrightarrow> fifo_wf (snd (replaceLoop fc list keys f))"
proof (induction list arbitrary: keys f)
  case (Cons item list)
  obtain er f1 where q: "queueActionLocked fc Sync item f = (er, f1)" by fastforce
  then have "fifo_wf f1" using fifo_wf_queueAction [OF Cons.prems, of Sync item] by simp
  with q Cons show ?case by (auto split: sum.split option.split)
qed simp

lemma fifo_wf_deleteLoop [simp, intro]:
  "fc_compressor fc = None \<Longrightarrow> fifo_wf f \<Longrightarrow> fifo_wf (snd (deleteLoop fc del keys ks f))"
proof (induction ks arbitrary: f)
  case (Cons k ks)
  obtain er f1 where q: "queueActionLocked fc Deleted (KTombstone k (del k)) f = (er, f1)" by fastforce
  then have "fifo_wf f1" using fifo_wf_queueAction [OF Cons.prems, of Deleted "KTombstone k (del k)"] by simp
  with q Cons show ?case by (auto split: option.split)
qed simp

lemma fifo_wf_Replace [simp, intro]:
  assumes "fc_compressor fc = None" and "fifo_wf f"
  shows "fifo_wf (snd (FifoReplace fc known list f))"
proof (cases "replaceLoop fc list {} f")
  case (Pair r f1)
  then have "fifo_wf f1" using fifo_wf_replaceLoop [OF assms, of list "{}"] by simp
  with Pair assms(1) show ?thesis by (auto simp: FifoReplace_def split: sum.split option.split)
qed

text \<open>Under the invariant the loop of \<^verbatim>\<open>Pop\<close> takes the first key; it never skips one.\<close>

lemma Pop_wf:
  assumes "fifo_wf f" and "f_queue f = k # q"
  shows "\<exists>d. gm_get (f_items f) k = Some d \<and> d \<noteq> [] \<and> Pop f = Some (d, \<lparr>f_items = gm_del k (f_items f), f_queue = q\<rparr>)"
    and "fifo_wf \<lparr>f_items = gm_del k (f_items f), f_queue = q\<rparr>"
proof -
  have "k \<in> dom (gm_get (f_items f))" using assms by (auto simp: fifo_wf_def)
  then show "\<exists>d. gm_get (f_items f) k = Some d \<and> d \<noteq> [] \<and> Pop f = Some (d, \<lparr>f_items = gm_del k (f_items f), f_queue = q\<rparr>)"
    using assms by (auto simp: Pop_def fifo_wf_def)
  have "set q = dom (gm_get (f_items f)) - {k}"
    using assms by (auto simp: fifo_wf_def)
  then show "fifo_wf \<lparr>f_items = gm_del k (f_items f), f_queue = q\<rparr>"
    using assms by (auto simp: fifo_wf_def split: if_splits)
qed

inductive fifo_step :: "fifo_config \<Rightarrow> delta_fifo \<Rightarrow> delta_fifo \<Rightarrow> bool" for fc where
  add: "fifo_step fc f (snd (FifoAdd fc obj f))"
| update: "fifo_step fc f (snd (FifoUpdate fc obj f))"
| delete: "fifo_step fc f (snd (FifoDelete fc known obj f))"
| requeue: "AddIfNotPresent fc ds f = Some (e, f') \<Longrightarrow> fifo_step fc f f'"
| replace: "fifo_step fc f (snd (FifoReplace fc known list f))"
| pop: "Pop f = Some (ds, f') \<Longrightarrow> fifo_step fc f f'"

inductive fifo_reachable :: "fifo_config \<Rightarrow> delta_fifo \<Rightarrow> bool" for fc where
  new: "fifo_reachable fc NewDeltaFIFO"
| step: "fifo_reachable fc f \<Longrightarrow> fifo_step fc f f' \<Longrightarrow> fifo_reachable fc f'"

lemma fifo_step_wf: "fifo_step fc f f' \<Longrightarrow> fc_compressor fc = None \<Longrightarrow> fifo_wf f \<Longrightarrow> fifo_wf f'"
proof (induction rule: fifo_step.induct)
  case (delete f known obj)
  then show ?case by (auto simp: FifoDelete_def split: sum.split option.split)
next
  case (requeue ds f e f')
  then show ?case
    by (auto simp: AddIfNotPresent_def Newest_def intro: fifo_wf_new_key split: sum.splits if_splits)
next
  case (pop f ds f')
  show ?case
  proof (cases "f_queue f")
    case Nil
    with pop show ?thesis by (simp add: Pop_def)
  next
    case (Cons k q)
    from Pop_wf [OF pop(3) this] pop(1) show ?thesis by auto
  qed
qed (auto simp: FifoAdd_def FifoUpdate_def)

lemma fifo_reachable_wf: "fifo_reachable fc f \<Longrightarrow> fc_compressor fc = None \<Longrightarrow> fifo_wf f"
  by (induction rule: fifo_reachable.induct) (auto intro: fifo_step_wf)

section \<open>Properties\<close>


definition sample_fifo_config :: fifo_config where
  "sample_fifo_config = \<lparr>fc_keyFunc = MetaNamespaceKeyFunc, fc_compressor = None, fc_range = (\<lambda>ks. ks)\<rparr>"


end
