(* ===== verification/Informer.thy ===== *)
theory Informer
  imports Delta_FIFO
begin

text \<open>
  The informer of \<^verbatim>\<open>pkg/controller/framework/controller.go\<close>: a reflector feeds the changes it sees
  on the server into a \<open>delta_fifo\<close>, and a loop takes them out, keeps the client's copy of the
  objects and calls the handlers. The two run in different threads: between any two steps of the
  loop (taking the deltas of a key, processing one of them) the reflector may have moved.
\<close>

section \<open>Handlers\<close>

text \<open>The handler functions work on a state \<open>'w\<close> and may panic. Each may be missing.\<close>

record 'w handler_funcs =
  AddFunc :: "(kobject \<Rightarrow> 'w \<Rightarrow> 'w go) option"
  UpdateFunc :: "(kobject \<Rightarrow> kobject \<Rightarrow> 'w \<Rightarrow> 'w go) option"
  DeleteFunc :: "(kobject \<Rightarrow> 'w \<Rightarrow> 'w go) option"

definition OnAdd :: "'w handler_funcs \<Rightarrow> kobject \<Rightarrow> 'w \<Rightarrow> 'w go" where
  "OnAdd h obj w = (case AddFunc h of Some f \<Rightarrow> f obj w | None \<Rightarrow> Some w)"

definition OnUpdate :: "'w handler_funcs \<Rightarrow> kobject \<Rightarrow> kobject \<Rightarrow> 'w \<Rightarrow> 'w go" where
  "OnUpdate h old obj w = (case UpdateFunc h of Some f \<Rightarrow> f old obj w | None \<Rightarrow> Some w)"

definition OnDelete :: "'w handler_funcs \<Rightarrow> kobject \<Rightarrow> 'w \<Rightarrow> 'w go" where
  "OnDelete h obj w = (case DeleteFunc h of Some f \<Rightarrow> f obj w | None \<Rightarrow> Some w)"

section \<open>The informer\<close>

record 'w informer =
  in_fifo :: delta_fifo
  in_client :: store
  in_flight :: "delta list"   \<comment> \<open>taken from the queue and not yet processed\<close>
  in_world :: 'w

definition NewInformer :: "'w \<Rightarrow> 'w informer" where
  "NewInformer w = \<lparr>in_fifo = NewDeltaFIFO, in_client = NewStore DeletionHandlingKey, in_flight = [], in_world = w\<rparr>"

definition informer_config :: "(string list \<Rightarrow> string list) \<Rightarrow> fifo_config" where
  "informer_config rng = \<lparr>fc_keyFunc = MetaNamespaceKeyFunc, fc_compressor = None, fc_range = rng\<rparr>"

definition knownObjects :: "(string list \<Rightarrow> string list) \<Rightarrow> store \<Rightarrow> known_objects" where
  "knownObjects rng client =
     \<lparr>ko_ListKeys = StoreListKeys rng client, ko_GetByKey = (\<lambda>k. Inr (StoreGetByKey 0 client k))\<rparr>"

definition processDelta :: "'w handler_funcs \<Rightarrow> delta \<Rightarrow> store \<times> 'w \<Rightarrow> (err option \<times> store \<times> 'w) go" where
  "processDelta h d = (\<lambda>(client, w).
     if d_Type d = Deleted then
       (case StoreDelete (d_Object d) client of
          (Some er, client) \<Rightarrow> Some (Some er, client, w)
        | (None, client) \<Rightarrow> do { w \<leftarrow> OnDelete h (d_Object d) w; Some (None, client, w) })
     else
       (case StoreGet 0 client (Obj (d_Object d)) of
          Inr (Some old) \<Rightarrow>
            (case StoreUpdate 0 (d_Object d) client of
               (Some er, client) \<Rightarrow> Some (Some er, client, w)
             | (None, client) \<Rightarrow> do { w \<leftarrow> OnUpdate h old (d_Object d) w; Some (None, client, w) })
        | _ \<Rightarrow>
            (case StoreAdd 0 (d_Object d) client of
               (Some er, client) \<Rightarrow> Some (Some er, client, w)
             | (None, client) \<Rightarrow> do { w \<leftarrow> OnAdd h (d_Object d) w; Some (None, client, w) })))"

text \<open>\<^verbatim>\<open>Process\<close>: the deltas of a key, from oldest to newest; an error ends it.\<close>

fun Process :: "'w handler_funcs \<Rightarrow> delta list \<Rightarrow> store \<times> 'w \<Rightarrow> (err option \<times> store \<times> 'w) go" where
  "Process h [] (client, w) = Some (None, client, w)"
| "Process h (d # ds) (client, w) =
     (case processDelta h d (client, w) of
        None \<Rightarrow> None
      | Some (Some er, client, w) \<Rightarrow> Some (Some er, client, w)
      | Some (None, client, w) \<Rightarrow> Process h ds (client, w))"

text \<open>
  \<^verbatim>\<open>processLoop\<close>, until \<^verbatim>\<open>Pop\<close> blocks. \<^verbatim>\<open>NewInformer\<close> sets \<^verbatim>\<open>RetryOnError\<close> to false, so that the
  error of \<^verbatim>\<open>Process\<close> is dropped, and with it the deltas that were left.
\<close>

lemma popLoop_shorter: "popLoop q items = Some (ds, f) \<Longrightarrow> length (f_queue f) < length q"
  by (induction q items rule: popLoop.induct) (force split: option.splits)+

lemma Pop_shorter: "Pop f = Some (ds, f') \<Longrightarrow> length (f_queue f') < length (f_queue f)"
  by (auto simp: Pop_def dest: popLoop_shorter)

function processLoop :: "'w handler_funcs \<Rightarrow> delta_fifo \<Rightarrow> store \<times> 'w \<Rightarrow> (delta_fifo \<times> store \<times> 'w) go" where
  "processLoop h f s =
     (case Pop f of
        None \<Rightarrow> Some (f, s)
      | Some (obj, f) \<Rightarrow>
          (case Process h obj s of
             None \<Rightarrow> None
           | Some (er, s) \<Rightarrow> processLoop h f s))"
  by pat_completeness auto

termination by (relation "measure (\<lambda>(h, f, s). length (f_queue f))") (auto dest: Pop_shorter)

declare processLoop.simps [simp del]

section \<open>The reflector\<close>

text \<open>
  What the watch delivers, \<^verbatim>\<open>watchHandler\<close>: an event of an unexpected type is skipped, and one
  whose object has no metadata; errors of the queue are dropped. (An error event ends the watch, and
  with it this loop.) A list replaces everything, \<^verbatim>\<open>syncWith\<close>.
\<close>

definition hasMeta :: "kobject \<Rightarrow> bool" where
  "hasMeta obj = (case obj of KTombstone _ _ \<Rightarrow> False | KOther \<Rightarrow> False | _ \<Rightarrow> True)"

datatype watch_event = WatchAdded kobject | WatchModified kobject | WatchDeleted kobject

fun watchEvent ::
  "(string list \<Rightarrow> string list) \<Rightarrow> (kobject \<Rightarrow> bool) \<Rightarrow> watch_event \<Rightarrow> store \<Rightarrow> delta_fifo \<Rightarrow> delta_fifo" where
  "watchEvent rng expected (WatchAdded obj) client f =
     (if expected obj \<and> hasMeta obj then snd (FifoAdd (informer_config rng) obj f) else f)"
| "watchEvent rng expected (WatchModified obj) client f =
     (if expected obj \<and> hasMeta obj then snd (FifoUpdate (informer_config rng) obj f) else f)"
| "watchEvent rng expected (WatchDeleted obj) client f =
     (if expected obj \<and> hasMeta obj then snd (FifoDelete (informer_config rng) (Some (knownObjects rng client)) obj f) else f)"

definition syncWith :: "(string list \<Rightarrow> string list) \<Rightarrow> kobject list \<Rightarrow> store \<Rightarrow> delta_fifo \<Rightarrow> err option \<times> delta_fifo" where
  "syncWith rng items client f = FifoReplace (informer_config rng) (Some (knownObjects rng client)) items f"

section \<open>What is pending\<close>

text \<open>The effect of a list of deltas on the object of their key.\<close>

definition effect1 :: "delta \<Rightarrow> kobject option \<Rightarrow> kobject option" where
  "effect1 d cur = (if d_Type d = Deleted then None else Some (d_Object d))"

definition effect :: "delta list \<Rightarrow> kobject option \<Rightarrow> kobject option" where
  "effect ds cur = fold effect1 ds cur"

definition objKey :: "kobject \<Rightarrow> err + string" where
  "objKey obj = KeyOf (informer_config (\<lambda>ks. ks)) obj"

definition deltaKey :: "delta \<Rightarrow> err + string" where
  "deltaKey d = objKey (d_Object d)"

definition queued :: "delta_fifo \<Rightarrow> string \<Rightarrow> delta list" where
  "queued f k = (case gm_get (f_items f) k of Some ds \<Rightarrow> ds | None \<Rightarrow> [])"

definition pending :: "'w informer \<Rightarrow> string \<Rightarrow> delta list" where
  "pending i k = filter (\<lambda>d. deltaKey d = Inr k) (in_flight i) @ queued (in_fifo i) k"

abbreviation client :: "'w informer \<Rightarrow> string \<Rightarrow> kobject option" where
  "client i k \<equiv> StoreGetByKey 0 (in_client i) k"

lemma effect_simps [simp]:
  "effect [] cur = cur" "effect (d # ds) cur = effect ds (effect1 d cur)"
  "effect (ds @ es) cur = effect es (effect ds cur)"
  by (simp_all add: effect_def)

lemma effect1_const: "effect1 d a = effect1 d b"
  by (simp add: effect1_def)

lemma KeyOf_range [simp]: "KeyOf (informer_config rng) obj = objKey obj"
  by (simp add: objKey_def KeyOf_def informer_config_def split: kobject.split)

lemma informer_config_compressor [simp]: "fc_compressor (informer_config rng) = None"
  by (simp add: informer_config_def)

lemma isDup_Some: "isDup a b = Some out \<Longrightarrow> d_Type a = Deleted \<and> d_Type b = Deleted \<and> (out = a \<or> out = b)"
  by (auto simp: isDup_def isDeletionDup_def split: option.splits if_splits kobject.splits)

lemma dedup_snoc:
  "dedupDeltas (ds @ [d]) = ds @ [d] \<or>
   (\<exists>es e out. ds = es @ [e] \<and> isDup d e = Some out \<and> dedupDeltas (ds @ [d]) = es @ [out])"
proof (cases ds rule: rev_cases)
  case (snoc es e)
  then show ?thesis
    by (auto simp: dedupDeltas_def Let_def nth_append split: option.split)
qed (simp add: dedupDeltas_def)

lemma effect_dedup: "effect (dedupDeltas (ds @ [d])) cur = effect1 d None"
  using dedup_snoc [of ds d] by (auto simp: effect1_def dest: isDup_Some)

lemma set_dedup: "set (dedupDeltas (ds @ [d])) \<subseteq> insert d (set ds)"
  using dedup_snoc [of ds d] by (auto dest: isDup_Some)

section \<open>Processing\<close>

definition informer_store :: "store \<Rightarrow> bool" where
  "informer_store st \<longleftrightarrow> (\<exists>items. st = CacheStore DeletionHandlingKey items \<and> gm_wf items)"

definition handlers_total :: "'w handler_funcs \<Rightarrow> bool" where
  "handlers_total h \<longleftrightarrow> (\<forall>w obj old. OnAdd h obj w \<noteq> None \<and> OnUpdate h old obj w \<noteq> None \<and> OnDelete h obj w \<noteq> None)"

lemma informer_store_New [simp]: "informer_store (NewStore DeletionHandlingKey)"
  by (simp add: informer_store_def NewStore_def)

lemma informer_store_key:
  assumes "informer_store st" shows "StoreKey st (Obj obj) = objKey obj"
  using assms by (cases obj) (auto simp: informer_store_def objKey_def KeyOf_def informer_config_def)

lemma informer_store_put [simp]:
  assumes "informer_store st"
  shows "informer_store (storePut now k obj st)" and "informer_store (storeDel k st)"
  using assms by (auto simp: informer_store_def)

lemma informer_store_get [simp]:
  assumes "informer_store st"
  shows "StoreGetByKey now (storePut now' k obj st) j = (if j = k then Some obj else StoreGetByKey now st j)"
    and "StoreGetByKey now (storeDel k st) j = (if j = k then None else StoreGetByKey now st j)"
  using assms by (auto simp: informer_store_def)

text \<open>A delta with a key is processed without an error and has its effect on that key only.\<close>

lemma processDelta_eq:
  assumes "informer_store c" and "deltaKey d = Inr k"
  shows "processDelta h d (c, w) =
     (if d_Type d = Deleted then map_option (\<lambda>w. (None, storeDel k c, w)) (OnDelete h (d_Object d) w)
      else map_option (\<lambda>w. (None, storePut 0 k (d_Object d) c, w))
             (case StoreGetByKey 0 c k of Some old \<Rightarrow> OnUpdate h old (d_Object d) w | None \<Rightarrow> OnAdd h (d_Object d) w))"
proof -
  have key: "StoreKey c (Obj (d_Object d)) = Inr k"
    using assms(2) informer_store_key [OF assms(1)] unfolding deltaKey_def by simp
  show ?thesis
    by (simp add: processDelta_def StoreDelete_def StoreGet_def StoreUpdate_def StoreAdd_def key
        map_option_case split: option.split)
qed

lemma processDelta_effect:
  assumes "informer_store c" and "deltaKey d = Inr k"
    and "processDelta h d (c, w) = Some (er, c', w')"
  shows "er = None" and "informer_store c'"
    and "StoreGetByKey 0 c' j = (if j = k then effect1 d (StoreGetByKey 0 c j) else StoreGetByKey 0 c j)"
proof -
  have c: "er = None \<and> c' = (if d_Type d = Deleted then storeDel k c else storePut 0 k (d_Object d) c)"
    using assms(3) unfolding processDelta_eq [OF assms(1,2)] by (simp split: if_splits)
  then show "er = None" "informer_store c'"
    "StoreGetByKey 0 c' j = (if j = k then effect1 d (StoreGetByKey 0 c j) else StoreGetByKey 0 c j)"
    using assms(1) by (simp_all add: effect1_def)
qed

lemma processDelta_total:
  assumes "informer_store c" and "deltaKey d = Inr k" and "handlers_total h"
  shows "\<exists>c' w'. processDelta h d (c, w) = Some (None, c', w')"
proof -
  have "OnDelete h (d_Object d) w \<noteq> None" "OnAdd h (d_Object d) w \<noteq> None"
    "\<And>old. OnUpdate h old (d_Object d) w \<noteq> None"
    using assms(3) unfolding handlers_total_def by blast+
  then show ?thesis unfolding processDelta_eq [OF assms(1,2)] by (simp split: option.split)
qed

lemma Process_effect:
  assumes "informer_store c" and "\<forall>d \<in> set ds. deltaKey d = Inr k" and "handlers_total h"
  shows "\<exists>c' w'. Process h ds (c, w) = Some (None, c', w') \<and> informer_store c' \<and>
     (\<forall>j. StoreGetByKey 0 c' j = (if j = k then effect ds (StoreGetByKey 0 c j) else StoreGetByKey 0 c j))"
  using assms
proof (induction ds arbitrary: c w)
  case (Cons d ds)
  then have d: "deltaKey d = Inr k" by simp
  obtain c1 w1 where p: "processDelta h d (c, w) = Some (None, c1, w1)"
    using processDelta_total [OF Cons.prems(1) d Cons.prems(3)] by blast
  note e = processDelta_effect [OF Cons.prems(1) d p]
  from Cons.IH [OF e(2) _ Cons.prems(3), of w1] Cons.prems(2) obtain c' w' where
    "Process h ds (c1, w1) = Some (None, c', w')" "informer_store c'"
    "\<forall>j. StoreGetByKey 0 c' j = (if j = k then effect ds (StoreGetByKey 0 c1 j) else StoreGetByKey 0 c1 j)"
    by auto
  with p e(3) show ?case by (auto cong: if_cong)
qed simp

section \<open>The server and its copy\<close>

text \<open>
  Beside the informer runs what the server holds, \<open>srv\<close>. What the watch and the list report is a
  change of \<open>srv\<close>; the loop of the informer does not change it.

  A key is settled if the client has an object for it, or nothing that is pending would give it
  one.
\<close>

definition settled :: "'w informer \<Rightarrow> string \<Rightarrow> bool" where
  "settled i k \<longleftrightarrow> client i k \<noteq> None \<or> effect (pending i k) (client i k) = None"

definition lists :: "kobject list \<Rightarrow> (string \<Rightarrow> kobject option) \<Rightarrow> bool" where
  "lists items srv \<longleftrightarrow> (\<forall>obj \<in> set items. \<exists>k. objKey obj = Inr k \<and> srv k = Some obj) \<and>
     (\<forall>k obj. srv k = Some obj \<longrightarrow> obj \<in> set items \<and> objKey obj = Inr k)"

inductive informer_step ::
  "'w handler_funcs \<Rightarrow> (string list \<Rightarrow> string list) \<Rightarrow> (kobject \<Rightarrow> bool) \<Rightarrow>
     'w informer \<times> (string \<Rightarrow> kobject option) \<Rightarrow> 'w informer \<times> (string \<Rightarrow> kobject option) \<Rightarrow> bool"
  for h rng expected where
  added: "expected obj \<and> hasMeta obj \<Longrightarrow> objKey obj = Inr k \<Longrightarrow>
     informer_step h rng expected (i, srv)
       (i\<lparr>in_fifo := watchEvent rng expected (WatchAdded obj) (in_client i) (in_fifo i)\<rparr>, srv(k \<mapsto> obj))"
| modified: "expected obj \<and> hasMeta obj \<Longrightarrow> objKey obj = Inr k \<Longrightarrow>
     informer_step h rng expected (i, srv)
       (i\<lparr>in_fifo := watchEvent rng expected (WatchModified obj) (in_client i) (in_fifo i)\<rparr>, srv(k \<mapsto> obj))"
| deleted: "expected obj \<and> hasMeta obj \<Longrightarrow> objKey obj = Inr k \<Longrightarrow> settled i k \<Longrightarrow>
     informer_step h rng expected (i, srv)
       (i\<lparr>in_fifo := watchEvent rng expected (WatchDeleted obj) (in_client i) (in_fifo i)\<rparr>, srv(k := None))"
| relist: "lists items srv' \<Longrightarrow> \<forall>k. srv' k = None \<longrightarrow> settled i k \<Longrightarrow>
     syncWith rng items (in_client i) (in_fifo i) = (er, f') \<Longrightarrow>
     informer_step h rng expected (i, srv) (i\<lparr>in_fifo := f'\<rparr>, srv')"
| pop: "in_flight i = [] \<Longrightarrow> Pop (in_fifo i) = Some (ds, f') \<Longrightarrow>
     informer_step h rng expected (i, srv) (i\<lparr>in_fifo := f', in_flight := ds\<rparr>, srv)"
| process: "in_flight i = d # ds \<Longrightarrow> processDelta h d (in_client i, in_world i) = Some (er, c, w) \<Longrightarrow>
     informer_step h rng expected (i, srv)
       (i\<lparr>in_client := c, in_world := w, in_flight := (if er = None then ds else [])\<rparr>, srv)"

inductive informer_reachable ::
  "'w handler_funcs \<Rightarrow> (string list \<Rightarrow> string list) \<Rightarrow> (kobject \<Rightarrow> bool) \<Rightarrow>
     'w informer \<times> (string \<Rightarrow> kobject option) \<Rightarrow> bool" for h rng expected where
  new: "informer_reachable h rng expected (NewInformer w, \<lambda>k. None)"
| step: "informer_reachable h rng expected s \<Longrightarrow> informer_step h rng expected s s' \<Longrightarrow>
     informer_reachable h rng expected s'"

text \<open>The invariant: what is pending turns the client's copy into what the server holds.\<close>

definition informer_inv :: "'w informer \<times> (string \<Rightarrow> kobject option) \<Rightarrow> bool" where
  "informer_inv = (\<lambda>(i, srv). fifo_wf (in_fifo i) \<and> informer_store (in_client i) \<and>
     (\<forall>k. \<forall>d \<in> set (queued (in_fifo i) k). deltaKey d = Inr k) \<and>
     (\<forall>d \<in> set (in_flight i). \<exists>k. deltaKey d = Inr k) \<and>
     (\<forall>k. effect (pending i k) (client i k) = srv k))"

lemma informer_inv_effect: "informer_inv (i, srv) \<Longrightarrow> effect (pending i k) (client i k) = srv k"
  by (simp add: informer_inv_def)

lemma informer_inv_New: "informer_inv (NewInformer w, \<lambda>k. None)"
  by (simp add: informer_inv_def NewInformer_def pending_def queued_def NewDeltaFIFO_def NewStore_def
      informer_store_def fifo_wf_def)

lemma queued_queueAction:
  assumes "fifo_wf f" and "objKey obj = Inr k"
  shows "queued (snd (queueActionLocked (informer_config rng) t obj f)) j =
     (if j = k then dedupDeltas (queued f k @ [\<lparr>d_Type = t, d_Object = obj\<rparr>]) else queued f j)"
  using assms queueActionLocked_eq [of "informer_config rng" obj k t f]
  by (auto simp: queued_def fifo_wf_def split: option.split)

lemma informer_inv_queueAction:
  assumes inv: "informer_inv (i, srv)" and k: "objKey obj = Inr k"
  shows "informer_inv (i\<lparr>in_fifo := snd (queueActionLocked (informer_config rng) t obj (in_fifo i))\<rparr>,
     srv(k := effect1 \<lparr>d_Type = t, d_Object = obj\<rparr> None))"
proof -
  have wf: "fifo_wf (in_fifo i)" using inv by (simp add: informer_inv_def)
  note q = queued_queueAction [OF wf k]
  have "deltaKey \<lparr>d_Type = t, d_Object = obj\<rparr> = Inr k" using k by (simp add: deltaKey_def)
  then have "deltaKey d = Inr k" if "d \<in> set (dedupDeltas (queued (in_fifo i) k @ [\<lparr>d_Type = t, d_Object = obj\<rparr>]))" for d
    using that set_dedup inv unfolding informer_inv_def by blast
  then show ?thesis
    using inv wf by (auto simp: informer_inv_def pending_def q effect_dedup)
qed

lemma queueAction_ok: "objKey obj = Inr k \<Longrightarrow> fst (queueActionLocked (informer_config rng) t obj f) = None"
  by (simp add: queueActionLocked_eq)

definition keysOf :: "kobject list \<Rightarrow> string set" where
  "keysOf items = {k. \<exists>obj \<in> set items. objKey obj = Inr k}"

lemma informer_inv_replaceLoop:
  assumes "informer_inv (i, srv)" and "\<forall>obj \<in> set items. \<exists>k. objKey obj = Inr k \<and> srv' k = Some obj"
  shows "\<exists>f'. replaceLoop (informer_config rng) items ks (in_fifo i) = (Inr (ks \<union> keysOf items), f') \<and>
     informer_inv (i\<lparr>in_fifo := f'\<rparr>, \<lambda>k. if k \<in> keysOf items then srv' k else srv k)"
  using assms
proof (induction items arbitrary: i srv ks)
  case (Cons obj items)
  obtain k where k: "objKey obj = Inr k" "srv' k = Some obj" using Cons.prems(2) by auto
  obtain f1 where q: "queueActionLocked (informer_config rng) Sync obj (in_fifo i) = (None, f1)"
    using queueAction_ok [OF k(1)] by (metis prod.collapse)
  let ?srv = "srv(k := Some obj)"
  have "informer_inv (i\<lparr>in_fifo := f1\<rparr>, ?srv)"
    using informer_inv_queueAction [OF Cons.prems(1) k(1), of rng Sync] q by (simp add: effect1_def)
  from Cons.IH [OF this, of "insert k ks"] Cons.prems(2) obtain f' where
    f': "replaceLoop (informer_config rng) items (insert k ks) f1 = (Inr (insert k ks \<union> keysOf items), f')"
    "informer_inv (i\<lparr>in_fifo := f'\<rparr>, \<lambda>j. if j \<in> keysOf items then srv' j else ?srv j)"
    by auto
  have keys: "keysOf (obj # items) = insert k (keysOf items)" using k(1) by (auto simp: keysOf_def)
  have "(\<lambda>j. if j \<in> keysOf items then srv' j else ?srv j) = (\<lambda>j. if j \<in> keysOf (obj # items) then srv' j else srv j)"
    using k(2) by (auto simp: keys fun_eq_iff)
  with f' k(1) q keys show ?case by auto
qed (auto simp: keysOf_def)

lemma informer_inv_deleteLoop:
  assumes "informer_inv (i, srv)"
  shows "\<exists>f'. deleteLoop (informer_config rng) del keys ks (in_fifo i) = (None, f') \<and>
     informer_inv (i\<lparr>in_fifo := f'\<rparr>, \<lambda>k. if k \<in> set ks - keys then None else srv k)"
  using assms
proof (induction ks arbitrary: i srv)
  case (Cons k ks)
  show ?case
  proof (cases "k \<in> keys")
    case True
    have "(\<lambda>j. if j \<in> set ks - keys then None else srv j) = (\<lambda>j. if j \<in> set (k # ks) - keys then None else srv j)"
      using True by auto
    with True Cons.IH [OF Cons.prems] show ?thesis by simp
  next
    case False
    let ?obj = "KTombstone k (del k)"
    have key: "objKey ?obj = Inr k" by (simp add: objKey_def KeyOf_def)
    obtain f1 where q: "queueActionLocked (informer_config rng) Deleted ?obj (in_fifo i) = (None, f1)"
      using queueAction_ok [OF key] by (metis prod.collapse)
    have inv: "informer_inv (i\<lparr>in_fifo := f1\<rparr>, srv(k := None))"
      using informer_inv_queueAction [OF Cons.prems key, of rng Deleted] q by (simp add: effect1_def)
    have "(\<lambda>j. if j \<in> set ks - keys then None else (srv(k := None)) j) =
        (\<lambda>j. if j \<in> set (k # ks) - keys then None else srv j)"
      using False by auto
    with False q Cons.IH [OF inv] show ?thesis by simp
  qed
qed simp

lemma set_ListKeys:
  assumes "informer_store st" and "range_ok rng"
  shows "set (StoreListKeys rng st) = {k. StoreGetByKey 0 st k \<noteq> None}"
proof -
  have "set (rng ks) = set ks" for ks using assms(2) by (metis range_ok_def set_mset_mset)
  moreover have "set (map fst m) = {k. gm_get m k \<noteq> None}" for m :: "(string, kobject) gomap"
    by (simp only: map_of_eq_None_iff list.set_map) simp
  ultimately show ?thesis using assms(1) by (auto simp: informer_store_def)
qed

lemma informer_inv_relist:
  assumes inv: "informer_inv (i, srv)" and "range_ok rng" and lists: "lists items srv'"
    and settled: "\<forall>k. srv' k = None \<longrightarrow> settled i k"
  shows "\<exists>f'. syncWith rng items (in_client i) (in_fifo i) = (None, f') \<and> informer_inv (i\<lparr>in_fifo := f'\<rparr>, srv')"
proof -
  from informer_inv_replaceLoop [OF inv, of items srv' rng "{}"] lists obtain f1 where
    f1: "replaceLoop (informer_config rng) items {} (in_fifo i) = (Inr (keysOf items), f1)"
    "informer_inv (i\<lparr>in_fifo := f1\<rparr>, \<lambda>k. if k \<in> keysOf items then srv' k else srv k)"
    by (auto simp: lists_def)
  have client: "set (StoreListKeys rng (in_client i)) = {k. client i k \<noteq> None}"
    using set_ListKeys inv assms(2) by (auto simp: informer_inv_def)
  have "(if k \<in> set (StoreListKeys rng (in_client i)) - keysOf items then None
         else if k \<in> keysOf items then srv' k else srv k) = srv' k" for k
  proof (cases "srv' k")
    case None
    then have "k \<notin> keysOf items" using lists by (auto simp: lists_def keysOf_def)
    moreover have "client i k \<noteq> None \<or> srv k = None"
      using settled None inv by (auto simp: settled_def informer_inv_def)
    ultimately show ?thesis using None client by auto
  next
    case (Some obj)
    then have "k \<in> keysOf items" using lists unfolding lists_def keysOf_def by blast
    then show ?thesis by simp
  qed
  with informer_inv_deleteLoop [OF f1(2), of rng _ "keysOf items" "StoreListKeys rng (in_client i)"] f1(1)
  show ?thesis by (simp add: syncWith_def FifoReplace_def knownObjects_def)
qed

lemma informer_inv_deleted:
  assumes inv: "informer_inv (i, srv)" and k: "objKey obj = Inr k" and s: "settled i k"
  shows "informer_inv (i\<lparr>in_fifo := snd (FifoDelete (informer_config rng) (Some (knownObjects rng (in_client i))) obj (in_fifo i))\<rparr>,
     srv(k := None))"
proof (cases "client i k")
  case None
  with s informer_inv_effect [OF inv, of k] have "srv k = None" by (simp add: settled_def)
  then have "srv(k := None) = srv" by auto
  with None k inv show ?thesis by (simp add: FifoDelete_def knownObjects_def)
next
  case (Some old)
  then show ?thesis
    using k informer_inv_queueAction [OF inv k, of rng Deleted]
    by (simp add: FifoDelete_def knownObjects_def effect1_def)
qed

lemma Pop_queued:
  assumes "fifo_wf f" and "Pop f = Some (ds, f')"
  shows "\<exists>k. queued f k = ds \<and> fifo_wf f' \<and> (\<forall>j. queued f' j = (if j = k then [] else queued f j))"
proof (cases "f_queue f")
  case Nil
  with assms(2) show ?thesis by (simp add: Pop_def)
next
  case (Cons k q)
  from Pop_wf [OF assms(1) this] assms(2) show ?thesis
    by (intro exI [of _ k]) (auto simp: queued_def)
qed

lemma informer_inv_pop:
  assumes inv: "informer_inv (i, srv)" and fl: "in_flight i = []" and "Pop (in_fifo i) = Some (ds, f')"
  shows "informer_inv (i\<lparr>in_fifo := f', in_flight := ds\<rparr>, srv)"
proof -
  have "fifo_wf (in_fifo i)" using inv by (simp add: informer_inv_def)
  from Pop_queued [OF this assms(3)] obtain k where
    k: "queued (in_fifo i) k = ds" "fifo_wf f'" "\<forall>j. queued f' j = (if j = k then [] else queued (in_fifo i) j)"
    by blast
  have ds: "\<forall>d \<in> set ds. deltaKey d = Inr k" using inv k(1) by (auto simp: informer_inv_def)
  have "filter (\<lambda>d. deltaKey d = Inr j) ds @ queued f' j = queued (in_fifo i) j" for j
    using k ds by (auto simp: filter_empty_conv intro: filter_True)
  then show ?thesis using inv fl k ds by (auto simp: informer_inv_def pending_def)
qed

lemma informer_inv_process:
  assumes inv: "informer_inv (i, srv)" and fl: "in_flight i = d # ds"
    and p: "processDelta h d (in_client i, in_world i) = Some (er, c, w)"
  shows "er = None" and "informer_inv (i\<lparr>in_client := c, in_world := w, in_flight := ds\<rparr>, srv)"
proof -
  obtain k where k: "deltaKey d = Inr k" and c: "informer_store (in_client i)"
    using inv fl by (auto simp: informer_inv_def)
  note e = processDelta_effect [OF c k p]
  show "er = None" by (rule e(1))
  have "effect (filter (\<lambda>d. deltaKey d = Inr j) ds @ queued (in_fifo i) j) (StoreGetByKey 0 c j) = srv j" for j
    using informer_inv_effect [OF inv, of j] fl k e(3) [of j] by (cases "j = k") (simp_all add: pending_def)
  with inv fl e(2) show "informer_inv (i\<lparr>in_client := c, in_world := w, in_flight := ds\<rparr>, srv)"
    by (simp add: informer_inv_def pending_def)
qed

lemma informer_step_inv:
  "informer_step h rng expected s s' \<Longrightarrow> range_ok rng \<Longrightarrow> informer_inv s \<Longrightarrow> informer_inv s'"
proof (induction rule: informer_step.induct)
  case (added obj k i srv)
  then show ?case using informer_inv_queueAction [of i srv obj k rng Added] by (simp add: FifoAdd_def effect1_def)
next
  case (modified obj k i srv)
  then show ?case using informer_inv_queueAction [of i srv obj k rng Updated] by (simp add: FifoUpdate_def effect1_def)
next
  case (deleted obj k i srv)
  then show ?case using informer_inv_deleted [of i srv obj k rng] by simp
next
  case (relist items srv' i er f' srv)
  then show ?case using informer_inv_relist [of i srv rng items srv'] by auto
next
  case (pop i ds f' srv)
  then show ?case using informer_inv_pop by blast
next
  case (process i d ds er c w srv)
  with informer_inv_process [OF process(4,1,2)] show ?case by simp
qed

lemma informer_reachable_inv: "informer_reachable h rng expected s \<Longrightarrow> range_ok rng \<Longrightarrow> informer_inv s"
  by (induction rule: informer_reachable.induct) (auto intro: informer_inv_New informer_step_inv)

lemma drain_inv:
  assumes "informer_inv (i, srv)" and "in_flight i = []" and "handlers_total h"
  shows "\<exists>f c w. processLoop h (in_fifo i) (in_client i, in_world i) = Some (f, c, w) \<and> f_queue f = [] \<and>
     (\<forall>k. StoreGetByKey 0 c k = srv k)"
  using assms
proof (induction "length (f_queue (in_fifo i))" arbitrary: i rule: less_induct)
  case less
  have wf: "fifo_wf (in_fifo i)" and st: "informer_store (in_client i)"
    using less.prems(1) by (simp_all add: informer_inv_def)
  show ?case
  proof (cases "Pop (in_fifo i)")
    case None
    then have "f_queue (in_fifo i) = []" using Pop_wf(1) [OF wf] by (cases "f_queue (in_fifo i)") auto
    moreover from this wf have "queued (in_fifo i) k = []" for k
      by (auto simp: fifo_wf_def queued_def split: option.split)
    ultimately show ?thesis
      using None less.prems(1,2) by (auto simp: processLoop.simps [of h "in_fifo i"] informer_inv_def pending_def)
  next
    case (Some p)
    obtain ds f' where p: "p = (ds, f')" by fastforce
    from Pop_queued [OF wf] Some p obtain k where
      k: "queued (in_fifo i) k = ds" "fifo_wf f'" "\<forall>j. queued f' j = (if j = k then [] else queued (in_fifo i) j)"
      by blast
    have ds: "\<forall>d \<in> set ds. deltaKey d = Inr k" using less.prems(1) k(1) by (auto simp: informer_inv_def)
    obtain c1 w1 where c1: "Process h ds (in_client i, in_world i) = Some (None, c1, w1)" "informer_store c1"
      "\<forall>j. StoreGetByKey 0 c1 j = (if j = k then effect ds (client i j) else client i j)"
      using Process_effect [OF st ds less.prems(3)] by blast
    let ?i = "i\<lparr>in_fifo := f', in_client := c1, in_world := w1\<rparr>"
    have "informer_inv (?i, srv)"
      using less.prems(1,2) k c1(2,3) by (auto simp: informer_inv_def pending_def)
    moreover have "length (f_queue f') < length (f_queue (in_fifo i))" using Pop_shorter Some p by blast
    ultimately show ?thesis
      using less.hyps [of ?i] less.prems(2,3) Some p c1(1) by (simp add: processLoop.simps [of h "in_fifo i"])
  qed
qed

section \<open>Properties\<close>


definition no_handlers :: "unit handler_funcs" where
  "no_handlers = \<lparr>AddFunc = None, UpdateFunc = None, DeleteFunc = None\<rparr>"

definition sample_added :: "unit informer" where
  "sample_added = NewInformer ()\<lparr>in_fifo := watchEvent (\<lambda>ks. ks) (\<lambda>obj. True) (WatchAdded (KService sample_service))
     (NewStore DeletionHandlingKey) NewDeltaFIFO\<rparr>"

lemma no_handlers_total [simp]: "handlers_total no_handlers"
  by (simp add: handlers_total_def no_handlers_def OnAdd_def OnUpdate_def OnDelete_def)

lemma sample_key: "objKey (KService sample_service) = Inr ''test/bar''"
  by code_simp

lemma hasMeta_service [simp]: "hasMeta (KService svc)"
  by (simp add: hasMeta_def)

lemma sample_added_reachable:
  "informer_reachable no_handlers (\<lambda>ks. ks) (\<lambda>obj. True) (sample_added, [''test/bar'' \<mapsto> KService sample_service])"
  using informer_reachable.step [OF informer_reachable.new [of no_handlers "\<lambda>ks. ks" "\<lambda>obj. True" "()"]
      informer_step.added [of "\<lambda>obj. True", OF _ sample_key]]
  by (simp add: sample_added_def NewInformer_def)




end
