(* ===== verification/Reflector.thy ===== *)
theory Reflector
  imports Informer "HOL-Library.Sublist"
begin

text \<open>
  The reflector, \<^verbatim>\<open>pkg/client/cache/reflector.go\<close>: it lists the objects of a kind, writes them into
  a store, and keeps the store up to date from a watch that it opens again when it ends. The store
  is one of the program's stores or the queue of an informer, so it is a parameter, the record of
  the operations of Go's interface \<^verbatim>\<open>Store\<close> that the reflector calls.

  The resource version of an object, which only the reflector reads, is kept with the event that
  carries the object. A run is given by what the reflector receives: the answer to the list, and
  for each watch it opens the answer and what the \<^verbatim>\<open>select\<close> of its loop receives, in order. Such a
  list is finite and a run that used it up is waiting for more. Times are in nanoseconds.
\<close>

section \<open>Operations\<close>

record 's store_ops =
  so_Add :: "kobject \<Rightarrow> 's \<Rightarrow> err option \<times> 's"
  so_Update :: "kobject \<Rightarrow> 's \<Rightarrow> err option \<times> 's"
  so_Delete :: "kobject \<Rightarrow> 's \<Rightarrow> err option \<times> 's"
  so_Replace :: "kobject list \<Rightarrow> 's \<Rightarrow> err option \<times> 's"

record 's reflector =
  r_store :: 's
  nextResync :: "int option"
  lastSyncResourceVersion :: string

record reflector_config =
  expectedType :: "kobject \<Rightarrow> bool"
  resyncPeriod :: int

datatype event_type = AddedEvent | ModifiedEvent | DeletedEvent | ErrorEvent | OtherEvent string

record event =
  ev_Type :: event_type
  ev_Object :: kobject
  ev_Version :: string

definition second :: int where "second = 1000000000"

definition minWatchTimeout :: int where "minWatchTimeout = 5 * 60 * second"

definition forceResyncThreshold :: int where "forceResyncThreshold = 3 * second"

definition timeoutThreshold :: int where "timeoutThreshold = 1 * second"

definition errorResyncRequested :: err where "errorResyncRequested = Err ''resync channel fired''"

definition errorStopRequested :: err where "errorStopRequested = Err ''Stop requested''"

definition resyncChan :: "reflector_config \<Rightarrow> int \<Rightarrow> 's reflector \<Rightarrow> 's reflector" where
  "resyncChan cfg now r = r\<lparr>nextResync := if resyncPeriod cfg = 0 then None else Some (now + resyncPeriod cfg)\<rparr>"

text \<open>
  The subtraction of times ends at the smallest duration, and that of the zero time from any
  time of now is there; taking the threshold off then wraps around. \<open>rnd\<close> is the random
  duration, from \<^verbatim>\<open>minWatchTimeout\<close> up to twice that.
\<close>

definition durationSub :: "int \<Rightarrow> int \<Rightarrow> int" where
  "durationSub a b = (a - b + 2 ^ 63) mod 2 ^ 64 - 2 ^ 63"

definition untilResync :: "int option \<Rightarrow> int \<Rightarrow> int" where
  "untilResync next now = (case next of None \<Rightarrow> - (2 ^ 63) | Some t \<Rightarrow> max (- (2 ^ 63)) (min (2 ^ 63 - 1) (t - now)))"

definition timeoutForWatch :: "int \<Rightarrow> int \<Rightarrow> 's reflector \<Rightarrow> int" where
  "timeoutForWatch rnd now r =
     (let timeout = durationSub (untilResync (nextResync r) now) timeoutThreshold;
          timeout = (if timeout < 0 \<or> rnd < timeout then rnd else timeout)
      in timeout div second)"

definition canForceResyncNow :: "int \<Rightarrow> 's reflector \<Rightarrow> bool" where
  "canForceResyncNow now r = (case nextResync r of None \<Rightarrow> False | Some t \<Rightarrow> t < now + forceResyncThreshold)"

definition setLastSyncResourceVersion :: "string \<Rightarrow> 's reflector \<Rightarrow> 's reflector" where
  "setLastSyncResourceVersion v r = r\<lparr>lastSyncResourceVersion := v\<rparr>"

definition reflectSync :: "'s store_ops \<Rightarrow> kobject list \<Rightarrow> 's reflector \<Rightarrow> err option \<times> 's reflector" where
  "reflectSync ops items r = (case so_Replace ops items (r_store r) of (er, s) \<Rightarrow> (er, r\<lparr>r_store := s\<rparr>))"

text \<open>What the store is told of an event; its errors are dropped.\<close>

definition reflectEvent :: "'s store_ops \<Rightarrow> event \<Rightarrow> 's \<Rightarrow> 's" where
  "reflectEvent ops ev s =
     (case ev_Type ev of
        AddedEvent \<Rightarrow> snd (so_Add ops (ev_Object ev) s)
      | ModifiedEvent \<Rightarrow> snd (so_Update ops (ev_Object ev) s)
      | DeletedEvent \<Rightarrow> snd (so_Delete ops (ev_Object ev) s)
      | _ \<Rightarrow> s)"

text \<open>
  The loop of the watch. A result comes with the time it is received at. \<open>None\<close> for the end is a
  loop that waits; otherwise it is the error it returns. \<open>lasted\<close> is how long the watch was open.
\<close>

datatype selected = StopRequested | ResyncRequested | Closed | Received int event

fun watchHandler ::
  "reflector_config \<Rightarrow> (int \<Rightarrow> 's store_ops) \<Rightarrow> (event \<Rightarrow> err) \<Rightarrow> int \<Rightarrow> selected list \<Rightarrow> nat \<Rightarrow> string \<Rightarrow> 's reflector \<Rightarrow>
     err option option \<times> string \<times> 's reflector" where
  "watchHandler cfg ops fromObject lasted [] eventCount resourceVersion r = (None, resourceVersion, r)"
| "watchHandler cfg ops fromObject lasted (StopRequested # ss) eventCount resourceVersion r =
     (Some (Some errorStopRequested), resourceVersion, r)"
| "watchHandler cfg ops fromObject lasted (ResyncRequested # ss) eventCount resourceVersion r =
     (Some (Some errorResyncRequested), resourceVersion, r)"
| "watchHandler cfg ops fromObject lasted (Closed # ss) eventCount resourceVersion r =
     (Some (if lasted < 1 * second \<and> eventCount = 0 then Some (Err ''very short watch'') else None), resourceVersion, r)"
| "watchHandler cfg ops fromObject lasted (Received now ev # ss) eventCount resourceVersion r =
     (if ev_Type ev = ErrorEvent then (Some (Some (fromObject ev)), resourceVersion, r)
      else if \<not> expectedType cfg (ev_Object ev) then watchHandler cfg ops fromObject lasted ss eventCount resourceVersion r
      else if \<not> hasMeta (ev_Object ev) then watchHandler cfg ops fromObject lasted ss eventCount resourceVersion r
      else watchHandler cfg ops fromObject lasted ss (Suc eventCount) (ev_Version ev)
             (setLastSyncResourceVersion (ev_Version ev) (r\<lparr>r_store := reflectEvent (ops now) ev (r_store r)\<rparr>)))"

text \<open>
  The answers of the server: to a list, with the errors of the call and of taking the result
  apart, and to a watch from a resource version, with how long it is open. (The program's
  \<^verbatim>\<open>WatchFunc\<close> hands on the resource version and leaves out the timeout it is given.)
\<close>

datatype list_reply = ListFails err | ListOpaque err | Listed string "err + kobject list"

datatype watch_reply = WatchRefused | WatchFails err | WatchOpen int "selected list"

record attempt =
  at_reply :: "string \<Rightarrow> watch_reply"
  at_over :: int  \<comment> \<open>the time when it is over\<close>

text \<open>\<open>None\<close> is a reflector that waits, otherwise it is what it returns.\<close>

fun watchLoop ::
  "reflector_config \<Rightarrow> (int \<Rightarrow> 's store_ops) \<Rightarrow> (event \<Rightarrow> err) \<Rightarrow> attempt list \<Rightarrow> string \<Rightarrow> 's reflector \<Rightarrow>
     err option option \<times> 's reflector" where
  "watchLoop cfg ops fromObject [] resourceVersion r = (None, r)"
| "watchLoop cfg ops fromObject (a # as) resourceVersion r =
     (case at_reply a resourceVersion of
        WatchRefused \<Rightarrow> watchLoop cfg ops fromObject as resourceVersion r
      | WatchFails er \<Rightarrow> (Some None, r)
      | WatchOpen lasted ss \<Rightarrow>
          (case watchHandler cfg ops fromObject lasted ss 0 resourceVersion r of
             (None, resourceVersion, r) \<Rightarrow> (None, r)
           | (Some (Some er), resourceVersion, r) \<Rightarrow> (Some None, r)
           | (Some None, resourceVersion, r) \<Rightarrow>
               if canForceResyncNow (at_over a) r then (Some None, r)
               else watchLoop cfg ops fromObject as resourceVersion r))"

record round =
  ro_started :: int
  ro_listed :: int
  ro_list :: list_reply
  ro_attempts :: "attempt list"

definition ListAndWatch ::
  "reflector_config \<Rightarrow> (int \<Rightarrow> 's store_ops) \<Rightarrow> (event \<Rightarrow> err) \<Rightarrow> round \<Rightarrow> 's reflector \<Rightarrow> err option option \<times> 's reflector" where
  "ListAndWatch cfg ops fromObject rd r =
     (let r = resyncChan cfg (ro_started rd) r in
      case ro_list rd of
        ListFails er \<Rightarrow> (Some (Some (Err ''Failed to list'')), r)
      | ListOpaque er \<Rightarrow> (Some (Some (Err ''Unable to understand list result'')), r)
      | Listed resourceVersion (Inl er) \<Rightarrow> (Some (Some (Err ''Unable to understand list result'')), r)
      | Listed resourceVersion (Inr items) \<Rightarrow>
          (case reflectSync (ops (ro_listed rd)) items r of
             (Some er, r) \<Rightarrow> (Some (Some (Err ''Unable to sync list result'')), r)
           | (None, r) \<Rightarrow>
               watchLoop cfg ops fromObject (ro_attempts rd) resourceVersion (setLastSyncResourceVersion resourceVersion r)))"

text \<open>\<^verbatim>\<open>util.Until\<close> runs it again whenever it returns.\<close>

fun RunUntil ::
  "reflector_config \<Rightarrow> (int \<Rightarrow> 's store_ops) \<Rightarrow> (event \<Rightarrow> err) \<Rightarrow> round list \<Rightarrow> 's reflector \<Rightarrow> 's reflector" where
  "RunUntil cfg ops fromObject [] r = r"
| "RunUntil cfg ops fromObject (rd # rds) r =
     (case ListAndWatch cfg ops fromObject rd r of
        (None, r) \<Rightarrow> r
      | (Some er, r) \<Rightarrow> RunUntil cfg ops fromObject rds r)"

definition NewReflector :: "'s \<Rightarrow> 's reflector" where
  "NewReflector s = \<lparr>r_store = s, nextResync = None, lastSyncResourceVersion = []\<rparr>"

text \<open>The two kinds of stores: those of \<^verbatim>\<open>CreateStore\<close>, and the queue of an informer with what its client store knows.\<close>

definition storeOps :: "int \<Rightarrow> store store_ops" where
  "storeOps now = \<lparr>so_Add = StoreAdd now, so_Update = StoreUpdate now, so_Delete = StoreDelete, so_Replace = StoreReplace now\<rparr>"

definition fifoOps :: "(string list \<Rightarrow> string list) \<Rightarrow> store \<Rightarrow> delta_fifo store_ops" where
  "fifoOps rng c =
     \<lparr>so_Add = FifoAdd (informer_config rng), so_Update = FifoUpdate (informer_config rng),
      so_Delete = FifoDelete (informer_config rng) (Some (knownObjects rng c)),
      so_Replace = FifoReplace (informer_config rng) (Some (knownObjects rng c))\<rparr>"

section \<open>A reflected store\<close>

text \<open>What the objects of a server become by an event, and after a list of them.\<close>

definition applyEvent :: "event \<Rightarrow> (string \<Rightarrow> kobject option) \<Rightarrow> string \<Rightarrow> kobject option" where
  "applyEvent ev srv =
     (case objKey (ev_Object ev) of
        Inl er \<Rightarrow> srv
      | Inr k \<Rightarrow> (case ev_Type ev of
            AddedEvent \<Rightarrow> srv(k \<mapsto> ev_Object ev)
          | ModifiedEvent \<Rightarrow> srv(k \<mapsto> ev_Object ev)
          | DeletedEvent \<Rightarrow> srv(k := None)
          | _ \<Rightarrow> srv))"

definition history :: "event list \<Rightarrow> nat \<Rightarrow> string \<Rightarrow> kobject option" where
  "history log n = fold applyEvent (take n log) (\<lambda>k. None)"

definition versionAt :: "string \<Rightarrow> event list \<Rightarrow> nat \<Rightarrow> string" where
  "versionAt v0 log n = (case n of 0 \<Rightarrow> v0 | Suc m \<Rightarrow> ev_Version (log ! m))"

text \<open>
  A server with a log of changes: they are changes of objects of the kind, and no two states have
  the same version. A list gives the objects of one state with its version; a watch from the
  version of a state gives changes from there on, in order and without a gap, until it breaks off.
\<close>

definition objectChange :: "reflector_config \<Rightarrow> event \<Rightarrow> bool" where
  "objectChange cfg ev \<longleftrightarrow> expectedType cfg (ev_Object ev) \<and> hasMeta (ev_Object ev) \<and> ev_Type ev \<in> {AddedEvent, ModifiedEvent, DeletedEvent}"

definition server_log :: "reflector_config \<Rightarrow> string \<Rightarrow> event list \<Rightarrow> bool" where
  "server_log cfg v0 log \<longleftrightarrow> list_all (objectChange cfg) log \<and> inj_on (versionAt v0 log) {..length log}"

fun received :: "selected list \<Rightarrow> event list" where
  "received [] = []"
| "received (Received now ev # ss) = (if ev_Type ev = ErrorEvent then [] else ev # received ss)"
| "received (s # ss) = []"

definition watch_from :: "event list \<Rightarrow> nat \<Rightarrow> watch_reply \<Rightarrow> bool" where
  "watch_from log n reply \<longleftrightarrow> (\<forall>lasted ss. reply = WatchOpen lasted ss \<longrightarrow> prefix (received ss) (drop n log))"

definition list_from :: "string \<Rightarrow> event list \<Rightarrow> list_reply \<Rightarrow> bool" where
  "list_from v0 log reply \<longleftrightarrow> (\<forall>v items. reply = Listed v (Inr items) \<longrightarrow>
     (\<exists>n \<le> length log. v = versionAt v0 log n \<and> lists items (history log n)))"

definition round_from :: "string \<Rightarrow> event list \<Rightarrow> round \<Rightarrow> bool" where
  "round_from v0 log rd \<longleftrightarrow> list_from v0 log (ro_list rd) \<and>
     (\<forall>a \<in> set (ro_attempts rd). \<forall>n \<le> length log. watch_from log n (at_reply a (versionAt v0 log n)))"

text \<open>The store is in the state of the server that the version names.\<close>

definition reflects ::
  "('s \<Rightarrow> string \<Rightarrow> kobject option) \<Rightarrow> ('s \<Rightarrow> bool) \<Rightarrow> string \<Rightarrow> event list \<Rightarrow> nat \<Rightarrow> 's reflector \<Rightarrow> bool" where
  "reflects look good v0 log n r \<longleftrightarrow> n \<le> length log \<and> good (r_store r) \<and> look (r_store r) = history log n \<and>
     lastSyncResourceVersion r = versionAt v0 log n"

lemma history_Suc: "n < length log \<Longrightarrow> history log (Suc n) = applyEvent (log ! n) (history log n)"
  by (simp add: history_def take_Suc_conv_app_nth)

lemma prefix_drop_Cons: "prefix (x # xs) (drop n ys) \<Longrightarrow> n < length ys \<and> ys ! n = x \<and> prefix xs (drop (Suc n) ys)"
  by (cases "n < length ys") (auto simp: Cons_nth_drop_Suc [symmetric])

lemma objKey_meta: "hasMeta obj \<Longrightarrow> \<exists>k. objKey obj = Inr k"
  by (cases obj) (auto simp: hasMeta_def objKey_def KeyOf_def informer_config_def)

definition typed :: "('s \<Rightarrow> string \<Rightarrow> kobject option) \<Rightarrow> (kobject \<Rightarrow> bool) \<Rightarrow> 's \<Rightarrow> bool" where
  "typed look ty s \<longleftrightarrow> (\<forall>k obj. look s k = Some obj \<longrightarrow> ty obj)"

definition lists_typed :: "reflector_config \<Rightarrow> round \<Rightarrow> bool" where
  "lists_typed cfg rd \<longleftrightarrow> (\<forall>v items. ro_list rd = Listed v (Inr items) \<longrightarrow> list_all (expectedType cfg) items)"

lemma typed_applyEvent:
  "\<forall>k obj. srv k = Some obj \<longrightarrow> ty obj \<Longrightarrow> ty (ev_Object ev) \<Longrightarrow> \<forall>k obj. applyEvent ev srv k = Some obj \<longrightarrow> ty obj"
  by (auto simp: applyEvent_def split: sum.splits event_type.splits if_splits)

lemma history_meta: "server_log cfg v0 log \<Longrightarrow> n \<le> length log \<Longrightarrow> \<forall>k obj. history log n k = Some obj \<longrightarrow> hasMeta obj"
proof (induction n)
  case (Suc n)
  then have "hasMeta (ev_Object (log ! n))" by (auto simp: server_log_def objectChange_def list_all_length)
  with Suc typed_applyEvent [of "history log n" hasMeta "log ! n"] show ?case by (simp add: history_Suc)
qed (simp add: history_def)

text \<open>The laws of a store that reflects: what its operations do to the objects it holds.\<close>

locale reflected_store =
  fixes ops :: "int \<Rightarrow> 's store_ops"
    and look :: "'s \<Rightarrow> string \<Rightarrow> kobject option"
    and inv :: "'s \<Rightarrow> bool"
  assumes add: "inv s \<Longrightarrow> objKey obj = Inr k \<Longrightarrow> hasMeta obj \<Longrightarrow>
      inv (snd (so_Add (ops now) obj s)) \<and> look (snd (so_Add (ops now) obj s)) = (look s)(k \<mapsto> obj)"
    and update: "inv s \<Longrightarrow> objKey obj = Inr k \<Longrightarrow> hasMeta obj \<Longrightarrow>
      inv (snd (so_Update (ops now) obj s)) \<and> look (snd (so_Update (ops now) obj s)) = (look s)(k \<mapsto> obj)"
    and delete: "inv s \<Longrightarrow> objKey obj = Inr k \<Longrightarrow> hasMeta obj \<Longrightarrow>
      inv (snd (so_Delete (ops now) obj s)) \<and> look (snd (so_Delete (ops now) obj s)) = (look s)(k := None)"
    and replace: "inv s \<Longrightarrow> inv (snd (so_Replace (ops now) items s))"
    and replace_lists: "inv s \<Longrightarrow> lists items srv \<Longrightarrow> list_all hasMeta items \<Longrightarrow> \<exists>s'. so_Replace (ops now) items s = (None, s') \<and> look s' = srv"
    and replace_range: "inv s \<Longrightarrow> look (snd (so_Replace (ops now) items s)) k = Some obj \<Longrightarrow> obj \<in> set items \<or> look s k = Some obj"
begin

lemma reflect_event:
  assumes "inv s" and "hasMeta (ev_Object ev)"
  shows "inv (reflectEvent (ops now) ev s) \<and> look (reflectEvent (ops now) ev s) = applyEvent ev (look s)"
proof -
  obtain k where k: "objKey (ev_Object ev) = Inr k" using objKey_meta [OF assms(2)] by blast
  show ?thesis
    using add [OF assms(1) k assms(2)] update [OF assms(1) k assms(2)] delete [OF assms(1) k assms(2)] assms(1)
    by (simp add: reflectEvent_def applyEvent_def k split: event_type.split)
qed

lemma reflects_step:
  assumes "server_log cfg v0 log" and "reflects look inv v0 log n r" and "n < length log"
  shows "reflects look inv v0 log (Suc n)
    (setLastSyncResourceVersion (ev_Version (log ! n)) (r\<lparr>r_store := reflectEvent (ops now) (log ! n) (r_store r)\<rparr>))"
proof -
  have "hasMeta (ev_Object (log ! n))" using assms(1,3) by (auto simp: server_log_def objectChange_def list_all_length)
  with assms show ?thesis
    using reflect_event [of "r_store r" "log ! n" now]
    by (simp add: reflects_def setLastSyncResourceVersion_def history_Suc versionAt_def)
qed

lemma reflects_handler:
  assumes "server_log cfg v0 log"
  shows "reflects look inv v0 log n r \<Longrightarrow> prefix (received ss) (drop n log) \<Longrightarrow>
    watchHandler cfg ops fromObject lasted ss c (versionAt v0 log n) r = (out, v, r') \<Longrightarrow>
    reflects look inv v0 log (n + length (received ss)) r' \<and> v = versionAt v0 log (n + length (received ss)) \<and>
    (length (received ss) = length ss \<longrightarrow> out = None)"
proof (induction ss arbitrary: n r c)
  case (Cons s ss)
  show ?case
  proof (cases "\<exists>now ev. s = Received now ev \<and> ev_Type ev \<noteq> ErrorEvent")
    case True
    then obtain now ev where s: "s = Received now ev" "ev_Type ev \<noteq> ErrorEvent" by blast
    with Cons.prems(2) have n: "n < length log" "log ! n = ev" "prefix (received ss) (drop (Suc n) log)"
      using prefix_drop_Cons [of ev "received ss" n log] by auto
    have "objectChange cfg ev" using assms n(1,2) by (auto simp: server_log_def list_all_length)
    moreover have "ev_Version ev = versionAt v0 log (Suc n)" using n(2) by (simp add: versionAt_def)
    ultimately show ?thesis
      using Cons.IH [OF reflects_step [OF assms Cons.prems(1) n(1), of now] n(3)] Cons.prems(3) s n(2)
      by (auto simp: objectChange_def)
  next
    case False
    with Cons.prems(1,3) show ?thesis by (cases s) (auto split: if_splits)
  qed
qed auto

text \<open>A watch that gives all there is and stays open brings the store up to date.\<close>

lemma reflects_open:
  assumes "server_log cfg v0 log" and "reflects look inv v0 log n r" and "\<forall>b \<in> set bs. at_reply b (versionAt v0 log n) = WatchRefused"
    and "at_reply a (versionAt v0 log n) = WatchOpen lasted ss" and "received ss = drop n log" and "length (received ss) = length ss"
  shows "\<exists>r'. watchLoop cfg ops fromObject (bs @ [a]) (versionAt v0 log n) r = (None, r') \<and> reflects look inv v0 log (length log) r'"
  using assms(3)
proof (induction bs)
  case Nil
  obtain out v r1 where h: "watchHandler cfg ops fromObject lasted ss 0 (versionAt v0 log n) r = (out, v, r1)" by (metis prod_cases3)
  have "n \<le> length log" using assms(2) by (simp add: reflects_def)
  with reflects_handler [OF assms(1,2) _ h] assms(4-6) h show ?case by simp
qed simp

lemma reflects_loop:
  assumes "server_log cfg v0 log"
  shows "reflects look inv v0 log n r \<Longrightarrow>
    \<forall>a \<in> set as. \<forall>n \<le> length log. watch_from log n (at_reply a (versionAt v0 log n)) \<Longrightarrow>
    watchLoop cfg ops fromObject as (versionAt v0 log n) r = (out, r') \<Longrightarrow> \<exists>n'. reflects look inv v0 log n' r'"
proof (induction as arbitrary: n r)
  case (Cons a as)
  have ok: "watch_from log n (at_reply a (versionAt v0 log n))"
    using Cons.prems(1,2) by (simp add: reflects_def)
  show ?case
  proof (cases "at_reply a (versionAt v0 log n)")
    case (WatchOpen lasted ss)
    obtain out1 v r1 where h: "watchHandler cfg ops fromObject lasted ss 0 (versionAt v0 log n) r = (out1, v, r1)"
      by (metis prod_cases3)
    obtain n1 where n1: "reflects look inv v0 log n1 r1" "v = versionAt v0 log n1"
      using reflects_handler [OF assms Cons.prems(1) _ h] ok WatchOpen unfolding watch_from_def by blast
    with Cons.IH [OF n1(1)] Cons.prems(2,3) WatchOpen h show ?thesis by (auto split: option.splits if_splits)
  qed (use Cons in auto)
qed auto

lemma reflects_listed:
  assumes "server_log cfg v0 log" and "inv (r_store r)" and "n \<le> length log" and "lists objs (history log n)"
  shows "\<exists>r1. reflects look inv v0 log n r1 \<and>
    (\<forall>rd fromObject. ro_list rd = Listed (versionAt v0 log n) (Inr objs) \<and> ro_listed rd = now \<and> ro_started rd = start \<longrightarrow>
       ListAndWatch cfg ops fromObject rd r = watchLoop cfg ops fromObject (ro_attempts rd) (versionAt v0 log n) r1)"
proof -
  obtain s where s: "so_Replace (ops now) objs (r_store r) = (None, s)" "look s = history log n"
    using replace_lists [OF assms(2,4)] history_meta [OF assms(1,3)] assms(4) by (fastforce simp: lists_def list_all_iff)
  have "inv s" using replace [OF assms(2), of now objs] s by simp
  with assms(3) s show ?thesis
    by (intro exI [of _ "setLastSyncResourceVersion (versionAt v0 log n) (resyncChan cfg start r\<lparr>r_store := s\<rparr>)"])
      (simp add: reflects_def setLastSyncResourceVersion_def ListAndWatch_def reflectSync_def resyncChan_def)
qed

lemma reflects_round:
  assumes "server_log cfg v0 log" and "round_from v0 log rd" and "inv (r_store r)"
    and "ListAndWatch cfg ops fromObject rd r = (out, r')"
  shows "(r_store r' = r_store r \<and> lastSyncResourceVersion r' = lastSyncResourceVersion r) \<or> (\<exists>n. reflects look inv v0 log n r')"
proof (cases "ro_list rd")
  case (Listed v items)
  show ?thesis
  proof (cases items)
    case (Inr objs)
    obtain n where n: "n \<le> length log" "v = versionAt v0 log n" "lists objs (history log n)"
      using assms(2) Listed Inr by (auto simp: round_from_def list_from_def)
    obtain r1 where r1: "reflects look inv v0 log n r1"
        "ListAndWatch cfg ops fromObject rd r = watchLoop cfg ops fromObject (ro_attempts rd) (versionAt v0 log n) r1"
      using reflects_listed [OF assms(1,3) n(1,3), of "ro_listed rd" "ro_started rd"] Listed Inr n(2) by blast
    with reflects_loop [OF assms(1) r1(1), of "ro_attempts rd" fromObject out r'] assms(2,4) show ?thesis
      by (auto simp: round_from_def)
  qed (use assms(4) Listed in \<open>auto simp: ListAndWatch_def resyncChan_def\<close>)
qed (use assms(4) in \<open>auto simp: ListAndWatch_def resyncChan_def\<close>)

lemma reflects_run:
  assumes "server_log cfg v0 log"
  shows "list_all (round_from v0 log) rds \<Longrightarrow> inv (r_store r) \<Longrightarrow>
    (r_store (RunUntil cfg ops fromObject rds r) = r_store r \<and>
       lastSyncResourceVersion (RunUntil cfg ops fromObject rds r) = lastSyncResourceVersion r) \<or>
    (\<exists>n. reflects look inv v0 log n (RunUntil cfg ops fromObject rds r))"
proof (induction rds arbitrary: r)
  case (Cons rd rds)
  obtain out r1 where run: "ListAndWatch cfg ops fromObject rd r = (out, r1)" by fastforce
  have one: "(r_store r1 = r_store r \<and> lastSyncResourceVersion r1 = lastSyncResourceVersion r) \<or> (\<exists>n. reflects look inv v0 log n r1)"
    using reflects_round [OF assms _ Cons.prems(2) run] Cons.prems(1) by simp
  then have "inv (r_store r1)" using Cons.prems(2) by (auto simp: reflects_def)
  with Cons.IH [of r1] Cons.prems(1) one run show ?case by (cases out) (auto simp: reflects_def)
qed simp

text \<open>Of whatever watches it gets, a reflector that lists objects of its kind has only such objects.\<close>

lemma typed_handler:
  "inv (r_store r) \<Longrightarrow> typed look (expectedType cfg) (r_store r) \<Longrightarrow>
   watchHandler cfg ops fromObject lasted ss c v r = (out, v', r') \<Longrightarrow> inv (r_store r') \<and> typed look (expectedType cfg) (r_store r')"
proof (induction ss arbitrary: r c v)
  case (Cons s ss)
  show ?case
  proof (cases "\<exists>now ev. s = Received now ev \<and> ev_Type ev \<noteq> ErrorEvent \<and> expectedType cfg (ev_Object ev) \<and> hasMeta (ev_Object ev)")
    case True
    then obtain now ev where s: "s = Received now ev" "ev_Type ev \<noteq> ErrorEvent" "expectedType cfg (ev_Object ev)" "hasMeta (ev_Object ev)"
      by blast
    let ?r = "setLastSyncResourceVersion (ev_Version ev) (r\<lparr>r_store := reflectEvent (ops now) ev (r_store r)\<rparr>)"
    have "inv (r_store ?r) \<and> typed look (expectedType cfg) (r_store ?r)"
      using reflect_event [OF Cons.prems(1) s(4), of now] typed_applyEvent [of "look (r_store r)" "expectedType cfg" ev] Cons.prems(2) s(3)
      by (simp add: setLastSyncResourceVersion_def typed_def)
    with Cons.IH [of ?r] Cons.prems(3) s show ?thesis by simp
  next
    case False
    with Cons show ?thesis by (cases s) (auto split: if_splits)
  qed
qed auto

lemma typed_loop:
  "inv (r_store r) \<Longrightarrow> typed look (expectedType cfg) (r_store r) \<Longrightarrow>
   watchLoop cfg ops fromObject as v r = (out, r') \<Longrightarrow> inv (r_store r') \<and> typed look (expectedType cfg) (r_store r')"
proof (induction as arbitrary: r v)
  case (Cons a as)
  show ?case
  proof (cases "at_reply a v")
    case (WatchOpen lasted ss)
    obtain out1 v1 r1 where h: "watchHandler cfg ops fromObject lasted ss 0 v r = (out1, v1, r1)" by (metis prod_cases3)
    with typed_handler [OF Cons.prems(1,2) h] Cons.IH [of r1] Cons.prems(3) WatchOpen show ?thesis
      by (auto split: option.splits if_splits)
  qed (use Cons in auto)
qed auto

lemma typed_round:
  assumes "inv (r_store r)" and "typed look (expectedType cfg) (r_store r)" and "lists_typed cfg rd"
    and "ListAndWatch cfg ops fromObject rd r = (out, r')"
  shows "inv (r_store r') \<and> typed look (expectedType cfg) (r_store r')"
proof (cases "\<exists>v objs. ro_list rd = Listed v (Inr objs)")
  case True
  then obtain v objs where l: "ro_list rd = Listed v (Inr objs)" by blast
  obtain er s where rep: "so_Replace (ops (ro_listed rd)) objs (r_store r) = (er, s)" by fastforce
  have "inv s" using replace [OF assms(1), of "ro_listed rd" objs] rep by simp
  moreover have "typed look (expectedType cfg) s"
    using replace_range [OF assms(1), of "ro_listed rd" objs] rep assms(2,3) l by (fastforce simp: typed_def lists_typed_def list_all_iff)
  ultimately show ?thesis
    using typed_loop [of "setLastSyncResourceVersion v (resyncChan cfg (ro_started rd) r\<lparr>r_store := s\<rparr>)" cfg fromObject "ro_attempts rd" v out r']
      assms(4) l rep
    by (cases er) (auto simp: ListAndWatch_def reflectSync_def resyncChan_def setLastSyncResourceVersion_def)
next
  case False
  then have "r_store r' = r_store r"
    using assms(4) by (auto simp: ListAndWatch_def resyncChan_def Let_def split: list_reply.splits sum.splits)
  with assms show ?thesis by simp
qed

lemma typed_run:
  "inv (r_store r) \<Longrightarrow> typed look (expectedType cfg) (r_store r) \<Longrightarrow> list_all (lists_typed cfg) rds \<Longrightarrow>
   inv (r_store (RunUntil cfg ops fromObject rds r)) \<and> typed look (expectedType cfg) (r_store (RunUntil cfg ops fromObject rds r))"
proof (induction rds arbitrary: r)
  case (Cons rd rds)
  obtain out r1 where run: "ListAndWatch cfg ops fromObject rd r = (out, r1)" by fastforce
  with typed_round [OF Cons.prems(1,2) _ run] Cons show ?case by (cases out) auto
qed simp

end

section \<open>The program's stores\<close>

text \<open>What a store holds, expired or not.\<close>

fun contents :: "store \<Rightarrow> string \<Rightarrow> kobject option" where
  "contents (CacheStore kf items) k = gm_get items k"
| "contents (TTLStore items ttl) k = map_option fst (gm_get items k)"

lemma StoreKey_meta: "hasMeta obj \<Longrightarrow> StoreKey st (Obj obj) = objKey obj"
  by (cases obj) (auto simp: hasMeta_def objKey_def KeyOf_def informer_config_def)

interpretation ct: keyed_store contents "storePut now" storeDel store_wf for now
proof unfold_locales
  fix m k v j assume "store_wf m"
  then show "contents (storePut now k v m) j = (if j = k then Some v else contents m j)" by (cases m) auto
next
  fix m k j assume "store_wf m"
  then show "contents (storeDel k m) j = (if j = k then None else contents m j)" by (cases m) auto
qed (rule st.inv_put st.inv_del; assumption)+

lemma contents_clear [simp]: "contents (storeClear st) k = None"
  by (cases st) auto

lemma keyAll_set: "keyAll st objs = Inr r \<Longrightarrow> set r = {(k, obj). obj \<in> set objs \<and> StoreKey st (Obj obj) = Inr k}"
  by (induction objs arbitrary: r) (auto split: sum.splits)

lemma keyAll_total: "\<forall>obj \<in> set objs. \<exists>k. StoreKey st (Obj obj) = Inr k \<Longrightarrow> \<exists>r. keyAll st objs = Inr r"
  by (induction objs) (auto split: sum.split)

lemma StoreReplace_contents:
  assumes "store_wf st" and "keyAll st objs = Inr r"
  shows "contents (snd (StoreReplace now objs st)) k = map_of (rev r) k"
  using assms ct.get_put_all [of "storeClear st" now r k] by (simp add: StoreReplace_def split: option.split)

interpretation rs: reflected_store storeOps contents store_wf
proof unfold_locales
  fix s obj k now assume s: "store_wf s" and k: "objKey obj = Inr k" "hasMeta obj"
  then show "store_wf (snd (so_Add (storeOps now) obj s)) \<and> contents (snd (so_Add (storeOps now) obj s)) = (contents s)(k \<mapsto> obj)"
    "store_wf (snd (so_Update (storeOps now) obj s)) \<and> contents (snd (so_Update (storeOps now) obj s)) = (contents s)(k \<mapsto> obj)"
    "store_wf (snd (so_Delete (storeOps now) obj s)) \<and> contents (snd (so_Delete (storeOps now) obj s)) = (contents s)(k := None)"
    by (auto simp: storeOps_def StoreAdd_def StoreUpdate_def StoreDelete_def StoreKey_meta ct.get_put ct.get_del st.inv_put st.inv_del)
next
  fix s items srv now assume s: "store_wf s" and l: "lists items srv" and m: "list_all hasMeta items"
  have "\<forall>obj \<in> set items. \<exists>k. StoreKey s (Obj obj) = Inr k"
    using l m by (fastforce simp: lists_def list_all_iff StoreKey_meta)
  then obtain r where r: "keyAll s items = Inr r" using keyAll_total by blast
  have mem: "(k, obj) \<in> set r \<longleftrightarrow> srv k = Some obj" for k obj
    using keyAll_set [OF r] l m by (fastforce simp: lists_def list_all_iff StoreKey_meta)
  have "contents (snd (StoreReplace now items s)) k = srv k" for k
  proof (cases "map_of (rev r) k")
    case None
    then have "(k, obj) \<notin> set r" for obj by (force simp: map_of_eq_None_iff)
    then have "srv k = None" using mem [of k] by (cases "srv k") auto
    with None show ?thesis by (simp add: StoreReplace_contents [OF s r])
  next
    case (Some obj)
    then show ?thesis using mem map_of_SomeD [OF Some] by (simp add: StoreReplace_contents [OF s r])
  qed
  moreover have "fst (StoreReplace now items s) = None" by (simp add: StoreReplace_def r)
  ultimately show "\<exists>s'. so_Replace (storeOps now) items s = (None, s') \<and> contents s' = srv"
    by (intro exI [of _ "snd (StoreReplace now items s)"]) (auto simp: storeOps_def prod_eq_iff)
next
  fix s items k obj now assume s: "store_wf s" and c: "contents (snd (so_Replace (storeOps now) items s)) k = Some obj"
  show "obj \<in> set items \<or> contents s k = Some obj"
  proof (cases "keyAll s items")
    case (Inl er)
    with c show ?thesis by (simp add: storeOps_def StoreReplace_def)
  next
    case (Inr r)
    with c show ?thesis
      using keyAll_set [OF Inr] by (auto simp: storeOps_def StoreReplace_contents [OF s Inr] dest!: map_of_SomeD)
  qed
qed (simp add: storeOps_def store_wf_Replace)

text \<open>The queue of an informer is told the same.\<close>

lemma reflectEvent_fifo:
  "watchEvent rng expected ev c f =
     (let (t, obj) = (case ev of WatchAdded obj \<Rightarrow> (AddedEvent, obj) | WatchModified obj \<Rightarrow> (ModifiedEvent, obj) | WatchDeleted obj \<Rightarrow> (DeletedEvent, obj))
      in if expected obj \<and> hasMeta obj then reflectEvent (fifoOps rng c) \<lparr>ev_Type = t, ev_Object = obj, ev_Version = v\<rparr> f else f)"
  "syncWith rng items c f = so_Replace (fifoOps rng c) items f"
  by (cases ev; simp add: reflectEvent_def fifoOps_def) (simp add: syncWith_def fifoOps_def)

section \<open>Properties\<close>

text \<open>
  C17: a store mirrors the server. However often the connection breaks, is refused or is closed,
  a watch is cut by an error or a resync, or a list fails: a store fed by its reflector is empty
  as long as no list succeeded, and from then on holds exactly the objects of one state of the
  server, the one whose version the reflector has on record and resumes from. When the watch has
  delivered all changes and stays open, that is the present state.
\<close>

theorem reflector_mirrors_server:
  assumes "server_log cfg v0 log" and "list_all (round_from v0 log) rds"
    and "r = RunUntil cfg storeOps fromObject rds (NewReflector (NewTTLStore ttl))"
  shows "(lastSyncResourceVersion r = [] \<and> contents (r_store r) = (\<lambda>k. None) \<or>
      (\<exists>!n. n \<le> length log \<and> lastSyncResourceVersion r = versionAt v0 log n) \<and>
      (\<forall>n \<le> length log. lastSyncResourceVersion r = versionAt v0 log n \<longrightarrow> contents (r_store r) = history log n)) \<and>
    (\<forall>rd n items bs a lasted ss.
       ro_list rd = Listed (versionAt v0 log n) (Inr items) \<and> n \<le> length log \<and> lists items (history log n) \<and>
       ro_attempts rd = bs @ [a] \<and> (\<forall>b \<in> set bs. at_reply b (versionAt v0 log n) = WatchRefused) \<and>
       at_reply a (versionAt v0 log n) = WatchOpen lasted ss \<and> received ss = drop n log \<and> length (received ss) = length ss \<longrightarrow>
       contents (r_store (snd (ListAndWatch cfg storeOps fromObject rd r))) = history log (length log))"
proof -
  let ?new = "NewReflector (NewTTLStore ttl)"
  have new: "store_wf (r_store ?new)" "lastSyncResourceVersion ?new = []" "contents (r_store ?new) = (\<lambda>k. None)"
    by (auto simp: NewReflector_def NewTTLStore_def)
  note run = rs.reflects_run [OF assms(1,2) new(1), of fromObject, folded assms(3)]
  have inj: "inj_on (versionAt v0 log) {..length log}" using assms(1) by (simp add: server_log_def)
  have "store_wf (r_store r)" using run new(1) by (auto simp: reflects_def)
  have up: "contents (r_store (snd (ListAndWatch cfg storeOps fromObject rd r))) = history log (length log)"
    if rd: "ro_list rd = Listed (versionAt v0 log n) (Inr items)" "ro_attempts rd = bs @ [a]"
      and n: "n \<le> length log" "lists items (history log n)"
      and w: "\<forall>b \<in> set bs. at_reply b (versionAt v0 log n) = WatchRefused" "at_reply a (versionAt v0 log n) = WatchOpen lasted ss"
        "received ss = drop n log" "length (received ss) = length ss" for rd n items bs a lasted ss
  proof -
    obtain r1 where r1: "reflects contents store_wf v0 log n r1"
        "ListAndWatch cfg storeOps fromObject rd r = watchLoop cfg storeOps fromObject (ro_attempts rd) (versionAt v0 log n) r1"
      using rs.reflects_listed [OF assms(1) \<open>store_wf (r_store r)\<close> n, of "ro_listed rd" "ro_started rd"] rd(1) by blast
    show ?thesis using rs.reflects_open [OF assms(1) r1(1) w, of fromObject] r1(2) rd(2) by (auto simp: reflects_def)
  qed
  have "lastSyncResourceVersion r = [] \<and> contents (r_store r) = (\<lambda>k. None) \<or>
      (\<exists>!n. n \<le> length log \<and> lastSyncResourceVersion r = versionAt v0 log n) \<and>
      (\<forall>n \<le> length log. lastSyncResourceVersion r = versionAt v0 log n \<longrightarrow> contents (r_store r) = history log n)"
    using run
  proof
    assume "\<exists>n. reflects contents store_wf v0 log n r"
    then obtain n where n: "n \<le> length log" "lastSyncResourceVersion r = versionAt v0 log n" "contents (r_store r) = history log n"
      by (auto simp: reflects_def)
    then have "m = n" if "m \<le> length log" "lastSyncResourceVersion r = versionAt v0 log m" for m
      using inj_onD [OF inj, of m n] that by simp
    with n show ?thesis by blast
  qed (simp add: new)
  with up show ?thesis by blast
qed

definition sample_log :: "event list" where
  "sample_log =
     [\<lparr>ev_Type = AddedEvent, ev_Object = KService sample_service, ev_Version = ''1''\<rparr>,
      \<lparr>ev_Type = DeletedEvent, ev_Object = KService sample_service, ev_Version = ''2''\<rparr>]"

definition sample_config :: reflector_config where
  "sample_config = \<lparr>expectedType = (\<lambda>obj. case obj of KService _ \<Rightarrow> True | _ \<Rightarrow> False), resyncPeriod = 0\<rparr>"

text \<open>The Service is listed; a watch is refused, the next one delivers what is given.\<close>

definition sample_round :: "selected list \<Rightarrow> round" where
  "sample_round ss =
     \<lparr>ro_started = 0, ro_listed = 0, ro_list = Listed ''1'' (Inr [KService sample_service]),
      ro_attempts = [\<lparr>at_reply = (\<lambda>v. WatchRefused), at_over = 0\<rparr>,
        \<lparr>at_reply = (\<lambda>v. if v = ''1'' then WatchOpen 0 ss else WatchRefused), at_over = 0\<rparr>]\<rparr>"

lemma sample_history:
  "history sample_log 1 = [''test/bar'' \<mapsto> KService sample_service]" "history sample_log 2 = (\<lambda>k. None)"
  using sample_key by (auto simp: history_def sample_log_def applyEvent_def)

lemma sample_server: "server_log sample_config ''0'' sample_log"
proof -
  have "{..length sample_log} = {0, 1, 2}" by (auto simp: sample_log_def)
  then show ?thesis by (simp add: server_log_def objectChange_def sample_config_def versionAt_def sample_log_def)
qed

lemma sample_lists: "lists [KService sample_service] (history sample_log 1)"
  unfolding sample_history using sample_key by (auto simp: lists_def split: if_splits)

lemma sample_at: "1 \<le> length sample_log" "versionAt ''0'' sample_log 1 = ''1''"
  by (simp_all add: versionAt_def sample_log_def)

lemma sample_round_from:
  assumes "prefix (received ss) (drop 1 sample_log)"
  shows "round_from ''0'' sample_log (sample_round ss)"
proof -
  have "n = 1" if "n \<le> length sample_log" "versionAt ''0'' sample_log n = ''1''" for n
    using inj_onD [OF sample_server [unfolded server_log_def, THEN conjunct2], of n 1] that sample_at by simp
  then have "watch_from sample_log n (if versionAt ''0'' sample_log n = ''1'' then WatchOpen 0 ss else WatchRefused)"
    if "n \<le> length sample_log" for n using assms that by (auto simp: watch_from_def)
  moreover have "list_from ''0'' sample_log (Listed ''1'' (Inr [KService sample_service]))"
    unfolding list_from_def using sample_at sample_lists by (metis list_reply.inject(3) sum.inject(2))
  ultimately show ?thesis by (simp add: round_from_def sample_round_def) (simp add: watch_from_def)
qed

theorem reflector_mirrors_server_witness:
  "let r = RunUntil sample_config storeOps (\<lambda>ev. Err []) [sample_round [Closed]] (NewReflector (NewTTLStore 1));
       rd = sample_round [Received 7 (sample_log ! 1)]
   in lastSyncResourceVersion r = ''1'' \<and> contents (r_store r) = [''test/bar'' \<mapsto> KService sample_service] \<and>
      contents (r_store (snd (ListAndWatch sample_config storeOps (\<lambda>ev. Err []) rd r))) = (\<lambda>k. None)"
proof -
  let ?r = "RunUntil sample_config storeOps (\<lambda>ev. Err []) [sample_round [Closed]] (NewReflector (NewTTLStore 1))"
  let ?rd = "sample_round [Received 7 (sample_log ! 1)]"
  have rounds: "list_all (round_from ''0'' sample_log) [sample_round [Closed]]" using sample_round_from [of "[Closed]"] by simp
  note mirror = reflector_mirrors_server [OF sample_server rounds refl, of "\<lambda>ev. Err []" 1]
  have v: "lastSyncResourceVersion ?r = ''1''"
    by code_simp
  then have "contents (r_store ?r) = history sample_log 1" using mirror [THEN conjunct1] sample_at by auto
  moreover have "contents (r_store (snd (ListAndWatch sample_config storeOps (\<lambda>ev. Err []) ?rd ?r))) = history sample_log (length sample_log)"
  proof (rule mirror [THEN conjunct2, rule_format, of ?rd 1 "[KService sample_service]" "[\<lparr>at_reply = (\<lambda>v. WatchRefused), at_over = 0\<rparr>]"
        "\<lparr>at_reply = (\<lambda>v. if v = ''1'' then WatchOpen 0 [Received 7 (sample_log ! 1)] else WatchRefused), at_over = 0\<rparr>" 0
        "[Received 7 (sample_log ! 1)]"], intro conjI)
    show "received [Received 7 (sample_log ! 1)] = drop 1 sample_log" "length (received [Received 7 (sample_log ! 1)]) = length [Received 7 (sample_log ! 1)]"
      by (simp_all add: sample_log_def)
  qed (simp_all add: sample_at sample_lists sample_round_def del: One_nat_def)
  moreover have "length sample_log = 2" by (simp add: sample_log_def)
  ultimately show ?thesis unfolding Let_def using v by (simp only: sample_history simp_thms)
qed



end
