(* ===== verification/Kube_Labels.thy ===== *)
theory Kube_Labels
  imports Go_Strings
begin

text \<open>
  Label selectors: the requirements and selectors of \<^verbatim>\<open>pkg/labels/selector.go\<close>, the validation
  of label keys and values (\<^verbatim>\<open>pkg/util/validation\<close>), and \<^verbatim>\<open>selectorFromMap\<close> of
  \<^verbatim>\<open>kubernetes/util.go\<close>, which makes a selector from the command line's map. The regular
  expressions of the validation are written out as conditions on the characters.
\<close>

section \<open>Validation\<close>

definition isLower :: "char \<Rightarrow> bool" where
  "isLower c \<longleftrightarrow> CHR ''a'' \<le> c \<and> c \<le> CHR ''z''"

definition isUpper :: "char \<Rightarrow> bool" where
  "isUpper c \<longleftrightarrow> CHR ''A'' \<le> c \<and> c \<le> CHR ''Z''"

definition isDigit :: "char \<Rightarrow> bool" where
  "isDigit c \<longleftrightarrow> CHR ''0'' \<le> c \<and> c \<le> CHR ''9''"

text \<open>A text whose characters are in \<open>inner\<close>, the first and the last one in \<open>outer\<close>.\<close>

definition enclosed :: "(char \<Rightarrow> bool) \<Rightarrow> (char \<Rightarrow> bool) \<Rightarrow> string \<Rightarrow> bool" where
  "enclosed outer inner s \<longleftrightarrow> s \<noteq> [] \<and> outer (hd s) \<and> outer (last s) \<and> list_all inner s"

definition qnameChar :: "char \<Rightarrow> bool" where
  "qnameChar c \<longleftrightarrow> isUpper c \<or> isLower c \<or> isDigit c"

definition qnameExtChar :: "char \<Rightarrow> bool" where
  "qnameExtChar c \<longleftrightarrow> c = CHR ''-'' \<or> qnameChar c \<or> c = CHR ''_'' \<or> c = CHR ''.''"

definition qualifiedNameRegexp :: "string \<Rightarrow> bool" where
  "qualifiedNameRegexp s = enclosed qnameChar qnameExtChar s"

definition dns1123LabelRegexp :: "string \<Rightarrow> bool" where
  "dns1123LabelRegexp s = enclosed (\<lambda>c. isLower c \<or> isDigit c) (\<lambda>c. c = CHR ''-'' \<or> isLower c \<or> isDigit c) s"

definition IsDNS1123Subdomain :: "string \<Rightarrow> bool" where
  "IsDNS1123Subdomain v \<longleftrightarrow> length v \<le> 253 \<and> list_all dns1123LabelRegexp (split_on CHR ''.'' v)"

definition IsQualifiedName :: "string \<Rightarrow> bool" where
  "IsQualifiedName v =
     (let name_ok = (\<lambda>name. name \<noteq> [] \<and> length name \<le> 63 \<and> qualifiedNameRegexp name) in
      case split_on CHR ''/'' v of
        [name] \<Rightarrow> name_ok name
      | [prefix, name] \<Rightarrow> if prefix = [] \<or> \<not> IsDNS1123Subdomain prefix then False else name_ok name
      | _ \<Rightarrow> False)"

definition IsValidLabelValue :: "string \<Rightarrow> bool" where
  "IsValidLabelValue v \<longleftrightarrow> length v \<le> 63 \<and> (v = [] \<or> qualifiedNameRegexp v)"

section \<open>Requirements and selectors\<close>

datatype operator =
    DoesNotExistOperator | EqualsOperator | DoubleEqualsOperator | InOperator | NotEqualsOperator | NotInOperator | ExistsOperator

record requirement =
  rq_key :: string
  rq_operator :: operator
  rq_strValues :: "string list"    \<comment> \<open>a set, without duplicates\<close>

definition NewRequirement :: "string \<Rightarrow> operator \<Rightarrow> string list \<Rightarrow> err + requirement" where
  "NewRequirement key opr vals =
     (let arity = (case opr of
          InOperator \<Rightarrow> if length vals = 0 then Some ''values set can not be empty'' else None
        | NotInOperator \<Rightarrow> if length vals = 0 then Some ''values set can not be empty'' else None
        | EqualsOperator \<Rightarrow> if length vals \<noteq> 1 then Some ''exact-match compatibility requires one single value'' else None
        | DoubleEqualsOperator \<Rightarrow> if length vals \<noteq> 1 then Some ''exact-match compatibility requires one single value'' else None
        | NotEqualsOperator \<Rightarrow> if length vals \<noteq> 1 then Some ''exact-match compatibility requires one single value'' else None
        | ExistsOperator \<Rightarrow> if length vals \<noteq> 0 then Some ''values set must be empty for exists and does not exist'' else None
        | DoesNotExistOperator \<Rightarrow> if length vals \<noteq> 0 then Some ''values set must be empty for exists and does not exist'' else None)
      in if \<not> IsQualifiedName key then Inl (Err ''invalid label key'')
         else (case arity of
           Some msg \<Rightarrow> Inl (Err msg)
         | None \<Rightarrow>
             if list_all IsValidLabelValue vals
             then Inr \<lparr>rq_key = key, rq_operator = opr, rq_strValues = vals\<rparr>
             else Inl (Err ''invalid label value'')))"

definition RequirementMatches :: "requirement \<Rightarrow> (string, string) gomap \<Rightarrow> bool" where
  "RequirementMatches r ls =
     (case rq_operator r of
        InOperator \<Rightarrow> (case gm_get ls (rq_key r) of None \<Rightarrow> False | Some v \<Rightarrow> v \<in> set (rq_strValues r))
      | EqualsOperator \<Rightarrow> (case gm_get ls (rq_key r) of None \<Rightarrow> False | Some v \<Rightarrow> v \<in> set (rq_strValues r))
      | DoubleEqualsOperator \<Rightarrow> (case gm_get ls (rq_key r) of None \<Rightarrow> False | Some v \<Rightarrow> v \<in> set (rq_strValues r))
      | NotInOperator \<Rightarrow> (case gm_get ls (rq_key r) of None \<Rightarrow> True | Some v \<Rightarrow> v \<notin> set (rq_strValues r))
      | NotEqualsOperator \<Rightarrow> (case gm_get ls (rq_key r) of None \<Rightarrow> True | Some v \<Rightarrow> v \<notin> set (rq_strValues r))
      | ExistsOperator \<Rightarrow> gm_get ls (rq_key r) \<noteq> None
      | DoesNotExistOperator \<Rightarrow> gm_get ls (rq_key r) = None)"

type_synonym selector = "requirement list"

definition NewSelector :: selector where "NewSelector = []"

definition Everything :: selector where "Everything = []"

definition SelectorEmpty :: "selector \<Rightarrow> bool" where
  "SelectorEmpty sel \<longleftrightarrow> length sel = 0"

definition SelectorAdd :: "requirement list \<Rightarrow> selector \<Rightarrow> selector" where
  "SelectorAdd reqs sel = go_sort (\<lambda>a b. rq_key a < rq_key b) (sel @ reqs)"

definition SelectorMatches :: "selector \<Rightarrow> (string, string) gomap \<Rightarrow> bool" where
  "SelectorMatches sel ls = list_all (\<lambda>r. RequirementMatches r ls) sel"

section \<open>The program's selector\<close>

text \<open>A key without the prefix of the program's annotations gets it; an entry that is not valid is logged and left out.\<close>

definition selectorKey :: "string \<Rightarrow> string \<Rightarrow> string" where
  "selectorKey keyspace k = (if has_prefix k keyspace then k else path_join [keyspace, k])"

definition selectorStep :: "string \<Rightarrow> string \<times> string \<Rightarrow> selector \<Rightarrow> selector" where
  "selectorStep keyspace e s =
     (case NewRequirement (selectorKey keyspace (fst e)) DoubleEqualsOperator [snd e] of
        Inr req \<Rightarrow> SelectorAdd [req] s
      | Inl er \<Rightarrow> s)"

definition selectorFromMap :: "(string list \<Rightarrow> string list) \<Rightarrow> string \<Rightarrow> (string, string) gomap \<Rightarrow> selector" where
  "selectorFromMap rng keyspace m =
     (let s = fold (selectorStep keyspace) (gm_range rng m) NewSelector
      in if SelectorEmpty s then Everything else s)"

text \<open>Which entries count.\<close>

definition selects :: "string \<Rightarrow> string \<times> string \<Rightarrow> bool" where
  "selects keyspace e \<longleftrightarrow> IsQualifiedName (selectorKey keyspace (fst e)) \<and> IsValidLabelValue (snd e)"

lemma set_SelectorAdd: "set (SelectorAdd reqs sel) = set sel \<union> set reqs"
  by (simp add: SelectorAdd_def)

lemma set_selector_fold:
  "set (fold (selectorStep keyspace) es s) = set s \<union>
     (\<lambda>e. \<lparr>rq_key = selectorKey keyspace (fst e), rq_operator = DoubleEqualsOperator, rq_strValues = [snd e]\<rparr>) `
       {e \<in> set es. selects keyspace e}"
  by (induction es arbitrary: s)
    (auto simp: selectorStep_def NewRequirement_def set_SelectorAdd selects_def split: sum.split)

lemma selectorFromMap_matches:
  assumes "gm_wf m" and "range_ok rng"
  shows "SelectorMatches (selectorFromMap rng keyspace m) ls \<longleftrightarrow>
     (\<forall>(k, v) \<in> set m. selects keyspace (k, v) \<longrightarrow> gm_get ls (selectorKey keyspace k) = Some v)"
proof -
  let ?s = "fold (selectorStep keyspace) (gm_range rng m) NewSelector"
  have "selectorFromMap rng keyspace m = ?s"
    by (simp add: selectorFromMap_def Let_def SelectorEmpty_def Everything_def)
  moreover have "set ?s = (\<lambda>e. \<lparr>rq_key = selectorKey keyspace (fst e), rq_operator = DoubleEqualsOperator, rq_strValues = [snd e]\<rparr>) `
       {e \<in> set m. selects keyspace e}"
    using set_gm_range [OF assms] by (simp add: set_selector_fold NewSelector_def)
  ultimately show ?thesis
    by (auto simp: SelectorMatches_def list_all_iff RequirementMatches_def split: option.splits)
qed

section \<open>Properties\<close>

text \<open>
  C28: what the program watches. The selector made from the command line's map accepts an object
  exactly if it carries, for every entry with a valid key and value, that value under the key
  with the program's prefix; the order in which Go walks the map does not matter. An entry that
  is not valid restricts nothing.
\<close>

theorem selector_selects:
  assumes "gm_wf m" and "range_ok rng"
  shows "SelectorMatches (selectorFromMap rng keyspace m) ls \<longleftrightarrow>
     (\<forall>k v. gm_get m k = Some v \<and> IsQualifiedName (selectorKey keyspace k) \<and> IsValidLabelValue v \<longrightarrow>
        gm_get ls (selectorKey keyspace k) = Some v)"
proof -
  have "gm_get m k = Some v \<longleftrightarrow> (k, v) \<in> set m" for k v
    using gm_wf_distinct [OF assms(1)] by (auto intro: map_of_is_SomeI dest: map_of_SomeD)
  then show ?thesis unfolding selectorFromMap_matches [OF assms] by (auto simp: selects_def)
qed

theorem selector_selects_witness:
  "let m = [(''bad key'', ''x''), (''type'', ''ext'')]; sel = selectorFromMap rev ''romulus/'' m
   in SelectorMatches sel [(''romulus/type'', ''ext'')] \<and> \<not> SelectorMatches sel [(''type'', ''ext'')]"
proof -
  have wf: "gm_wf [(''bad key'', ''x''), (''type'', ''ext'')]" by (simp add: gm_wf_def)
  have facts: "selectorKey ''romulus/'' ''type'' = ''romulus/type''" "IsQualifiedName ''romulus/type''"
    "IsValidLabelValue ''ext''" "\<not> IsQualifiedName (selectorKey ''romulus/'' ''bad key'')"
    by (code_simp, code_simp, code_simp, code_simp)
  show ?thesis unfolding Let_def selector_selects [OF wf range_ok_rev] using facts by auto
qed

end
