(* ===== verification/Kube_Selector.thy ===== *)
theory Kube_Selector
  imports Kube_Labels
begin

text \<open>
  Selectors as text, \<^verbatim>\<open>pkg/labels/selector.go\<close>: the program sends its selector to the server in
  printed form, where it is parsed again. The lexer reads from what is left of the text, the
  parser from what is left of the tokens; \<^verbatim>\<open>unread\<close> is to leave the character in place. Looking
  past the last token panics, \<open>None\<close>.
\<close>

section \<open>Printing\<close>

definition RequirementString :: "requirement \<Rightarrow> string" where
  "RequirementString r =
     (let values = join '','' (rq_strValues r) in
      case rq_operator r of
        DoesNotExistOperator \<Rightarrow> ''!'' @ rq_key r
      | ExistsOperator \<Rightarrow> rq_key r
      | EqualsOperator \<Rightarrow> rq_key r @ ''='' @ values
      | DoubleEqualsOperator \<Rightarrow> rq_key r @ ''=='' @ values
      | NotEqualsOperator \<Rightarrow> rq_key r @ ''!='' @ values
      | InOperator \<Rightarrow> rq_key r @ '' in '' @ ''('' @ values @ '')''
      | NotInOperator \<Rightarrow> rq_key r @ '' notin '' @ ''('' @ values @ '')'')"

definition SelectorString :: "selector \<Rightarrow> string" where
  "SelectorString sel = join '','' (map RequirementString sel)"

section \<open>Lexer\<close>

datatype token =
    ErrorToken | EndOfStringToken | ClosedParToken | CommaToken | DoesNotExistToken | DoubleEqualsToken
  | EqualsToken | IdentifierToken | InToken | NotEqualsToken | NotInToken | OpenParToken

type_synonym scanned_item = "token \<times> string"

definition string2token :: "string \<Rightarrow> token option" where
  "string2token = map_of
     [('')'', ClosedParToken), ('','', CommaToken), (''!'', DoesNotExistToken), (''=='', DoubleEqualsToken),
      (''='', EqualsToken), (''in'', InToken), (''!='', NotEqualsToken), (''notin'', NotInToken), (''('', OpenParToken)]"

definition isWhitespace :: "char \<Rightarrow> bool" where
  "isWhitespace ch \<longleftrightarrow> ch = CHR '' '' \<or> ch = CHR 0x09 \<or> ch = CHR 0x0D \<or> ch = CHR 0x0A"

definition isSpecialSymbol :: "char \<Rightarrow> bool" where
  "isSpecialSymbol ch \<longleftrightarrow>
     ch = CHR ''='' \<or> ch = CHR ''!'' \<or> ch = CHR ''('' \<or> ch = CHR '')'' \<or> ch = CHR '',''"

text \<open>At the end of the text \<^verbatim>\<open>read\<close> gives a zero byte, as it does for a zero byte in the text.\<close>

fun scanIdentifier :: "string \<Rightarrow> string \<Rightarrow> string \<times> string" where
  "scanIdentifier buffer [] = (buffer, [])"
| "scanIdentifier buffer (ch # s) =
     (if ch = CHR 0x00 then (buffer, s)
      else if isSpecialSymbol ch \<or> isWhitespace ch then (buffer, ch # s)
      else scanIdentifier (buffer @ [ch]) s)"

definition scanIdOrKeyword :: "string \<Rightarrow> scanned_item \<times> string" where
  "scanIdOrKeyword s =
     (let (lit, rest) = scanIdentifier [] s in
      case string2token lit of
        Some val \<Rightarrow> ((val, lit), rest)
      | None \<Rightarrow> ((IdentifierToken, lit), rest))"

definition specialItem :: "string \<Rightarrow> scanned_item option \<Rightarrow> scanned_item" where
  "specialItem buffer lastScannedItem =
     (case lastScannedItem of
        None \<Rightarrow> (ErrorToken, ''error expected: keyword found '' @ CHR 0x27 # buffer @ [CHR 0x27])
      | Some item \<Rightarrow> item)"

fun scanSymbols :: "string \<Rightarrow> scanned_item option \<Rightarrow> string \<Rightarrow> scanned_item \<times> string" where
  "scanSymbols buffer lastScannedItem [] = (specialItem buffer lastScannedItem, [])"
| "scanSymbols buffer lastScannedItem (ch # s) =
     (if ch = CHR 0x00 then (specialItem buffer lastScannedItem, s)
      else if isSpecialSymbol ch then
        (let buffer = buffer @ [ch] in
         case string2token buffer of
           Some token \<Rightarrow> scanSymbols buffer (Some (token, buffer)) s
         | None \<Rightarrow>
             if lastScannedItem \<noteq> None then (specialItem buffer lastScannedItem, ch # s)
             else scanSymbols buffer lastScannedItem s)
      else (specialItem buffer lastScannedItem, ch # s))"

definition scanSpecialSymbol :: "string \<Rightarrow> scanned_item \<times> string" where
  "scanSpecialSymbol s = scanSymbols [] None s"

definition skipWhiteSpaces :: "string \<Rightarrow> string" where
  "skipWhiteSpaces s = dropWhile isWhitespace s"

definition Lex :: "string \<Rightarrow> scanned_item \<times> string" where
  "Lex s =
     (case skipWhiteSpaces s of
        [] \<Rightarrow> ((EndOfStringToken, []), [])
      | ch # rest \<Rightarrow>
          if ch = CHR 0x00 then ((EndOfStringToken, []), rest)
          else if isSpecialSymbol ch then scanSpecialSymbol (ch # rest)
          else scanIdOrKeyword (ch # rest))"

lemma scanIdentifier_shorter: "length (snd (scanIdentifier b s)) \<le> length s"
  by (induction b s rule: scanIdentifier.induct) auto

lemma scanSymbols_shorter: "length (snd (scanSymbols b l s)) \<le> length s"
proof (induction s arbitrary: b l)
  case (Cons ch s)
  then show ?case by (simp add: Let_def le_SucI split: option.split)
qed simp

lemma skipWhiteSpaces_shorter: "length (skipWhiteSpaces s) \<le> length s"
  by (simp add: skipWhiteSpaces_def length_dropWhile_le)

lemma skipWhiteSpaces_head: "skipWhiteSpaces s = ch # rest \<Longrightarrow> \<not> isWhitespace ch"
  by (metis hd_dropWhile list.sel(1) list.distinct(1) skipWhiteSpaces_def)

text \<open>Unless it gives the end of the text, the lexer takes at least one character.\<close>

lemma Lex_shorter: "Lex s = ((tok, lit), rest) \<Longrightarrow> tok \<noteq> EndOfStringToken \<Longrightarrow> length rest < length s"
proof -
  assume lex: "Lex s = ((tok, lit), rest)" "tok \<noteq> EndOfStringToken"
  then obtain ch r where w: "skipWhiteSpaces s = ch # r" and ch: "ch \<noteq> CHR 0x00"
    by (auto simp: Lex_def split: list.splits if_splits)
  have "length rest \<le> length r"
  proof (cases "isSpecialSymbol ch")
    case True
    then have "string2token [ch] \<noteq> None" by (auto simp: isSpecialSymbol_def string2token_def)
    then show ?thesis using lex w ch True scanSymbols_shorter [of "[ch]" _ r]
      by (auto simp: Lex_def scanSpecialSymbol_def split: option.splits) (metis snd_conv)
  next
    case False
    then show ?thesis using lex w ch skipWhiteSpaces_head [OF w] scanIdentifier_shorter [of "[ch]" r]
      by (auto simp: Lex_def scanIdOrKeyword_def split: option.splits prod.splits)
  qed
  with w skipWhiteSpaces_shorter [of s] show ?thesis by simp
qed

function scan :: "string \<Rightarrow> scanned_item list" where
  "scan s =
     (case Lex s of (item, rest) \<Rightarrow>
        if fst item = EndOfStringToken then [item] else item # scan rest)"
  by pat_completeness auto

termination by (relation "measure length") (metis Lex_shorter in_measure prod.collapse wf_measure)+

declare scan.simps [simp del]

section \<open>Parser\<close>

datatype parser_context = KeyAndOperator | Values

definition contextToken :: "parser_context \<Rightarrow> token \<Rightarrow> token" where
  "contextToken context tok = (if context = Values \<and> (tok = InToken \<or> tok = NotInToken) then IdentifierToken else tok)"

fun lookahead :: "parser_context \<Rightarrow> scanned_item list \<Rightarrow> scanned_item go" where
  "lookahead context [] = None"
| "lookahead context ((tok, lit) # items) = Some (contextToken context tok, lit)"

fun consume :: "parser_context \<Rightarrow> scanned_item list \<Rightarrow> (scanned_item \<times> scanned_item list) go" where
  "consume context [] = None"
| "consume context ((tok, lit) # items) = Some ((contextToken context tok, lit), items)"

text \<open>A set of strings is the list of its elements in order; \<^verbatim>\<open>Insert\<close> keeps it so.\<close>

definition setInsert :: "string \<Rightarrow> string list \<Rightarrow> string list" where
  "setInsert x s = (if x \<in> set s then s else insort x s)"

definition expectedErr :: "string \<Rightarrow> string \<Rightarrow> err" where
  "expectedErr lit what = Err (''found '' @ CHR 0x27 # lit @ CHR 0x27 # '', expected: '' @ what)"

text \<open>The operator stays empty, \<open>None\<close>, if none can be inferred.\<close>

definition parseKeyAndInferOperator ::
  "scanned_item list \<Rightarrow> (err + (string \<times> operator option) \<times> scanned_item list) go" where
  "parseKeyAndInferOperator items = do {
     ((tok, literal), items) \<leftarrow> consume Values items;
     (((tok, literal), operator), items) \<leftarrow>
       (if tok = DoesNotExistToken then do {
          (item, items) \<leftarrow> consume Values items;
          Some ((item, Some DoesNotExistOperator), items)
        } else Some (((tok, literal), None), items));
     (if tok \<noteq> IdentifierToken then Some (Inl (expectedErr literal ''identifier''))
      else if \<not> IsQualifiedName literal then Some (Inl (Err ''invalid label key''))
      else do {
        (t, _) \<leftarrow> lookahead Values items;
        Some (Inr ((literal,
          if (t = EndOfStringToken \<or> t = CommaToken) \<and> operator \<noteq> Some DoesNotExistOperator then Some ExistsOperator
          else operator), items))
      })
   }"

definition parseOperator :: "scanned_item list \<Rightarrow> (err + operator \<times> scanned_item list) go" where
  "parseOperator items = do {
     ((tok, lit), items) \<leftarrow> consume KeyAndOperator items;
     Some (case tok of
        InToken \<Rightarrow> Inr (InOperator, items)
      | EqualsToken \<Rightarrow> Inr (EqualsOperator, items)
      | DoubleEqualsToken \<Rightarrow> Inr (DoubleEqualsOperator, items)
      | NotInToken \<Rightarrow> Inr (NotInOperator, items)
      | NotEqualsToken \<Rightarrow> Inr (NotEqualsOperator, items)
      | _ \<Rightarrow> Inl (expectedErr lit ''an operator''))
   }"

fun parseIdentifiersList :: "string list \<Rightarrow> scanned_item list \<Rightarrow> (err + string list \<times> scanned_item list) go" where
  "parseIdentifiersList s [] = None"
| "parseIdentifiersList s ((tok, lit) # items) =
     (if contextToken Values tok = IdentifierToken then
        (case lookahead Values items of
           None \<Rightarrow> None
         | Some (tok2, lit2) \<Rightarrow>
             if tok2 = CommaToken then parseIdentifiersList (setInsert lit s) items
             else if tok2 = ClosedParToken then Some (Inr (setInsert lit s, items))
             else Some (Inl (expectedErr lit2 '', or )'')))
      else if tok = CommaToken then
        (let s = (if length s = 0 then setInsert [] s else s) in
         case items of
           [] \<Rightarrow> None
         | (tok2, lit2) # items2 \<Rightarrow>
             if tok2 = ClosedParToken then Some (Inr (setInsert [] s, items))
             else if tok2 = CommaToken then parseIdentifiersList (setInsert [] s) items2
             else parseIdentifiersList s items)
      else Some (Inl (expectedErr lit '', or identifier'')))"

definition parseValues :: "scanned_item list \<Rightarrow> (err + string list \<times> scanned_item list) go" where
  "parseValues items = do {
     ((tok, lit), items) \<leftarrow> consume Values items;
     (if tok \<noteq> OpenParToken then Some (Inl (expectedErr lit ''(''))
      else do {
        (tok, lit) \<leftarrow> lookahead Values items;
        (if tok = IdentifierToken \<or> tok = CommaToken then do {
           r \<leftarrow> parseIdentifiersList [] items;
           (case r of
              Inl er \<Rightarrow> Some (Inl er)
            | Inr (s, items) \<Rightarrow> do {
                ((tok, _), items) \<leftarrow> consume Values items;
                Some (if tok \<noteq> ClosedParToken then Inl (expectedErr lit '')'') else Inr (s, items))
              })
         } else if tok = ClosedParToken then do {
           (_, items) \<leftarrow> consume Values items;
           Some (Inr ([[]], items))
         } else Some (Inl (expectedErr lit '', ) or identifier'')))
      })
   }"

definition parseExactValue :: "scanned_item list \<Rightarrow> (err + string list \<times> scanned_item list) go" where
  "parseExactValue items = do {
     (tok, lit) \<leftarrow> lookahead Values items;
     (if tok = EndOfStringToken \<or> tok = CommaToken then Some (Inr ([[]], items))
      else do {
        ((tok, lit), items) \<leftarrow> consume Values items;
        Some (if tok = IdentifierToken then Inr ([lit], items) else Inl (expectedErr lit ''identifier''))
      })
   }"

definition withRest :: "scanned_item list \<Rightarrow> err + 'a \<Rightarrow> err + 'a \<times> scanned_item list" where
  "withRest items r = (case r of Inl er \<Rightarrow> Inl er | Inr x \<Rightarrow> Inr (x, items))"

definition parseRequirement :: "scanned_item list \<Rightarrow> (err + requirement \<times> scanned_item list) go" where
  "parseRequirement items = do {
     r \<leftarrow> parseKeyAndInferOperator items;
     (case r of
        Inl er \<Rightarrow> Some (Inl er)
      | Inr ((key, operator), items) \<Rightarrow>
          if operator = Some ExistsOperator \<or> operator = Some DoesNotExistOperator
          then Some (withRest items (NewRequirement key (the operator) []))
          else do {
            r \<leftarrow> parseOperator items;
            (case r of
               Inl er \<Rightarrow> Some (Inl er)
             | Inr (operator, items) \<Rightarrow> do {
                 r \<leftarrow> (if operator = InOperator \<or> operator = NotInOperator then parseValues items
                      else parseExactValue items);
                 Some (case r of
                    Inl er \<Rightarrow> Inl er
                  | Inr (values, items) \<Rightarrow> withRest items (NewRequirement key operator values))
               })
          })
   }"

text \<open>Every parser leaves fewer tokens than it got, or as many if it looked only.\<close>

lemma consume_shorter: "consume context items = Some (item, rest) \<Longrightarrow> length items = Suc (length rest)"
  by (cases "(context, items)" rule: consume.cases) auto

lemma parseKey_shorter:
  "parseKeyAndInferOperator items = Some (Inr (ko, rest)) \<Longrightarrow> length rest < length items"
  by (auto simp: parseKeyAndInferOperator_def dest!: consume_shorter split: bind_splits if_splits)

lemma parseOperator_shorter: "parseOperator items = Some (Inr (opr, rest)) \<Longrightarrow> length rest < length items"
  by (auto simp: parseOperator_def dest!: consume_shorter split: bind_splits token.splits)

lemma parseIdentifiersList_shorter:
  "parseIdentifiersList s items = Some (Inr (s', rest)) \<Longrightarrow> length rest < length items"
proof (induction s items rule: parseIdentifiersList.induct)
  case (2 s tok lit items)
  then show ?case by (fastforce simp: Let_def split: if_splits option.splits prod.splits list.splits)
qed simp

lemma parseValues_shorter: "parseValues items = Some (Inr (s, rest)) \<Longrightarrow> length rest < length items"
  by (fastforce simp: parseValues_def dest!: consume_shorter parseIdentifiersList_shorter
      split: bind_splits if_splits sum.splits)

lemma parseExactValue_shorter: "parseExactValue items = Some (Inr (s, rest)) \<Longrightarrow> length rest \<le> length items"
  by (auto simp: parseExactValue_def dest!: consume_shorter split: bind_splits if_splits)

lemma parseRequirement_shorter: "parseRequirement items = Some (Inr (r, rest)) \<Longrightarrow> length rest < length items"
  by (auto simp: parseRequirement_def withRest_def
      dest!: parseKey_shorter parseOperator_shorter parseValues_shorter parseExactValue_shorter
      split: bind_splits sum.splits if_splits)

function parseLoop :: "requirement list \<Rightarrow> scanned_item list \<Rightarrow> (err + requirement list) go" where
  "parseLoop requirements items =
     (case lookahead Values items of
        None \<Rightarrow> None
      | Some (tok, lit) \<Rightarrow>
          if tok = IdentifierToken \<or> tok = DoesNotExistToken then
            (case parseRequirement items of
               None \<Rightarrow> None
             | Some (Inl er) \<Rightarrow> Some (Inl (Err ''unable to parse requirement''))
             | Some (Inr (r, rest)) \<Rightarrow>
                 (case consume Values rest of
                    None \<Rightarrow> None
                  | Some ((t, l), rest2) \<Rightarrow>
                      if t = EndOfStringToken then Some (Inr (requirements @ [r]))
                      else if t = CommaToken then
                        (case lookahead Values rest2 of
                           None \<Rightarrow> None
                         | Some (t2, l2) \<Rightarrow>
                             if t2 \<noteq> IdentifierToken \<and> t2 \<noteq> DoesNotExistToken
                             then Some (Inl (expectedErr l2 ''identifier after ,''))
                             else parseLoop (requirements @ [r]) rest2)
                      else Some (Inl (expectedErr l '', or end of string''))))
          else if tok = EndOfStringToken then Some (Inr requirements)
          else Some (Inl (expectedErr lit ''!, identifier, or end of string'')))"
  by pat_completeness auto

termination
  by (relation "measure (length \<circ> snd)") (auto dest!: parseRequirement_shorter consume_shorter)

declare parseLoop.simps [simp del]

definition Parse :: "string \<Rightarrow> (err + selector) go" where
  "Parse selector =
     map_option (map_sum id (go_sort (\<lambda>a b. rq_key a < rq_key b))) (parseLoop [] (scan selector))"

section \<open>What the lexer makes of printed text\<close>

definition wordChar :: "char \<Rightarrow> bool" where
  "wordChar c \<longleftrightarrow> c \<noteq> CHR 0x00 \<and> \<not> isSpecialSymbol c \<and> \<not> isWhitespace c"

lemma set_split_by: "set s \<subseteq> {c. p c} \<union> (\<Union>w \<in> set (split_by p s). set w)"
proof (induction s)
  case (Cons c s)
  then show ?case by (cases "split_by p s") auto
qed simp

lemma set_split_on: "set s \<subseteq> insert d (\<Union>w \<in> set (split_on d s). set w)"
  using set_split_by [of s "\<lambda>c. c = d"] by (auto simp: split_on_def)

lemma enclosed_chars: "enclosed outer inner s \<Longrightarrow> c \<in> set s \<Longrightarrow> inner c"
  by (auto simp: enclosed_def list_all_iff)

lemma wordChar_chars:
  "isLower c \<Longrightarrow> wordChar c" "isUpper c \<Longrightarrow> wordChar c" "isDigit c \<Longrightarrow> wordChar c"
  "wordChar CHR ''-''" "wordChar CHR ''_''" "wordChar CHR ''.''" "wordChar CHR ''/''"
  by (auto simp: wordChar_def isLower_def isUpper_def isDigit_def isSpecialSymbol_def isWhitespace_def less_eq_char_def)

lemma qnameExtChar_word: "qnameExtChar c \<Longrightarrow> wordChar c"
  by (auto simp: qnameExtChar_def qnameChar_def intro: wordChar_chars)

lemma subdomain_chars:
  assumes "IsDNS1123Subdomain v" and "c \<in> set v" shows "wordChar c"
proof -
  consider "c = CHR ''.''" | w where "w \<in> set (split_on CHR ''.'' v)" "c \<in> set w"
    using set_split_on [of v "CHR ''.''"] assms(2) by auto
  then show ?thesis
  proof cases
    case (2 w)
    then have "dns1123LabelRegexp w" using assms(1) by (auto simp: IsDNS1123Subdomain_def list_all_iff)
    with 2(2) show ?thesis by (auto simp: dns1123LabelRegexp_def dest!: enclosed_chars intro: wordChar_chars)
  qed (simp add: wordChar_chars)
qed

lemma qname_chars: "qualifiedNameRegexp w \<Longrightarrow> c \<in> set w \<Longrightarrow> wordChar c"
  by (auto simp: qualifiedNameRegexp_def dest: enclosed_chars intro: qnameExtChar_word)

text \<open>A valid key is one word, a valid value one word or empty.\<close>

lemma key_word:
  assumes "IsQualifiedName v" shows "v \<noteq> [] \<and> list_all wordChar v"
proof -
  let ?parts = "split_on CHR ''/'' v"
  have v: "v \<noteq> []" using assms by (auto simp: IsQualifiedName_def split_on_def)
  have "wordChar c" if "w \<in> set ?parts" "c \<in> set w" for w c
    using assms that
    by (auto simp: IsQualifiedName_def Let_def split: list.splits if_splits intro: qname_chars subdomain_chars)
  then have "wordChar c" if "c \<in> set v" for c
    using set_split_on [of v "CHR ''/''"] that wordChar_chars(7) by auto
  with v show ?thesis by (simp add: list_all_iff)
qed

lemma value_word: "IsValidLabelValue v \<Longrightarrow> list_all wordChar v"
  by (auto simp: IsValidLabelValue_def list_all_iff intro: qname_chars)

definition ends :: "string \<Rightarrow> string \<Rightarrow> bool" where
  "ends b rest = (case rest of [] \<Rightarrow> True | c # r \<Rightarrow> c \<noteq> CHR 0x00 \<and> (isSpecialSymbol c \<longrightarrow> string2token (b @ [c]) = None))"

lemma scanSymbols_ends: "ends b rest \<Longrightarrow> scanSymbols b (Some item) rest = (item, rest)"
  by (cases rest) (auto simp: ends_def specialItem_def Let_def split: option.splits)

lemma scanIdentifier_word:
  "list_all wordChar w \<Longrightarrow> rest = [] \<or> isSpecialSymbol (hd rest) \<or> isWhitespace (hd rest) \<Longrightarrow>
   scanIdentifier b (w @ rest) = (b @ w, rest)"
proof (induction w arbitrary: b)
  case Nil
  then show ?case by (cases rest) (auto simp: isSpecialSymbol_def isWhitespace_def)
qed (auto simp: wordChar_def)

definition wordToken :: "string \<Rightarrow> token" where
  "wordToken w = (if w = ''in'' then InToken else if w = ''notin'' then NotInToken else IdentifierToken)"

lemma scan_word:
  assumes "w \<noteq> []" and "list_all wordChar w" and "rest = [] \<or> isSpecialSymbol (hd rest) \<or> isWhitespace (hd rest)"
  shows "scan (w @ rest) = (wordToken w, w) # scan rest"
proof -
  obtain c w' where w: "w = c # w'" and c: "wordChar c" using assms(1,2) by (cases w) auto
  have "string2token w = (if w = ''in'' then Some InToken else if w = ''notin'' then Some NotInToken else None)"
    using assms(2) by (auto simp: string2token_def wordChar_def isSpecialSymbol_def)
  then have "scanIdOrKeyword (w @ rest) = ((wordToken w, w), rest)"
    using scanIdentifier_word [OF assms(2,3), of "[]"] by (simp add: scanIdOrKeyword_def wordToken_def)
  moreover have "Lex (w @ rest) = scanIdOrKeyword (w @ rest)"
    using c by (simp add: Lex_def w skipWhiteSpaces_def wordChar_def)
  ultimately show ?thesis by (simp add: scan.simps [of "w @ rest"] wordToken_def)
qed

lemma scan_end: "scan [] = [(EndOfStringToken, [])]"
  by (simp add: scan.simps [of "[]"] Lex_def skipWhiteSpaces_def)

lemma scan_space: "scan (CHR '' '' # rest) = scan rest"
proof -
  have "Lex (CHR '' '' # rest) = Lex rest" by (simp add: Lex_def skipWhiteSpaces_def isWhitespace_def)
  then show ?thesis by (simp add: scan.simps [of "CHR '' '' # rest"] scan.simps [of rest])
qed

lemma scan_symbol:
  assumes "isSpecialSymbol c" and "string2token [c] = Some t" and "ends [c] rest" and "t \<noteq> EndOfStringToken"
  shows "scan (c # rest) = (t, [c]) # scan rest"
proof -
  have c: "c \<noteq> CHR 0x00" "\<not> isWhitespace c" using assms(1) by (auto simp: isSpecialSymbol_def isWhitespace_def)
  have "Lex (c # rest) = ((t, [c]), rest)"
    using assms c by (simp add: Lex_def skipWhiteSpaces_def scanSpecialSymbol_def scanSymbols_ends)
  with assms(4) show ?thesis by (simp add: scan.simps [of "c # rest"])
qed

lemma scan_symbol2:
  assumes "isSpecialSymbol c" and "isSpecialSymbol d" and "string2token [c] = Some t" and "string2token [c, d] = Some u"
    and "ends [c, d] rest" and "u \<noteq> EndOfStringToken"
  shows "scan (c # d # rest) = (u, [c, d]) # scan rest"
proof -
  have c: "c \<noteq> CHR 0x00" "\<not> isWhitespace c" "d \<noteq> CHR 0x00"
    using assms(1,2) by (auto simp: isSpecialSymbol_def isWhitespace_def)
  have "Lex (c # d # rest) = ((u, [c, d]), rest)"
    using assms c by (simp add: Lex_def skipWhiteSpaces_def scanSpecialSymbol_def scanSymbols_ends)
  with assms(6) show ?thesis by (simp add: scan.simps [of "c # d # rest"])
qed

text \<open>Text that goes on with a word or one of the separators.\<close>

definition follows :: "string \<Rightarrow> bool" where
  "follows rest \<longleftrightarrow> rest = [] \<or> wordChar (hd rest) \<or> hd rest = CHR '','' \<or> hd rest = CHR '')''"

lemma scan_symbols:
  "follows rest \<Longrightarrow> scan (CHR '','' # rest) = (CommaToken, '','') # scan rest"
  "follows rest \<Longrightarrow> scan (CHR ''('' # rest) = (OpenParToken, ''('') # scan rest"
  "follows rest \<Longrightarrow> scan (CHR '')'' # rest) = (ClosedParToken, '')'') # scan rest"
  "follows rest \<Longrightarrow> scan (CHR ''!'' # rest) = (DoesNotExistToken, ''!'') # scan rest"
  "follows rest \<Longrightarrow> scan (CHR ''='' # rest) = (EqualsToken, ''='') # scan rest"
  "follows rest \<Longrightarrow> scan (CHR ''='' # CHR ''='' # rest) = (DoubleEqualsToken, ''=='') # scan rest"
  "follows rest \<Longrightarrow> scan (CHR ''!'' # CHR ''='' # rest) = (NotEqualsToken, ''!='') # scan rest"
proof -
  assume f: "follows rest"
  have "string2token (b @ '','') = None" "string2token (b @ '')'') = None"
    if "b = '','' \<or> b = ''('' \<or> b = '')'' \<or> b = ''!'' \<or> b = ''='' \<or> b = ''=='' \<or> b = ''!=''" for b
    using that by (elim disjE; simp add: string2token_def)+
  then have e: "ends b rest"
    if "b = '','' \<or> b = ''('' \<or> b = '')'' \<or> b = ''!'' \<or> b = ''='' \<or> b = ''=='' \<or> b = ''!=''" for b
    using f that by (cases rest) (auto simp: follows_def ends_def wordChar_def)
  note s = isSpecialSymbol_def string2token_def
  show "scan (CHR '','' # rest) = (CommaToken, '','') # scan rest" by (rule scan_symbol) (simp_all add: s e)
  show "scan (CHR ''('' # rest) = (OpenParToken, ''('') # scan rest" by (rule scan_symbol) (simp_all add: s e)
  show "scan (CHR '')'' # rest) = (ClosedParToken, '')'') # scan rest" by (rule scan_symbol) (simp_all add: s e)
  show "scan (CHR ''!'' # rest) = (DoesNotExistToken, ''!'') # scan rest" by (rule scan_symbol) (simp_all add: s e)
  show "scan (CHR ''='' # rest) = (EqualsToken, ''='') # scan rest" by (rule scan_symbol) (simp_all add: s e)
  show "scan (CHR ''='' # CHR ''='' # rest) = (DoubleEqualsToken, ''=='') # scan rest"
    by (rule scan_symbol2) (simp_all add: s e)
  show "scan (CHR ''!'' # CHR ''='' # rest) = (NotEqualsToken, ''!='') # scan rest"
    by (rule scan_symbol2) (simp_all add: s e)
qed

lemma scan_comma:
  assumes "follows rest \<or> rest \<noteq> [] \<and> hd rest = CHR ''!''"
  shows "scan (CHR '','' # rest) = (CommaToken, '','') # scan rest"
proof (cases "follows rest")
  case True
  then show ?thesis by (rule scan_symbols)
next
  case False
  then obtain r where "rest = CHR ''!'' # r" using assms by (cases rest) auto
  then show ?thesis by (intro scan_symbol) (simp_all add: isSpecialSymbol_def string2token_def ends_def)
qed

section \<open>The tokens of a selector\<close>

definition word :: "string \<Rightarrow> scanned_item list" where
  "word v = (if v = [] then [] else [(wordToken v, v)])"

fun valueItems :: "string list \<Rightarrow> scanned_item list" where
  "valueItems [] = []"
| "valueItems [v] = word v"
| "valueItems (v # vs) = word v @ (CommaToken, '','') # valueItems vs"

definition requirementItems :: "requirement \<Rightarrow> scanned_item list" where
  "requirementItems r =
     (let key = (wordToken (rq_key r), rq_key r); vals = valueItems (rq_strValues r) in
      case rq_operator r of
        DoesNotExistOperator \<Rightarrow> [(DoesNotExistToken, ''!''), key]
      | ExistsOperator \<Rightarrow> [key]
      | EqualsOperator \<Rightarrow> key # (EqualsToken, ''='') # vals
      | DoubleEqualsOperator \<Rightarrow> key # (DoubleEqualsToken, ''=='') # vals
      | NotEqualsOperator \<Rightarrow> key # (NotEqualsToken, ''!='') # vals
      | InOperator \<Rightarrow> key # (InToken, ''in'') # (OpenParToken, ''('') # vals @ [(ClosedParToken, '')'')]
      | NotInOperator \<Rightarrow> key # (NotInToken, ''notin'') # (OpenParToken, ''('') # vals @ [(ClosedParToken, '')'')])"

fun selectorItems :: "selector \<Rightarrow> scanned_item list" where
  "selectorItems [] = [(EndOfStringToken, [])]"
| "selectorItems [r] = requirementItems r @ [(EndOfStringToken, [])]"
| "selectorItems (r # rs) = requirementItems r @ (CommaToken, '','') # selectorItems rs"

text \<open>A requirement as \<^verbatim>\<open>NewRequirement\<close> makes it, its values in order.\<close>

definition valid :: "requirement \<Rightarrow> bool" where
  "valid r \<longleftrightarrow> NewRequirement (rq_key r) (rq_operator r) (rq_strValues r) = Inr r \<and> sorted_wrt (<) (rq_strValues r)"

lemma valid_parts:
  assumes "valid r"
  shows "IsQualifiedName (rq_key r)" and "list_all IsValidLabelValue (rq_strValues r)"
    and "rq_operator r = ExistsOperator \<or> rq_operator r = DoesNotExistOperator \<Longrightarrow> rq_strValues r = []"
    and "rq_operator r = InOperator \<or> rq_operator r = NotInOperator \<Longrightarrow> rq_strValues r \<noteq> []"
    and "rq_operator r = EqualsOperator \<or> rq_operator r = DoubleEqualsOperator \<or> rq_operator r = NotEqualsOperator \<Longrightarrow>
      \<exists>v. rq_strValues r = [v]"
  using assms
  by (auto simp: valid_def NewRequirement_def Let_def length_Suc_conv split: operator.splits if_splits option.splits)

definition separated :: "string \<Rightarrow> bool" where
  "separated tail \<longleftrightarrow> tail = [] \<or> hd tail = CHR '','' \<or> hd tail = CHR '')''"

lemma separated_follows [simp]: "separated tail \<Longrightarrow> follows tail"
  by (auto simp: separated_def follows_def)

lemma scan_value:
  assumes "IsValidLabelValue v" and "separated tail"
  shows "scan (v @ tail) = word v @ scan tail" and "follows (v @ tail)"
proof -
  have w: "list_all wordChar v" by (rule value_word [OF assms(1)])
  show "scan (v @ tail) = word v @ scan tail"
    using scan_word [OF _ w, of tail] assms(2) by (auto simp: word_def separated_def isSpecialSymbol_def)
  show "follows (v @ tail)" using w assms(2) by (cases v) (auto simp: follows_def separated_def)
qed

lemma scan_values:
  "list_all IsValidLabelValue vs \<Longrightarrow> separated tail \<Longrightarrow>
   scan (join '','' vs @ tail) = valueItems vs @ scan tail \<and> follows (join '','' vs @ tail)"
proof (induction vs rule: valueItems.induct)
  case (3 v w vs)
  let ?rest = "join '','' (w # vs) @ tail"
  have "scan (CHR '','' # ?rest) = (CommaToken, '','') # valueItems (w # vs) @ scan tail"
    using 3 by (simp add: scan_symbols(1))
  then show ?case using 3 scan_value [of v "CHR '','' # ?rest"] by (simp add: separated_def)
qed (use scan_value in \<open>auto simp: separated_follows\<close>)

lemma scan_requirement:
  assumes "valid r" and tail: "tail = [] \<or> hd tail = CHR '',''"
  shows "scan (RequirementString r @ tail) = requirementItems r @ scan tail" and "follows (RequirementString r @ tail) \<or> hd (RequirementString r) = CHR ''!''"
proof -
  note v = valid_parts [OF assms(1)]
  have k: "rq_key r \<noteq> []" "list_all wordChar (rq_key r)" using key_word [OF v(1)] by simp_all
  have sep: "separated tail" "separated (CHR '')'' # tail)" using tail by (auto simp: separated_def)
  note vals = scan_values [OF v(2) sep(1)] scan_values [OF v(2) sep(2)]
  have word: "scan (rq_key r @ rest) = (wordToken (rq_key r), rq_key r) # scan rest"
    if "rest = [] \<or> isSpecialSymbol (hd rest) \<or> isWhitespace (hd rest)" for rest
    using scan_word [OF k that] .
  have op_in: "scan (''in ('' @ rest) = (InToken, ''in'') # (OpenParToken, ''('') # scan rest"
    "scan (''notin ('' @ rest) = (NotInToken, ''notin'') # (OpenParToken, ''('') # scan rest" if "follows rest" for rest
    using scan_word [of "''in''" "'' ('' @ rest"] scan_word [of "''notin''" "'' ('' @ rest"] that
    by (simp_all add: scan_space scan_symbols wordToken_def wordChar_def isSpecialSymbol_def isWhitespace_def)
  have close: "scan (CHR '')'' # tail) = (ClosedParToken, '')'') # scan tail" using sep(1) by (simp add: scan_symbols)
  have special: "isSpecialSymbol CHR ''=''" "isSpecialSymbol CHR ''!''" "isWhitespace CHR '' ''"
    by (simp_all add: isSpecialSymbol_def isWhitespace_def)
  have tail': "tail = [] \<or> isSpecialSymbol (hd tail) \<or> isWhitespace (hd tail)"
    using tail by (auto simp: isSpecialSymbol_def)
  have fk: "follows (rq_key r @ rest)" for rest using k by (cases "rq_key r") (auto simp: follows_def)
  show "scan (RequirementString r @ tail) = requirementItems r @ scan tail"
    using vals op_in
    by (cases "rq_operator r")
      (simp_all add: RequirementString_def requirementItems_def Let_def word [OF tail'] word special fk scan_space scan_symbols close)
  show "follows (RequirementString r @ tail) \<or> hd (RequirementString r) = CHR ''!''"
    using fk by (cases "rq_operator r") (simp_all add: RequirementString_def Let_def)
qed

lemma scan_selector: "list_all valid sel \<Longrightarrow> scan (SelectorString sel) = selectorItems sel"
proof (induction sel rule: selectorItems.induct)
  case 1
  then show ?case by (simp add: SelectorString_def scan_end)
next
  case (2 r)
  then show ?case using scan_requirement(1) [of r "[]"] by (simp add: SelectorString_def scan_end)
next
  case (3 r q rs)
  let ?rest = "SelectorString (q # rs)"
  have q: "valid q" using "3.prems" by simp
  obtain tail where rest: "?rest = RequirementString q @ tail" and tail: "tail = [] \<or> hd tail = CHR '',''"
    by (cases rs) (auto simp: SelectorString_def)
  have neq: "RequirementString q \<noteq> []"
    using key_word [OF valid_parts(1) [OF q]] by (cases "rq_operator q") (simp_all add: RequirementString_def Let_def)
  have "follows ?rest \<or> ?rest \<noteq> [] \<and> hd ?rest = CHR ''!''"
    using scan_requirement(2) [OF q tail] neq by (auto simp: rest)
  then have "scan (CHR '','' # ?rest) = (CommaToken, '','') # selectorItems (q # rs)"
    using 3 by (simp add: scan_comma)
  moreover have "SelectorString (r # q # rs) = RequirementString r @ CHR '','' # ?rest" by (simp add: SelectorString_def)
  ultimately show ?case using scan_requirement(1) [of r "CHR '','' # ?rest"] "3.prems" by simp
qed

section \<open>The parser on the tokens of a selector\<close>

lemma wordToken_context [simp]: "contextToken Values (wordToken w) = IdentifierToken"
  by (simp add: contextToken_def wordToken_def)

lemma contextToken_simps [simp]:
  "contextToken context CommaToken = CommaToken" "contextToken context EndOfStringToken = EndOfStringToken"
  "contextToken context ClosedParToken = ClosedParToken" "contextToken context OpenParToken = OpenParToken"
  "contextToken context DoesNotExistToken = DoesNotExistToken" "contextToken context EqualsToken = EqualsToken"
  "contextToken context DoubleEqualsToken = DoubleEqualsToken" "contextToken context NotEqualsToken = NotEqualsToken"
  "contextToken KeyAndOperator tok = tok"
  by (simp_all add: contextToken_def)

lemma wordToken_neq [simp]: "wordToken w \<noteq> CommaToken" "wordToken w \<noteq> ClosedParToken"
  by (simp_all add: wordToken_def)

lemma setInsert_last: "sorted_wrt (<) (s @ [x]) \<Longrightarrow> setInsert x s = s @ [x]"
proof -
  assume "sorted_wrt (<) (s @ [x])"
  then have "\<forall>y \<in> set s. y < x" by (simp add: sorted_wrt_append)
  moreover from this have "insort x s = s @ [x]" by (induction s) auto
  ultimately show ?thesis by (auto simp: setInsert_def)
qed

lemma parseIdentifiersList_values:
  "vs \<noteq> [] \<Longrightarrow> [] \<notin> set vs \<Longrightarrow> sorted_wrt (<) (s @ vs) \<Longrightarrow>
   parseIdentifiersList s (valueItems vs @ (ClosedParToken, '')'') # rest) = Some (Inr (s @ vs, (ClosedParToken, '')'') # rest))"
proof (induction vs arbitrary: s rule: valueItems.induct)
  case (2 v)
  then show ?case by (simp add: word_def setInsert_last)
next
  case (3 v w vs)
  have "sorted_wrt (<) (s @ [v])" using "3.prems"(3) by (auto simp: sorted_wrt_append)
  then have ins: "setInsert v s = s @ [v]" by (rule setInsert_last)
  obtain items where items: "valueItems (w # vs) @ (ClosedParToken, '')'') # rest = (wordToken w, w) # items"
    using "3.prems"(2) by (cases vs) (auto simp: word_def)
  have "parseIdentifiersList (s @ [v]) (valueItems (w # vs) @ (ClosedParToken, '')'') # rest) =
      Some (Inr ((s @ [v]) @ w # vs, (ClosedParToken, '')'') # rest))"
    using "3.prems" by (intro "3.IH") (auto simp: sorted_wrt_append)
  moreover have "v \<noteq> []" using "3.prems"(2) by auto
  ultimately show ?case using items by (simp add: word_def ins)
qed simp

lemma parseValues_items:
  assumes "vs \<noteq> []" and "sorted_wrt (<) vs"
  shows "parseValues ((OpenParToken, ''('') # valueItems vs @ (ClosedParToken, '')'') # rest) = Some (Inr (vs, rest))"
proof (cases vs)
  case (Cons v us)
  have us: "[] \<notin> set us" using assms(2) Cons by (auto simp: sorted_wrt_append)
  show ?thesis
  proof (cases "v = []")
    case v: True
    show ?thesis
    proof (cases us)
      case Nil
      then show ?thesis using Cons v by (simp add: parseValues_def word_def)
    next
      case (Cons w ws)
      have "parseIdentifiersList [[]] (valueItems us @ (ClosedParToken, '')'') # rest) =
          Some (Inr ([[]] @ us, (ClosedParToken, '')'') # rest))"
        using us Cons assms(2) \<open>vs = v # us\<close> v by (intro parseIdentifiersList_values) auto
      moreover obtain items where "valueItems us @ (ClosedParToken, '')'') # rest = (wordToken w, w) # items"
        using us Cons by (cases ws) (auto simp: word_def)
      ultimately show ?thesis using Cons \<open>vs = v # us\<close> v by (simp add: parseValues_def word_def setInsert_def)
    qed
  next
    case False
    have "parseIdentifiersList [] (valueItems vs @ (ClosedParToken, '')'') # rest) =
        Some (Inr ([] @ vs, (ClosedParToken, '')'') # rest))"
      using us Cons False assms by (intro parseIdentifiersList_values) auto
    moreover obtain items where "valueItems vs @ (ClosedParToken, '')'') # rest = (wordToken v, v) # items"
      using False Cons by (cases us) (auto simp: word_def)
    ultimately show ?thesis by (simp add: parseValues_def)
  qed
qed (use assms(1) in simp)

lemma parseExactValue_items:
  assumes "t = EndOfStringToken \<or> t = CommaToken"
  shows "parseExactValue (word v @ (t, l) # rest) = Some (Inr ([v], (t, l) # rest))"
  using assms by (auto simp: parseExactValue_def word_def)

lemma parseRequirement_items:
  assumes "valid r" and "t = EndOfStringToken \<or> t = CommaToken"
  shows "parseRequirement (requirementItems r @ (t, l) # rest) = Some (Inr (r, (t, l) # rest))"
proof -
  note v = valid_parts [OF assms(1)]
  have new: "NewRequirement (rq_key r) (rq_operator r) (rq_strValues r) = Inr r" and sorted: "sorted_wrt (<) (rq_strValues r)"
    using assms(1) by (simp_all add: valid_def)
  have key: "parseKeyAndInferOperator ((wordToken (rq_key r), rq_key r) # (u, x) # rest) =
      Some (Inr ((rq_key r, if contextToken Values u = EndOfStringToken \<or> contextToken Values u = CommaToken then Some ExistsOperator else None),
        (u, x) # rest))" for u x rest
    using v(1) by (simp add: parseKeyAndInferOperator_def)
  have neg: "parseKeyAndInferOperator ((DoesNotExistToken, ''!'') # (wordToken (rq_key r), rq_key r) # (u, x) # rest) =
      Some (Inr ((rq_key r, Some DoesNotExistOperator), (u, x) # rest))" for u x rest
    using v(1) by (simp add: parseKeyAndInferOperator_def)
  have inv: "contextToken Values InToken = IdentifierToken" "contextToken Values NotInToken = IdentifierToken"
    by (simp_all add: contextToken_def)
  show ?thesis
  proof (cases "rq_operator r")
    case DoesNotExistOperator
    then show ?thesis using new v(3) by (simp add: parseRequirement_def requirementItems_def Let_def neg withRest_def)
  next
    case ExistsOperator
    then show ?thesis using new v(3) assms(2)
      by (auto simp: parseRequirement_def requirementItems_def Let_def key withRest_def)
  next
    case InOperator
    then show ?thesis using new parseValues_items [OF v(4) sorted]
      by (simp add: parseRequirement_def requirementItems_def Let_def key inv parseOperator_def withRest_def)
  next
    case NotInOperator
    then show ?thesis using new parseValues_items [OF v(4) sorted]
      by (simp add: parseRequirement_def requirementItems_def Let_def key inv parseOperator_def withRest_def)
  next
    case EqualsOperator
    then obtain x where x: "rq_strValues r = [x]" using v(5) by auto
    then show ?thesis using new EqualsOperator parseExactValue_items [OF assms(2)]
      by (simp add: parseRequirement_def requirementItems_def Let_def key parseOperator_def withRest_def)
  next
    case DoubleEqualsOperator
    then obtain x where x: "rq_strValues r = [x]" using v(5) by auto
    then show ?thesis using new DoubleEqualsOperator parseExactValue_items [OF assms(2)]
      by (simp add: parseRequirement_def requirementItems_def Let_def key parseOperator_def withRest_def)
  next
    case NotEqualsOperator
    then obtain x where x: "rq_strValues r = [x]" using v(5) by auto
    then show ?thesis using new NotEqualsOperator parseExactValue_items [OF assms(2)]
      by (simp add: parseRequirement_def requirementItems_def Let_def key parseOperator_def withRest_def)
  qed
qed

lemma lookahead_requirement:
  "\<exists>tok lit. lookahead Values (requirementItems r @ rest) = Some (tok, lit) \<and> (tok = IdentifierToken \<or> tok = DoesNotExistToken)"
  by (cases "rq_operator r") (simp_all add: requirementItems_def Let_def)

lemma lookahead_selector:
  "sel \<noteq> [] \<Longrightarrow>
   \<exists>tok lit. lookahead Values (selectorItems sel) = Some (tok, lit) \<and> (tok = IdentifierToken \<or> tok = DoesNotExistToken)"
  using lookahead_requirement by (cases sel rule: selectorItems.cases) auto

lemma parseLoop_items: "list_all valid sel \<Longrightarrow> parseLoop rs (selectorItems sel) = Some (Inr (rs @ sel))"
proof (induction sel arbitrary: rs rule: selectorItems.induct)
  case 1
  then show ?case by (simp add: parseLoop.simps [of rs])
next
  case (2 r)
  then show ?case
    using lookahead_requirement [of r "[(EndOfStringToken, [])]"] parseRequirement_items [of r EndOfStringToken "[]" "[]"]
    by (auto simp: parseLoop.simps [of rs])
next
  case (3 r q qs)
  have "parseLoop (rs @ [r]) (selectorItems (q # qs)) = Some (Inr (rs @ r # q # qs))" using 3 by simp
  then show ?case
    using "3.prems" lookahead_requirement [of r "(CommaToken, '','') # selectorItems (q # qs)"]
      parseRequirement_items [of r CommaToken "'',''" "selectorItems (q # qs)"] lookahead_selector [of "q # qs"]
    by (auto simp: parseLoop.simps [of rs])
qed

lemma Parse_SelectorString:
  assumes "list_all valid sel" and "sorted (map rq_key sel)"
  shows "Parse (SelectorString sel) = Some (Inr sel)"
  using assms by (simp add: Parse_def scan_selector parseLoop_items go_sort_key sorted_sort_id sort_key_id_if_sorted)

section \<open>No look past the end\<close>

text \<open>The tokens end with the one for the end of the text, and it occurs only there.\<close>

fun terminated :: "scanned_item list \<Rightarrow> bool" where
  "terminated [] \<longleftrightarrow> False"
| "terminated ((tok, lit) # items) \<longleftrightarrow> (if tok = EndOfStringToken then items = [] else terminated items)"

lemma terminated_scan: "terminated (scan s)"
proof (induction s rule: scan.induct)
  case (1 s)
  obtain tok lit rest where "Lex s = ((tok, lit), rest)" by (metis prod.collapse)
  with 1 show ?case by (auto simp: scan.simps [of s])
qed

lemma contextToken_end [simp]: "contextToken context tok = EndOfStringToken \<longleftrightarrow> tok = EndOfStringToken"
  by (auto simp: contextToken_def)

lemma consume_terminated:
  "terminated items \<Longrightarrow> \<exists>tok lit rest. consume context items = Some ((tok, lit), rest) \<and> (tok \<noteq> EndOfStringToken \<longrightarrow> terminated rest)"
  by (cases "(context, items)" rule: consume.cases) auto

lemma lookahead_terminated: "terminated items \<Longrightarrow> \<exists>tok lit. lookahead context items = Some (tok, lit)"
  by (cases "(context, items)" rule: lookahead.cases) auto

text \<open>A parser is safe if on such tokens it does not panic and leaves such tokens.\<close>

definition safe :: "(scanned_item list \<Rightarrow> (err + 'a \<times> scanned_item list) go) \<Rightarrow> bool" where
  "safe p \<longleftrightarrow> (\<forall>items. terminated items \<longrightarrow> (\<exists>r. p items = Some r \<and> (\<forall>x rest. r = Inr (x, rest) \<longrightarrow> terminated rest)))"

lemma safeD:
  assumes "safe p" and "terminated items"
  obtains er where "p items = Some (Inl er)" | x rest where "p items = Some (Inr (x, rest))" and "terminated rest"
  using assms unfolding safe_def by (metis old.sum.exhaust prod.exhaust)

lemma safe_parseKey: "safe parseKeyAndInferOperator"
  unfolding safe_def
proof (intro allI impI)
  fix items assume t: "terminated items"
  obtain tok lit rest where c: "consume Values items = Some ((tok, lit), rest)" "tok \<noteq> EndOfStringToken \<longrightarrow> terminated rest"
    using consume_terminated [OF t] by blast
  show "\<exists>r. parseKeyAndInferOperator items = Some r \<and> (\<forall>x rest. r = Inr (x, rest) \<longrightarrow> terminated rest)"
  proof (cases "tok = DoesNotExistToken")
    case True
    with c have "terminated rest" by simp
    then obtain tok2 lit2 rest2 where c2: "consume Values rest = Some ((tok2, lit2), rest2)" "tok2 \<noteq> EndOfStringToken \<longrightarrow> terminated rest2"
      using consume_terminated by blast
    with c True show ?thesis
      using lookahead_terminated [of rest2 Values] by (auto simp: parseKeyAndInferOperator_def)
  next
    case False
    with c show ?thesis using lookahead_terminated [of rest Values] by (auto simp: parseKeyAndInferOperator_def)
  qed
qed

lemma safe_parseOperator: "safe parseOperator"
  unfolding safe_def parseOperator_def using consume_terminated [of _ KeyAndOperator]
  by (fastforce split: token.splits)

lemma parseIdentifiersList_safe:
  "terminated items \<Longrightarrow>
   \<exists>r. parseIdentifiersList s items = Some r \<and> (\<forall>x rest. r = Inr (x, rest) \<longrightarrow> terminated rest)"
proof (induction s items rule: parseIdentifiersList.induct)
  case (2 s tok lit items)
  show ?case
  proof (cases "contextToken Values tok = IdentifierToken")
    case True
    then have t: "terminated items" using "2.prems" by (auto simp: contextToken_def split: if_splits)
    then obtain tok2 lit2 where "lookahead Values items = Some (tok2, lit2)" using lookahead_terminated by blast
    with True t 2(1) show ?thesis by auto
  next
    case False
    show ?thesis
    proof (cases "tok = CommaToken")
      case comma: True
      then have t: "terminated items" using "2.prems" by simp
      then obtain tok2 lit2 items2 where items: "items = (tok2, lit2) # items2" by (cases items) auto
      show ?thesis using False comma t "2.IH"(2,3) [OF False comma refl items refl] by (auto simp: items Let_def)
    qed (use False in auto)
  qed
qed simp

lemma safe_parseValues: "safe parseValues"
  unfolding safe_def
proof (intro allI impI)
  fix items assume t: "terminated items"
  obtain tok lit rest where c: "consume Values items = Some ((tok, lit), rest)" "tok \<noteq> EndOfStringToken \<longrightarrow> terminated rest"
    using consume_terminated [OF t] by blast
  show "\<exists>r. parseValues items = Some r \<and> (\<forall>x rest. r = Inr (x, rest) \<longrightarrow> terminated rest)"
  proof (cases "tok = OpenParToken")
    case True
    with c have t: "terminated rest" by simp
    obtain tok2 lit2 where l: "lookahead Values rest = Some (tok2, lit2)" using lookahead_terminated [OF t] by blast
    obtain r where r: "parseIdentifiersList [] rest = Some r" "\<forall>x rest. r = Inr (x, rest) \<longrightarrow> terminated rest"
      using parseIdentifiersList_safe [OF t] by blast
    obtain tok3 lit3 rest3 where c3: "consume Values rest = Some ((tok3, lit3), rest3)" "tok3 \<noteq> EndOfStringToken \<longrightarrow> terminated rest3"
      using consume_terminated [OF t] by blast
    have "tok3 = tok2" using l c3(1) by (cases rest) auto
    moreover have "\<exists>tok lit rest'. consume Values rest2 = Some ((tok, lit), rest') \<and> (tok \<noteq> EndOfStringToken \<longrightarrow> terminated rest')"
      if "r = Inr (s, rest2)" for s rest2 using r(2) that consume_terminated by blast
    ultimately show ?thesis using c True l r(1) c3 by (cases r) (fastforce simp: parseValues_def)+
  next
    case False
    with c show ?thesis by (simp add: parseValues_def)
  qed
qed

lemma safe_parseExactValue: "safe parseExactValue"
  unfolding safe_def
proof (intro allI impI)
  fix items assume t: "terminated items"
  obtain tok lit rest where c: "consume Values items = Some ((tok, lit), rest)" "tok \<noteq> EndOfStringToken \<longrightarrow> terminated rest"
    using consume_terminated [OF t] by blast
  then have "lookahead Values items = Some (tok, lit)" by (cases items) auto
  with c t show "\<exists>r. parseExactValue items = Some r \<and> (\<forall>x rest. r = Inr (x, rest) \<longrightarrow> terminated rest)"
    by (auto simp: parseExactValue_def)
qed

lemma withRest_rest: "withRest items r = Inr (x, rest) \<Longrightarrow> rest = items"
  by (cases r) (auto simp: withRest_def)

lemma safe_parseRequirement: "safe parseRequirement"
  unfolding safe_def
proof (intro allI impI)
  fix items assume t: "terminated items"
  show "\<exists>r. parseRequirement items = Some r \<and> (\<forall>x rest. r = Inr (x, rest) \<longrightarrow> terminated rest)"
  proof (cases rule: safeD [OF safe_parseKey t])
    case (1 er)
    then show ?thesis by (simp add: parseRequirement_def)
  next
    case key: (2 ko rest)
    obtain key operator where ko: "ko = (key, operator)" by (cases ko)
    show ?thesis
    proof (cases rule: safeD [OF safe_parseOperator key(2)])
      case (1 er)
      with key ko show ?thesis by (auto simp: parseRequirement_def dest: withRest_rest)
    next
      case oper: (2 op rest2)
      have "safe (if op = InOperator \<or> op = NotInOperator then parseValues else parseExactValue)"
        by (simp add: safe_parseValues safe_parseExactValue)
      then show ?thesis
        by (cases rule: safeD [OF _ oper(2)]) (use key ko oper in \<open>auto simp: parseRequirement_def dest: withRest_rest\<close>)
    qed
  qed
qed

lemma parseLoop_safe: "terminated items \<Longrightarrow> parseLoop requirements items \<noteq> None"
proof (induction requirements items rule: parseLoop.induct)
  case (1 requirements items)
  obtain tok lit where l: "lookahead Values items = Some (tok, lit)" using lookahead_terminated [OF "1.prems"] by blast
  show ?case
  proof (cases "tok = IdentifierToken \<or> tok = DoesNotExistToken")
    case ident: True
    show ?thesis
    proof (cases rule: safeD [OF safe_parseRequirement "1.prems"])
      case (1 er)
      with l show ?thesis by (simp add: parseLoop.simps [of requirements items])
    next
      case (2 r rest)
      obtain t l2 rest2 where c: "consume Values rest = Some ((t, l2), rest2)" "t \<noteq> EndOfStringToken \<longrightarrow> terminated rest2"
        using consume_terminated [OF 2(2)] by blast
      show ?thesis
      proof (cases "t = CommaToken")
        case True
        with c have t2: "terminated rest2" by simp
        obtain t3 l3 where "lookahead Values rest2 = Some (t3, l3)" using lookahead_terminated [OF t2] by blast
        with l ident 2 c True t2 "1.IH" show ?thesis by (auto simp: parseLoop.simps [of requirements items])
      qed (use l 2 c in \<open>auto simp: parseLoop.simps [of requirements items]\<close>)
    qed
  qed (use l in \<open>auto simp: parseLoop.simps [of requirements items]\<close>)
qed

section \<open>The program's selectors\<close>

lemma sorted_SelectorAdd: "sorted (map rq_key (SelectorAdd reqs sel))"
  by (simp add: SelectorAdd_def go_sort_key)

lemma sorted_selector_fold: "sorted (map rq_key s) \<Longrightarrow> sorted (map rq_key (fold (selectorStep keyspace) es s))"
  by (induction es arbitrary: s) (simp_all add: selectorStep_def sorted_SelectorAdd split: sum.split)

lemma selectorFromMap_fold: "selectorFromMap rng keyspace m = fold (selectorStep keyspace) (gm_range rng m) NewSelector"
  by (simp add: selectorFromMap_def Let_def SelectorEmpty_def Everything_def)

lemma sorted_selectorFromMap: "sorted (map rq_key (selectorFromMap rng keyspace m))"
  by (simp add: selectorFromMap_fold sorted_selector_fold NewSelector_def)

lemma valid_selectorFromMap: "list_all valid (selectorFromMap rng keyspace m)"
  by (auto simp: selectorFromMap_fold set_selector_fold NewSelector_def list_all_iff valid_def NewRequirement_def selects_def)

section \<open>Properties\<close>

text \<open>C29: what a selector prints is read back by the parser as the same selector, whatever
  its requirements are (all seven operators), as long as they are valid, one per key and in the
  order of their keys; in particular the selector the program makes of the map on its command
  line is the one its logged text stands for.\<close>

theorem selector_text_roundtrip:
  "(list_all valid sel \<and> sorted_wrt (<) (map rq_key sel) \<longrightarrow> Parse (SelectorString sel) = Some (Inr sel)) \<and>
   (distinct (map rq_key (selectorFromMap rng keyspace m)) \<longrightarrow>
      Parse (SelectorString (selectorFromMap rng keyspace m)) = Some (Inr (selectorFromMap rng keyspace m)))"
  by (simp add: Parse_SelectorString strict_sorted_imp_sorted valid_selectorFromMap sorted_selectorFromMap)

theorem selector_text_roundtrip_witness:
  "let sel = [\<lparr>rq_key = ''app'', rq_operator = InOperator, rq_strValues = [''a'', ''b'']\<rparr>,
              \<lparr>rq_key = ''in'', rq_operator = DoesNotExistOperator, rq_strValues = []\<rparr>,
              \<lparr>rq_key = ''tier'', rq_operator = NotEqualsOperator, rq_strValues = [[]]\<rparr>]
   in SelectorString sel = ''app in (a,b),!in,tier!='' \<and> Parse ''app in (a,b),!in,tier!='' = Some (Inr sel)"
proof -
  let ?sel = "[\<lparr>rq_key = ''app'', rq_operator = InOperator, rq_strValues = [''a'', ''b'']\<rparr>,
               \<lparr>rq_key = ''in'', rq_operator = DoesNotExistOperator, rq_strValues = []\<rparr>,
               \<lparr>rq_key = ''tier'', rq_operator = NotEqualsOperator, rq_strValues = [[]]\<rparr>]"
  have facts: "list_all valid ?sel" "sorted_wrt (<) (map rq_key ?sel)" "SelectorString ?sel = ''app in (a,b),!in,tier!=''"
    by (code_simp, code_simp, code_simp)
  then have "Parse (SelectorString ?sel) = Some (Inr ?sel)" using selector_text_roundtrip [of ?sel] by simp
  with facts(3) show ?thesis by (simp add: Let_def)
qed

text \<open>C30: parsing a text never panics and always ends, with a selector or with an error: the
  parser looks at the next token without a check of the bounds, but it never looks past the
  token of the end.\<close>

theorem selector_parse_total: "Parse s \<noteq> None"
  using parseLoop_safe [OF terminated_scan] by (auto simp: Parse_def)

end
