(* ===== verification/Kube_Request.thy ===== *)
theory Kube_Request
  imports Kube_Selector
begin

text \<open>
  The requests to the cluster: the builder of \<^verbatim>\<open>pkg/client/unversioned/request.go\<close>, which keeps its
  first error, and the requests the program builds with it: the lists and watches of
  \<^verbatim>\<open>getListWatch\<close> in \<^verbatim>\<open>kubernetes/kubernetes.go\<close> and the look-ups of single objects that the object
  cache makes. Sending a request and decoding the answer is left to the client of the model. The
  program selects no fields, and \<^verbatim>\<open>FieldsSelectorParam\<close> of the empty field selector changes nothing.
\<close>

section \<open>The builder\<close>

record request =
  pathPrefix :: string
  subpath :: string
  params :: "(string, string list) gomap"
  namespace :: string
  namespaceSet :: bool
  resource_of :: string
  resourceName :: string
  subresource :: string
  request_err :: "err option"

definition NewRequest :: "string \<Rightarrow> string \<Rightarrow> request" where
  "NewRequest basePath versionedAPIPath =
     \<lparr>pathPrefix = path_join [path_join [''/'', basePath], versionedAPIPath], subpath = [], params = [], namespace = [],
      namespaceSet = False, resource_of = [], resourceName = [], subresource = [], request_err = None\<rparr>"

definition IsValidPathSegmentName :: "string \<Rightarrow> bool" where
  "IsValidPathSegmentName name \<longleftrightarrow> name \<noteq> ''.'' \<and> name \<noteq> ''..'' \<and> CHR ''/'' \<notin> set name \<and> CHR ''%'' \<notin> set name"

definition requestPrefix :: "string list \<Rightarrow> request \<Rightarrow> request" where
  "requestPrefix segments r =
     (if request_err r \<noteq> None then r else r\<lparr>pathPrefix := path_join [pathPrefix r, path_join segments]\<rparr>)"

definition requestSuffix :: "string list \<Rightarrow> request \<Rightarrow> request" where
  "requestSuffix segments r =
     (if request_err r \<noteq> None then r else r\<lparr>subpath := path_join [subpath r, path_join segments]\<rparr>)"

definition requestResource :: "string \<Rightarrow> request \<Rightarrow> request" where
  "requestResource rs r =
     (if request_err r \<noteq> None then r
      else if length (resource_of r) \<noteq> 0 then r\<lparr>request_err := Some (Err ''resource already set'')\<rparr>
      else if \<not> IsValidPathSegmentName rs then r\<lparr>request_err := Some (Err ''invalid resource'')\<rparr>
      else r\<lparr>resource_of := rs\<rparr>)"

definition requestName :: "string \<Rightarrow> request \<Rightarrow> request" where
  "requestName name r =
     (if request_err r \<noteq> None then r
      else if length name = 0 then r\<lparr>request_err := Some (Err ''resource name may not be empty'')\<rparr>
      else if length (resourceName r) \<noteq> 0 then r\<lparr>request_err := Some (Err ''resource name already set'')\<rparr>
      else if \<not> IsValidPathSegmentName name then r\<lparr>request_err := Some (Err ''invalid resource name'')\<rparr>
      else r\<lparr>resourceName := name\<rparr>)"

definition requestNamespace :: "string \<Rightarrow> request \<Rightarrow> request" where
  "requestNamespace ns r =
     (if request_err r \<noteq> None then r
      else if namespaceSet r then r\<lparr>request_err := Some (Err ''namespace already set'')\<rparr>
      else if \<not> IsValidPathSegmentName ns then r\<lparr>request_err := Some (Err ''invalid namespace'')\<rparr>
      else r\<lparr>namespaceSet := True, namespace := ns\<rparr>)"

definition setParam :: "string \<Rightarrow> string \<Rightarrow> request \<Rightarrow> request" where
  "setParam paramName val r =
     (if paramName = ''timeout'' then r\<lparr>request_err := Some (Err ''must set timeout through the corresponding function'')\<rparr>
      else r\<lparr>params := gm_put paramName
        ((case gm_get (params r) paramName of None \<Rightarrow> [] | Some vs \<Rightarrow> vs) @ [val]) (params r)\<rparr>)"

definition requestParam :: "string \<Rightarrow> string \<Rightarrow> request \<Rightarrow> request" where
  "requestParam paramName s r = (if request_err r \<noteq> None then r else setParam paramName s r)"

definition LabelsSelectorParam :: "selector \<Rightarrow> request \<Rightarrow> request" where
  "LabelsSelectorParam s r =
     (if request_err r \<noteq> None then r
      else if SelectorEmpty s then r
      else setParam ''labelSelector'' (SelectorString s) r)"

text \<open>The path and the query of the request; the program sets no timeout.\<close>

definition requestURL :: "request \<Rightarrow> string \<times> (string, string list) gomap" where
  "requestURL r =
     (let p = pathPrefix r;
          p = (if namespaceSet r \<and> length (namespace r) > 0 then path_join [p, ''namespaces'', namespace r] else p);
          p = (if length (resource_of r) \<noteq> 0 then path_join [p, to_lower (resource_of r)] else p);
          p = (if length (resourceName r) \<noteq> 0 \<or> length (subpath r) \<noteq> 0 \<or> length (subresource r) \<noteq> 0
               then path_join [p, resourceName r, subresource r, subpath r] else p)
      in (p, params r))"

section \<open>The program's requests\<close>

text \<open>\<^verbatim>\<open>ListFunc\<close> and \<^verbatim>\<open>WatchFunc\<close> of \<^verbatim>\<open>getListWatch\<close>, for all namespaces.\<close>

definition listRequest :: "request \<Rightarrow> string \<Rightarrow> selector \<Rightarrow> request" where
  "listRequest getter kind sel = LabelsSelectorParam sel (requestResource kind (requestNamespace [] getter))"

definition watchRequest :: "request \<Rightarrow> string \<Rightarrow> selector \<Rightarrow> string \<Rightarrow> request" where
  "watchRequest getter kind sel resourceVersion =
     requestParam ''resourceVersion'' resourceVersion
       (LabelsSelectorParam sel (requestResource kind (requestNamespace [] (requestPrefix [''watch''] getter))))"

text \<open>\<^verbatim>\<open>Get\<close> of one object of a kind.\<close>

definition objectRequest :: "request \<Rightarrow> string \<Rightarrow> string \<Rightarrow> string \<Rightarrow> request" where
  "objectRequest getter ns kind name = requestName name (requestResource kind (requestNamespace ns getter))"

text \<open>Which objects a server gives for a query: those its selector matches, once parsed.\<close>

definition selectedBy :: "(string, string list) gomap \<Rightarrow> (string, string) gomap \<Rightarrow> bool" where
  "selectedBy query ls =
     (case gm_get query ''labelSelector'' of
        Some [s] \<Rightarrow> (case Parse s of Some (Inr sel) \<Rightarrow> SelectorMatches sel ls | _ \<Rightarrow> False)
      | _ \<Rightarrow> True)"

section \<open>Paths\<close>

lemma path_elem_valid: "path_elem e \<Longrightarrow> CHR ''%'' \<notin> set e \<Longrightarrow> IsValidPathSegmentName e"
  by (auto simp: path_elem_def IsValidPathSegmentName_def)

lemma fold_clean_empty:
  "\<forall>e \<in> set es. e = [] \<or> path_elem e \<Longrightarrow> fold (clean_step r) es st = rev (filter (\<lambda>e. e \<noteq> []) es) @ st"
proof (induction es arbitrary: st)
  case (Cons e es)
  then show ?case by (cases "e = []") (simp_all add: path_elem_def)
qed simp

lemma path_clean_rooted:
  assumes "es \<noteq> []" and "\<forall>e \<in> set es. e = [] \<or> path_elem e"
  shows "path_clean (CHR ''/'' # join ''/'' es) = CHR ''/'' # join ''/'' (filter (\<lambda>e. e \<noteq> []) es)"
proof -
  have "CHR ''/'' \<notin> set e" if "e \<in> set es" for e
    using bspec [OF assms(2) that] by (cases "e = []") (simp_all add: path_elem_def)
  then have "split_on CHR ''/'' (CHR ''/'' # join ''/'' es) = [] # es"
    using split_on_join [OF assms(1), of "CHR ''/''"] by (simp add: split_on_def)
  moreover have "fold (clean_step True) ([] # es) [] = rev (filter (\<lambda>e. e \<noteq> []) es)"
    using fold_clean_empty [OF assms(2), of True "[]"] by simp
  ultimately show ?thesis by (simp add: path_clean_def)
qed

text \<open>Joining a clean rooted path with further elements appends those that are not empty.\<close>

lemma path_join_append:
  assumes "ps \<noteq> []" and "\<forall>e \<in> set ps. path_elem e" and "\<forall>e \<in> set es. e = [] \<or> path_elem e"
  shows "path_join ((CHR ''/'' # join ''/'' ps) # es) = CHR ''/'' # join ''/'' (ps @ filter (\<lambda>e. e \<noteq> []) es)"
proof -
  have "join ''/'' ((CHR ''/'' # join ''/'' ps) # es) = CHR ''/'' # join ''/'' (ps @ es)"
    using assms(1) by (cases es) (auto simp: join_append)
  moreover have "filter (\<lambda>e. e \<noteq> []) ps = ps" using assms(2) by (auto simp: filter_id_conv path_elem_def)
  ultimately show ?thesis using path_clean_rooted [of "ps @ es"] assms by (auto simp: path_join_def)
qed

text \<open>The path of a request with a clean prefix.\<close>

lemma requestURL_path:
  assumes "pathPrefix r = CHR ''/'' # join ''/'' ps" and "ps \<noteq> []" and "\<forall>e \<in> set ps. path_elem e"
    and "namespace r = [] \<or> path_elem (namespace r)" and "path_elem (resource_of r)" and "to_lower (resource_of r) = resource_of r"
    and "resourceName r = [] \<or> path_elem (resourceName r)" and "subpath r = []" and "subresource r = []"
  shows "requestURL r = (CHR ''/'' # join ''/'' (ps @ (if namespaceSet r \<and> namespace r \<noteq> [] then [''namespaces'', namespace r] else []) @
      [resource_of r] @ (if resourceName r \<noteq> [] then [resourceName r] else [])), params r)"
proof -
  have ns: "path_elem ''namespaces''" by (simp add: path_elem_def)
  define qs where "qs = ps @ (if namespaceSet r \<and> namespace r \<noteq> [] then [''namespaces'', namespace r] else [])"
  have qs: "qs \<noteq> []" "\<forall>e \<in> set qs. path_elem e" using assms(2-4) ns by (auto simp: qs_def)
  have one: "(if namespaceSet r \<and> length (namespace r) > 0 then path_join [pathPrefix r, ''namespaces'', namespace r] else pathPrefix r) =
      CHR ''/'' # join ''/'' qs"
    using path_join_append [OF assms(2,3), of "[''namespaces'', namespace r]"] assms(1,4) ns by (auto simp: qs_def)
  have two: "path_join [CHR ''/'' # join ''/'' qs, resource_of r] = CHR ''/'' # join ''/'' (qs @ [resource_of r])"
    using path_join_append [OF qs, of "[resource_of r]"] assms(5) by (auto simp: path_elem_def)
  have three: "path_join [CHR ''/'' # join ''/'' (qs @ [resource_of r]), resourceName r, [], []] = CHR ''/'' # join ''/'' (qs @ [resource_of r, resourceName r])"
    if "resourceName r \<noteq> []"
    using path_join_append [of "qs @ [resource_of r]" "[resourceName r, [], []]"] qs assms(5,7) that by auto
  have res: "resource_of r \<noteq> []" using assms(5) by (simp add: path_elem_def)
  show ?thesis
    unfolding requestURL_def Let_def one assms(6,8,9) using two three res by (simp add: qs_def)
qed

text \<open>The map of parameters stays in order.\<close>

lemma setParam_new: "gm_get (params r) k = None \<Longrightarrow> k \<noteq> ''timeout'' \<Longrightarrow> setParam k v r = r\<lparr>params := gm_put k [v] (params r)\<rparr>"
  by (simp add: setParam_def)

lemma selectedBy_param:
  assumes "gm_get query ''labelSelector'' = (if SelectorEmpty sel then None else Some [SelectorString sel])"
    and "list_all valid sel" and "sorted (map rq_key sel)"
  shows "selectedBy query ls \<longleftrightarrow> SelectorMatches sel ls"
  using assms Parse_SelectorString [OF assms(2,3)] by (auto simp: selectedBy_def SelectorEmpty_def SelectorMatches_def)

section \<open>Properties\<close>

text \<open>
  C19: the requests for lists, watches and objects. For each of the three kinds the list and the
  watch ask for all namespaces at the path of the kind (the watch below \<^verbatim>\<open>watch\<close>), the watch from the
  resource version it is given; the text of the selector they carry selects, once the server has
  parsed it, exactly the objects with every valid label of the map on the command line. The request
  for one object names its namespace, kind and name. None of them has an error.
\<close>

theorem cluster_requests:
  assumes "pathPrefix (NewRequest base api) = CHR ''/'' # join ''/'' ps" and "ps \<noteq> []" and "\<forall>e \<in> set ps. path_elem e"
    and "kind \<in> {''services'', ''endpoints'', ''ingresses''}" and "gm_wf m" and "range_ok rng"
    and "path_elem ns" and "path_elem name" and "CHR ''%'' \<notin> set ns" and "CHR ''%'' \<notin> set name"
  shows "let sel = selectorFromMap rng keyspace m;
      l = listRequest (NewRequest base api) kind sel; w = watchRequest (NewRequest base api) kind sel v;
      o1 = objectRequest (NewRequest base api) ns kind name;
      wanted = (\<lambda>ls. \<forall>k val. gm_get m k = Some val \<and> IsQualifiedName (selectorKey keyspace k) \<and> IsValidLabelValue val \<longrightarrow>
        gm_get ls (selectorKey keyspace k) = Some val)
    in request_err l = None \<and> request_err w = None \<and> request_err o1 = None \<and>
      fst (requestURL l) = CHR ''/'' # join ''/'' (ps @ [kind]) \<and>
      fst (requestURL w) = CHR ''/'' # join ''/'' (ps @ [''watch'', kind]) \<and>
      requestURL o1 = (CHR ''/'' # join ''/'' (ps @ [''namespaces'', ns, kind, name]), []) \<and>
      gm_get (snd (requestURL l)) ''resourceVersion'' = None \<and> gm_get (snd (requestURL w)) ''resourceVersion'' = Some [v] \<and>
      (\<forall>ls. selectedBy (snd (requestURL l)) ls \<longleftrightarrow> wanted ls) \<and> (\<forall>ls. selectedBy (snd (requestURL w)) ls \<longleftrightarrow> wanted ls)"
proof -
  let ?sel = "selectorFromMap rng keyspace m" and ?new = "NewRequest base api"
  let ?l = "listRequest ?new kind ?sel" and ?w = "watchRequest ?new kind ?sel v" and ?o = "objectRequest ?new ns kind name"
  have kind: "path_elem kind" "IsValidPathSegmentName kind" "to_lower kind = kind" "kind \<noteq> []"
    using assms(4) by (auto simp: path_elem_def IsValidPathSegmentName_def to_lower_def to_lower_char_def)
  have empty: "IsValidPathSegmentName []" by (simp add: IsValidPathSegmentName_def)
  have new: "request_err ?new = None" "params ?new = []" "namespaceSet ?new = False" "resource_of ?new = []" "resourceName ?new = []"
    "subpath ?new = []" "subresource ?new = []" by (simp_all add: NewRequest_def)
  have watch: "path_join [''watch''] = ''watch''" "path_elem ''watch''" by code_simp+
  have prefix: "path_join [pathPrefix ?new, ''watch''] = CHR ''/'' # join ''/'' (ps @ [''watch''])"
    using path_join_append [OF assms(2,3), of "[''watch'']"] watch(2) assms(1) by simp
  define q where "q = (if SelectorEmpty ?sel then [] else [(''labelSelector'', [SelectorString ?sel])])"
  have l: "?l = ?new\<lparr>namespaceSet := True, namespace := [], resource_of := kind, params := q\<rparr>"
    using new kind(2,4) empty by (simp add: listRequest_def LabelsSelectorParam_def requestResource_def requestNamespace_def setParam_def q_def)
  have w: "?w = ?new\<lparr>pathPrefix := CHR ''/'' # join ''/'' (ps @ [''watch'']), namespaceSet := True, namespace := [], resource_of := kind,
      params := gm_put ''resourceVersion'' [v] q\<rparr>"
    using new kind(2,4) empty prefix watch(1)
    by (simp add: watchRequest_def LabelsSelectorParam_def requestResource_def requestNamespace_def requestPrefix_def requestParam_def setParam_def q_def)
  have o1: "?o = ?new\<lparr>namespaceSet := True, namespace := ns, resource_of := kind, resourceName := name\<rparr>"
    using new kind path_elem_valid assms(7-10) by (auto simp: objectRequest_def requestResource_def requestNamespace_def requestName_def path_elem_def)
  have url: "requestURL ?l = (CHR ''/'' # join ''/'' (ps @ [kind]), q)"
    "requestURL ?w = (CHR ''/'' # join ''/'' (ps @ [''watch'', kind]), gm_put ''resourceVersion'' [v] q)"
    "requestURL ?o = (CHR ''/'' # join ''/'' (ps @ [''namespaces'', ns, kind, name]), [])"
    using requestURL_path [of ?l ps] requestURL_path [of ?w "ps @ [''watch'']"] requestURL_path [of ?o ps] assms(1-3,7,8) kind new watch(2)
    by (auto simp: l w o1 path_elem_def)
  have par: "gm_get q ''labelSelector'' = (if SelectorEmpty ?sel then None else Some [SelectorString ?sel])"
    "gm_get (gm_put ''resourceVersion'' [v] q) ''labelSelector'' = (if SelectorEmpty ?sel then None else Some [SelectorString ?sel])"
    "gm_get q ''resourceVersion'' = None" "gm_get (gm_put ''resourceVersion'' [v] q) ''resourceVersion'' = Some [v]"
    by (auto simp: q_def)
  have get: "gm_get m k = Some val \<longleftrightarrow> (k, val) \<in> set m" for k val
    using gm_wf_distinct [OF assms(5)] by (auto intro: map_of_is_SomeI dest: map_of_SomeD)
  have "SelectorMatches ?sel ls \<longleftrightarrow> (\<forall>k val. gm_get m k = Some val \<and> IsQualifiedName (selectorKey keyspace k) \<and> IsValidLabelValue val \<longrightarrow>
        gm_get ls (selectorKey keyspace k) = Some val)" for ls
    unfolding selectorFromMap_matches [OF assms(5,6)] get by (auto simp: selects_def)
  then show ?thesis
    using selectedBy_param [OF par(1) valid_selectorFromMap sorted_selectorFromMap] selectedBy_param [OF par(2) valid_selectorFromMap sorted_selectorFromMap]
    by (simp add: Let_def url par(3,4)) (simp add: l w o1 new)
qed

theorem cluster_requests_witness:
  "let w = watchRequest (NewRequest [] ''api/v1'') ''services'' (selectorFromMap rev ''romulus/'' [(''type'', ''ext'')]) ''7''
   in requestURL w = (''/api/v1/watch/services'', [(''labelSelector'', [''romulus/type==ext'']), (''resourceVersion'', [''7''])]) \<and>
     selectedBy (snd (requestURL w)) [(''romulus/type'', ''ext'')] \<and> \<not> selectedBy (snd (requestURL w)) []"
proof -
  have pre: "pathPrefix (NewRequest [] ''api/v1'') = CHR ''/'' # join ''/'' [''api'', ''v1'']" by code_simp
  have elems: "\<forall>e \<in> set [''api'', ''v1'']. path_elem e" by (simp add: path_elem_def)
  have ns: "path_elem ''test''" "path_elem ''bar''" by (simp_all add: path_elem_def)
  have wf: "gm_wf [(''type'', ''ext'')]" by (simp add: gm_wf_def)
  have facts: "selectorKey ''romulus/'' ''type'' = ''romulus/type''" "IsQualifiedName ''romulus/type''" "IsValidLabelValue ''ext''"
    by (code_simp, code_simp, code_simp)
  have url: "requestURL (watchRequest (NewRequest [] ''api/v1'') ''services'' (selectorFromMap rev ''romulus/'' [(''type'', ''ext'')]) ''7'') =
      (''/api/v1/watch/services'', [(''labelSelector'', [''romulus/type==ext'']), (''resourceVersion'', [''7''])])"
    by code_simp
  have "selectedBy (snd (requestURL (watchRequest (NewRequest [] ''api/v1'') ''services'' (selectorFromMap rev ''romulus/'' [(''type'', ''ext'')]) ''7''))) ls \<longleftrightarrow>
      (\<forall>k val. gm_get [(''type'', ''ext'')] k = Some val \<and> IsQualifiedName (selectorKey ''romulus/'' k) \<and> IsValidLabelValue val \<longrightarrow>
        gm_get ls (selectorKey ''romulus/'' k) = Some val)" for ls
    using cluster_requests [OF pre _ elems _ wf range_ok_rev ns, of "''services''" "''romulus/''" "''7''"] unfolding Let_def by simp
  then show ?thesis unfolding Let_def using url facts by auto
qed

end
