(* ===== verification/Kube_Controller.thy ===== *)
theory Kube_Controller
  imports Engine_Vulcand Reflector Kube_Request
begin

text \<open>
  How the program is wired to the cluster: the stores and controllers of
  \<^verbatim>\<open>kubernetes/kubernetes.go\<close>, whose handlers call the engine, and the start of the engine in
  \<^verbatim>\<open>engine.go\<close> and \<^verbatim>\<open>main.go\<close>. The handlers of an informer work on the state of the engine.
\<close>

section \<open>Objects as text\<close>

definition ingressBackendString :: "ingress_backend \<Rightarrow> string" where
  "ingressBackendString i = ib_serviceName i @ '':'' @ IntStrString (ib_servicePort i)"

definition IngressString :: "ingress \<Rightarrow> string" where
  "IngressString i =
     ''Ingress(Name='' @ quote (om_name (ing_meta i)) @ '', Namespace='' @ quote (om_namespace (ing_meta i)) @
     '', DefBackend='' @ (case ing_backend i of None \<Rightarrow> [] | Some b \<Rightarrow> ingressBackendString b) @
     '', Rules='' @ itoa (int (length (ing_rules i))) @ '')''"

definition ServiceString :: "service \<Rightarrow> string" where
  "ServiceString s = ''Service(Name='' @ quote (om_name (svc_meta s)) @ '', Namespace='' @ quote (om_namespace (svc_meta s)) @ '')''"

definition EndpointsString :: "endpoints \<Rightarrow> string" where
  "EndpointsString e =
     ''Endpoints(Name='' @ quote (om_name (en_meta e)) @ '', Namespace='' @ quote (om_namespace (en_meta e)) @
     '', Subsets='' @ itoa (int (length (en_subsets e))) @ '')''"

definition IsFrontend :: "string \<Rightarrow> service \<Rightarrow> bool" where
  "IsFrontend keyspace s =
     (case parse_bool (case gm_get (om_annotations (svc_meta s)) (path_join [keyspace, ''frontend'']) of
                         Some v \<Rightarrow> v | None \<Rightarrow> []) of
        Some ok \<Rightarrow> ok | None \<Rightarrow> False)"

section \<open>Handlers\<close>

abbreviation AddCallback :: string where "AddCallback \<equiv> ''ADD''"
abbreviation UpdateCallback :: string where "UpdateCallback \<equiv> ''UPDATE''"
abbreviation DeleteCallback :: string where "DeleteCallback \<equiv> ''DELETE''"

text \<open>\<^verbatim>\<open>logCallback\<close>: the line it logs, or the error for an object that is not of the three kinds.\<close>

definition logCallback :: "string \<Rightarrow> kobject \<Rightarrow> err + string" where
  "logCallback callback obj =
     (case obj of
        KIngress i \<Rightarrow> Inr (callback @ '' '' @ IngressString i)
      | KService s \<Rightarrow> Inr (callback @ '' '' @ ServiceString s)
      | KEndpoints e \<Rightarrow> Inr (callback @ '' '' @ EndpointsString e)
      | _ \<Rightarrow> Inl (Err ''Object not supported''))"

text \<open>The interface \<^verbatim>\<open>Updater\<close>: what the handlers call.\<close>

record 'w updater =
  up_Add :: "kobject \<Rightarrow> 'w \<Rightarrow> 'w go"
  up_Delete :: "kobject \<Rightarrow> 'w \<Rightarrow> 'w go"
  up_Update :: "kobject \<Rightarrow> kobject \<Rightarrow> 'w \<Rightarrow> 'w go"

definition addDelete :: "string \<Rightarrow> 'w updater \<Rightarrow> kobject \<Rightarrow> 'w \<Rightarrow> 'w go" where
  "addDelete callback w obj s =
     (case logCallback callback obj of
        Inl er \<Rightarrow> Some s
      | Inr line \<Rightarrow>
          if callback = AddCallback then up_Add w obj s
          else if callback = DeleteCallback then up_Delete w obj s
          else Some s)"

definition update :: "string \<Rightarrow> 'w updater \<Rightarrow> kobject \<Rightarrow> kobject \<Rightarrow> 'w \<Rightarrow> 'w go" where
  "update callback w a b s =
     (case logCallback callback a of
        Inl er \<Rightarrow> Some s
      | Inr line \<Rightarrow> up_Update w a b s)"

section \<open>Stores and controllers\<close>

abbreviation ServicesKind :: string where "ServicesKind \<equiv> ''services''"
abbreviation EndpointsKind :: string where "EndpointsKind \<equiv> ''endpoints''"
abbreviation IngressesKind :: string where "IngressesKind \<equiv> ''ingresses''"

text \<open>The map \<^verbatim>\<open>resources\<close> gives the type a reflector expects for a kind.\<close>

definition resourcesOf :: "string \<Rightarrow> (kobject \<Rightarrow> bool) option" where
  "resourcesOf kind =
     (if kind = ServicesKind then Some (\<lambda>obj. case obj of KService _ \<Rightarrow> True | _ \<Rightarrow> False)
      else if kind = EndpointsKind then Some (\<lambda>obj. case obj of KEndpoints _ \<Rightarrow> True | _ \<Rightarrow> False)
      else if kind = IngressesKind then Some (\<lambda>obj. case obj of KIngress _ \<Rightarrow> True | _ \<Rightarrow> False)
      else None)"

text \<open>48 hours, in nanoseconds.\<close>

definition cacheTTL :: int where
  "cacheTTL = 48 * 3600 * 1000000000"

definition CreateStore :: "string \<Rightarrow> err + store" where
  "CreateStore kind =
     (case resourcesOf kind of
        None \<Rightarrow> Inl (Err (''Object type '' @ quote kind @ '' not supported''))
      | Some obj \<Rightarrow> Inr (NewTTLStore cacheTTL))"

record 'w controller =
  ct_handler :: "'w handler_funcs"
  ct_expected :: "kobject \<Rightarrow> bool"
  ct_selector :: selector

definition CreateUpdateController :: "string \<Rightarrow> 'w updater \<Rightarrow> selector \<Rightarrow> 'w controller option" where
  "CreateUpdateController kind w sl =
     (case resourcesOf kind of
        None \<Rightarrow> None
      | Some obj \<Rightarrow>
          Some \<lparr>ct_handler = \<lparr>AddFunc = None, UpdateFunc = Some (update UpdateCallback w),
                               DeleteFunc = Some (addDelete DeleteCallback w)\<rparr>,
                ct_expected = obj, ct_selector = sl\<rparr>)"

definition fullHandler :: "'w updater \<Rightarrow> 'w handler_funcs" where
  "fullHandler w = \<lparr>AddFunc = Some (addDelete AddCallback w), UpdateFunc = Some (update UpdateCallback w),
     DeleteFunc = Some (addDelete DeleteCallback w)\<rparr>"

definition CreateFullController :: "string \<Rightarrow> 'w updater \<Rightarrow> selector \<Rightarrow> 'w controller option" where
  "CreateFullController kind w sl =
     (case resourcesOf kind of
        None \<Rightarrow> None
      | Some obj \<Rightarrow> Some \<lparr>ct_handler = fullHandler w, ct_expected = obj, ct_selector = sl\<rparr>)"

section \<open>Starting the engine\<close>

definition engineUpdater ::
  "('s, 'fe, 'be, 'sv, 'mw) engine \<Rightarrow> (nat \<Rightarrow> commit_env) \<Rightarrow> 's engine_state updater" where
  "engineUpdater e ces = \<lparr>up_Add = Add e ces, up_Delete = Delete e ces, up_Update = Update e ces\<rparr>"

text \<open>An error of \<^verbatim>\<open>CreateStore\<close> would leave a nil store; the kinds asked for here are all supported.\<close>

definition createObjectCache :: "'s engine_state \<Rightarrow> 's engine_state go" where
  "createObjectCache st =
     (case (CreateStore ServicesKind, CreateStore EndpointsKind, CreateStore IngressesKind) of
        (Inr service, Inr endpoints, Inr ingress) \<Rightarrow>
          Some (st\<lparr>e_cache := SetEndpointsStore endpoints (SetServiceStore service (SetIngressStore ingress (e_cache st)))\<rparr>)
      | _ \<Rightarrow> None)"

text \<open>The three controllers, in the order they are started; \<^verbatim>\<open>Run\<close> on a nil controller panics.\<close>

definition createKubernetesCallbacks ::
  "('s, 'fe, 'be, 'sv, 'mw) engine \<Rightarrow> (nat \<Rightarrow> commit_env) \<Rightarrow> (string, string) gomap \<Rightarrow> ('s engine_state controller list) go" where
  "createKubernetesCallbacks e ces sel =
     (let sl = selectorFromMap (env_range (e_env e)) (Keyspace (e_env e)) sel;
          w = engineUpdater e ces
      in those [CreateFullController EndpointsKind w sl, CreateFullController ServicesKind w sl,
                CreateFullController IngressesKind w sl])"

text \<open>\<^verbatim>\<open>Start\<close>: both ends must answer; \<open>kube\<close> is the outcome of asking the cluster for its version.\<close>

definition Start ::
  "('s, 'fe, 'be, 'sv, 'mw) engine \<Rightarrow> (nat \<Rightarrow> commit_env) \<Rightarrow> err option \<Rightarrow> (err \<Rightarrow> string) \<Rightarrow> (string, string) gomap \<Rightarrow>
     's engine_state \<Rightarrow> ((err + 's engine_state controller list) \<times> 's engine_state) go" where
  "Start e ces kube text sel st =
     (case kube of
        Some er \<Rightarrow> Some (Inl (Err (''Failed to connect to kubernetes: '' @ text er)), st)
      | None \<Rightarrow>
     (case lb_Status (e_ops e) (e_lb st) of
        (Some er, s) \<Rightarrow> Some (Inl (Err (''Failed to connect to loadbalancer: '' @ text er)), st\<lparr>e_lb := s\<rparr>)
      | (None, s) \<Rightarrow> do {
          st \<leftarrow> createObjectCache (st\<lparr>e_lb := s\<rparr>);
          cs \<leftarrow> createKubernetesCallbacks e ces sel;
          Some (Inr cs, st)
        }))"

text \<open>\<^verbatim>\<open>main.go\<close>.\<close>

definition normalizeAnnotationsKey :: "string \<Rightarrow> string" where
  "normalizeAnnotationsKey key = (if \<not> has_suffix key ''/'' then key @ ''/'' else key)"

text \<open>Which constructor \<^verbatim>\<open>getLBProvider\<close> calls, with its arguments.\<close>

datatype lb_provider = VulcandNew string | TraefikNewProvider string "string list" int

definition getLBProvider :: "string \<Rightarrow> string \<Rightarrow> string list \<Rightarrow> int \<Rightarrow> err + lb_provider" where
  "getLBProvider kind vulcanAPI traefikEtcd timeout =
     (if kind = ''vulcand'' then Inr (VulcandNew vulcanAPI)
      else if kind = ''traefik'' then Inr (TraefikNewProvider ''/traefik'' traefikEtcd timeout)
      else Inl (Err ''Unknown LB type''))"

section \<open>From the event to the engine\<close>

definition quiet :: "'w informer \<Rightarrow> bool" where
  "quiet i \<longleftrightarrow> f_queue (in_fifo i) = [] \<and> in_flight i = []"

lemma fifo_wf_empty: "fifo_wf f \<Longrightarrow> f_queue f = [] \<Longrightarrow> f = NewDeltaFIFO"
  by (cases f) (simp add: fifo_wf_def NewDeltaFIFO_def map_of_eq_empty_iff dom_eq_empty_conv eq_commute [of "{}"])

lemma quiet_fifo: "informer_inv (i, srv) \<Longrightarrow> quiet i \<Longrightarrow> in_fifo i = NewDeltaFIFO"
  by (simp add: informer_inv_def quiet_def fifo_wf_empty)

lemma Pop_empty [simp]: "Pop NewDeltaFIFO = None"
  by (simp add: Pop_def NewDeltaFIFO_def)

lemma processLoop_empty [simp]: "processLoop h NewDeltaFIFO s = Some (NewDeltaFIFO, s)"
  by (simp add: processLoop.simps [of h NewDeltaFIFO])

text \<open>One delta in an empty queue is processed and leaves it empty.\<close>

lemma processLoop_single:
  assumes "objKey obj = Inr k"
  shows "processLoop h (snd (queueActionLocked (informer_config rng) t obj NewDeltaFIFO)) s =
     (case Process h [\<lparr>d_Type = t, d_Object = obj\<rparr>] s of None \<Rightarrow> None | Some (er, s) \<Rightarrow> Some (NewDeltaFIFO, s))"
proof -
  let ?f = "snd (queueActionLocked (informer_config rng) t obj NewDeltaFIFO)"
  have "?f = \<lparr>f_items = [(k, [\<lparr>d_Type = t, d_Object = obj\<rparr>])], f_queue = [k]\<rparr>"
    using assms by (simp add: queueActionLocked_eq NewDeltaFIFO_def dedupDeltas_def)
  then have "Pop ?f = Some ([\<lparr>d_Type = t, d_Object = obj\<rparr>], NewDeltaFIFO)"
    by (simp add: Pop_def NewDeltaFIFO_def gm_del_def)
  then show ?thesis
    by (simp add: processLoop.simps [of h ?f] split: option.split)
qed

lemma logCallback_meta: "hasMeta obj \<Longrightarrow> \<exists>line. logCallback callback obj = Inr line"
  by (auto simp: hasMeta_def logCallback_def split: kobject.splits)

lemma fullHandler_calls:
  assumes "hasMeta obj"
  shows "OnAdd (fullHandler w) obj s = up_Add w obj s" and "OnUpdate (fullHandler w) obj new s = up_Update w obj new s"
    and "OnDelete (fullHandler w) obj s = up_Delete w obj s"
proof -
  obtain l1 l2 l3 where "logCallback AddCallback obj = Inr l1" "logCallback UpdateCallback obj = Inr l2"
    "logCallback DeleteCallback obj = Inr l3" using logCallback_meta [OF assms] by metis
  then show "OnAdd (fullHandler w) obj s = up_Add w obj s" "OnUpdate (fullHandler w) obj new s = up_Update w obj new s"
    "OnDelete (fullHandler w) obj s = up_Delete w obj s"
    by (simp_all add: OnAdd_def OnUpdate_def OnDelete_def fullHandler_def addDelete_def update_def)
qed

lemma fullHandler_tombstone: "OnDelete (fullHandler w) (KTombstone k obj) s = Some s"
  by (simp add: OnDelete_def fullHandler_def addDelete_def logCallback_def)

lemma Process_single:
  assumes "informer_store c" and "objKey obj = Inr k"
  shows "Process h [\<lparr>d_Type = t, d_Object = obj\<rparr>] (c, s) =
     (if t = Deleted then map_option (\<lambda>s. (None, storeDel k c, s)) (OnDelete h obj s)
      else map_option (\<lambda>s. (None, storePut 0 k obj c, s))
             (case StoreGetByKey 0 c k of Some old \<Rightarrow> OnUpdate h old obj s | None \<Rightarrow> OnAdd h obj s))"
  using processDelta_eq [of c "\<lparr>d_Type = t, d_Object = obj\<rparr>" k h s] assms
  by (auto simp: deltaKey_def map_option_case split: option.splits)

section \<open>What a list queues\<close>

lemma replaceLoop_other:
  assumes "fifo_wf f" and "\<forall>obj \<in> set items. \<exists>j. objKey obj = Inr j" and "k \<notin> keysOf items"
  shows "\<exists>f'. replaceLoop (informer_config rng) items ks f = (Inr (ks \<union> keysOf items), f') \<and> fifo_wf f' \<and> queued f' k = queued f k"
  using assms
proof (induction items arbitrary: f ks)
  case (Cons obj items)
  obtain j where j: "objKey obj = Inr j" using Cons.prems(2) by auto
  obtain f1 where q: "queueActionLocked (informer_config rng) Sync obj f = (None, f1)"
    using queueAction_ok [OF j] by (metis prod.collapse)
  have keys: "keysOf (obj # items) = insert j (keysOf items)" using j by (auto simp: keysOf_def)
  have "fifo_wf f1" using fifo_wf_queueAction [of "informer_config rng" f Sync obj] q Cons.prems(1) by simp
  moreover have "queued f1 k = queued f k"
    using queued_queueAction [OF Cons.prems(1) j, of rng Sync k] q keys Cons.prems(3) by auto
  ultimately show ?case using Cons.IH [of f1 "insert j ks"] Cons.prems(2,3) j q keys by auto
qed (simp add: keysOf_def)

lemma deleteLoop_queued:
  assumes "fifo_wf f" and "distinct ks"
  shows "\<exists>f'. deleteLoop (informer_config rng) del keys ks f = (None, f') \<and>
     queued f' k = (if k \<in> set ks - keys then dedupDeltas (queued f k @ [\<lparr>d_Type = Deleted, d_Object = KTombstone k (del k)\<rparr>])
                    else queued f k)"
  using assms
proof (induction ks arbitrary: f)
  case (Cons j ks)
  show ?case
  proof (cases "j \<in> keys")
    case True
    then show ?thesis using Cons by auto
  next
    case False
    let ?obj = "KTombstone j (del j)"
    have key: "objKey ?obj = Inr j" by (simp add: objKey_def KeyOf_def)
    obtain f1 where q: "queueActionLocked (informer_config rng) Deleted ?obj f = (None, f1)"
      using queueAction_ok [OF key] by (metis prod.collapse)
    have "fifo_wf f1" using fifo_wf_queueAction [of "informer_config rng" f Deleted ?obj] q Cons.prems(1) by simp
    moreover have "queued f1 k = (if k = j then dedupDeltas (queued f k @ [\<lparr>d_Type = Deleted, d_Object = ?obj\<rparr>]) else queued f k)"
      using queued_queueAction [OF Cons.prems(1) key, of rng Deleted k] q by simp
    ultimately show ?thesis using Cons.IH [of f1] Cons.prems(2) False q by auto
  qed
qed simp

lemma syncWith_missing:
  assumes inv: "informer_inv (i, srv)" and "quiet i" and rng: "range_ok rng"
    and items: "\<forall>obj \<in> set items. \<exists>j. objKey obj = Inr j" and k: "k \<notin> keysOf items" "client i k \<noteq> None"
  shows "\<exists>f'. syncWith rng items (in_client i) (in_fifo i) = (None, f') \<and>
     queued f' k = [\<lparr>d_Type = Deleted, d_Object = KTombstone k (client i k)\<rparr>]"
proof -
  have c: "informer_store (in_client i)" using inv by (simp add: informer_inv_def)
  have f: "in_fifo i = NewDeltaFIFO" using quiet_fifo [OF inv assms(2)] .
  obtain f1 where f1: "replaceLoop (informer_config rng) items {} NewDeltaFIFO = (Inr (keysOf items), f1)" "fifo_wf f1"
    "queued f1 k = []"
    using replaceLoop_other [OF fifo_wf_New items k(1), of rng "{}"] by (auto simp: queued_def NewDeltaFIFO_def)
  have "distinct (rng (map fst m)) = distinct (map fst m)" for m :: "(string, kobject) gomap"
    using rng by (intro mset_eq_imp_distinct_iff) (simp add: range_ok_def)
  then have ks: "distinct (StoreListKeys rng (in_client i))" "k \<in> set (StoreListKeys rng (in_client i))"
    using c k(2) set_ListKeys [OF c rng] by (auto simp: informer_store_def gm_wf_distinct)
  show ?thesis
    using deleteLoop_queued [OF f1(2) ks(1), of rng "\<lambda>k. client i k" "keysOf items" k] f1 k(1) ks(2) f
    by (simp add: syncWith_def FifoReplace_def knownObjects_def dedupDeltas_def)
qed

section \<open>One event of a quiet informer\<close>

lemma dispatch_added:
  assumes "informer_inv (i, srv)" and "quiet i" and "expected obj \<and> hasMeta obj" and "objKey obj = Inr k" and "client i k = None"
  shows "processLoop (fullHandler w) (watchEvent rng expected (WatchAdded obj) (in_client i) (in_fifo i)) (in_client i, in_world i) =
     map_option (\<lambda>s. (NewDeltaFIFO, storePut 0 k obj (in_client i), s)) (up_Add w obj (in_world i))"
proof -
  have "informer_store (in_client i)" using assms(1) by (simp add: informer_inv_def)
  with assms show ?thesis
    by (simp add: quiet_fifo [OF assms(1,2)] FifoAdd_def processLoop_single Process_single fullHandler_calls map_option_case
        split: option.split del: Process.simps)
qed

lemma dispatch_modified:
  assumes "informer_inv (i, srv)" and "quiet i" and "expected obj \<and> hasMeta obj" and "objKey obj = Inr k"
    and "client i k = Some old" and "hasMeta old"
  shows "processLoop (fullHandler w) (watchEvent rng expected (WatchModified obj) (in_client i) (in_fifo i)) (in_client i, in_world i) =
     map_option (\<lambda>s. (NewDeltaFIFO, storePut 0 k obj (in_client i), s)) (up_Update w old obj (in_world i))"
proof -
  have "informer_store (in_client i)" using assms(1) by (simp add: informer_inv_def)
  with assms show ?thesis
    by (simp add: quiet_fifo [OF assms(1,2)] FifoUpdate_def processLoop_single Process_single fullHandler_calls map_option_case
        split: option.split del: Process.simps)
qed

lemma dispatch_deleted:
  assumes "informer_inv (i, srv)" and "quiet i" and "expected obj \<and> hasMeta obj" and "objKey obj = Inr k"
  shows "processLoop (fullHandler w) (watchEvent rng expected (WatchDeleted obj) (in_client i) (in_fifo i)) (in_client i, in_world i) =
     (if client i k = None then Some (NewDeltaFIFO, in_client i, in_world i)
      else map_option (\<lambda>s. (NewDeltaFIFO, storeDel k (in_client i), s)) (up_Delete w obj (in_world i)))"
proof -
  have "informer_store (in_client i)" using assms(1) by (simp add: informer_inv_def)
  with assms show ?thesis
    by (simp add: quiet_fifo [OF assms(1,2)] FifoDelete_def knownObjects_def processLoop_single Process_single fullHandler_calls
        map_option_case split: option.split del: Process.simps)
qed

section \<open>Properties\<close>


text \<open>
  C36: a deletion found by a list is never told to the engine. When the informer is quiet and a list
  comes without an object the informer has, the queue gets a tombstone for it; processing the
  tombstone drops the object from the informer's store, and the handler refuses it: the state of
  the engine, and with it the load balancer, stays as it was.
\<close>

theorem controller_ignores_tombstones:
  assumes "informer_reachable (fullHandler (engineUpdater e ces)) rng expected (i, srv)" and "range_ok rng" and "quiet i"
    and "lists items srv'" and "client i k = Some obj" and "srv' k = None"
  shows "\<exists>f'. syncWith rng items (in_client i) (in_fifo i) = (None, f') \<and>
     queued f' k = [\<lparr>d_Type = Deleted, d_Object = KTombstone k (Some obj)\<rparr>] \<and>
     Process (fullHandler (engineUpdater e ces)) (queued f' k) (in_client i, in_world i) =
       Some (None, storeDel k (in_client i), in_world i)"
proof -
  have inv: "informer_inv (i, srv)" using informer_reachable_inv [OF assms(1,2)] .
  have c: "informer_store (in_client i)" using inv by (simp add: informer_inv_def)
  have key: "objKey (KTombstone k (Some obj)) = Inr k" by (simp add: objKey_def KeyOf_def)
  have "\<forall>obj \<in> set items. \<exists>j. objKey obj = Inr j" "k \<notin> keysOf items"
    using assms(4,6) by (auto simp: lists_def keysOf_def)
  from syncWith_missing [OF inv assms(3,2) this] assms(5) show ?thesis
    by (auto simp: Process_single [OF c key] fullHandler_tombstone simp del: Process.simps)
qed

section \<open>A run\<close>

text \<open>The new informer of the Services, and the same after it saw one.\<close>

definition sample_handler :: "mem engine_state handler_funcs" where
  "sample_handler = fullHandler (engineUpdater sample_engine (\<lambda>_. sample_ce))"

definition sample_state :: "mem engine_state" where
  "sample_state = \<lparr>e_cache = NewCache, e_lb = NewMem\<rparr>"

lemma sample_quiet [simp]: "quiet (NewInformer w)" "client (NewInformer w) k = None"
  by (simp_all add: quiet_def NewInformer_def NewDeltaFIFO_def NewStore_def)

lemma reachable_added:
  assumes r: "informer_reachable (fullHandler w) rng expected (i, srv)" and "range_ok rng" and q: "quiet i"
    and obj: "expected obj \<and> hasMeta obj" "objKey obj = Inr k" and c: "client i k = None"
    and a: "up_Add w obj (in_world i) = Some s"
  shows "informer_reachable (fullHandler w) rng expected
     (i\<lparr>in_client := storePut 0 k obj (in_client i), in_world := s\<rparr>, srv(k \<mapsto> obj))"
proof -
  let ?d = "\<lparr>d_Type = Added, d_Object = obj\<rparr>"
  let ?f = "\<lparr>f_items = [(k, [?d])], f_queue = [k]\<rparr>"
  have inv: "informer_inv (i, srv)" using informer_reachable_inv [OF r assms(2)] .
  have st: "informer_store (in_client i)" using inv by (simp add: informer_inv_def)
  note f = quiet_fifo [OF inv q]
  have "watchEvent rng expected (WatchAdded obj) (in_client i) (in_fifo i) = ?f"
    using obj by (simp add: f FifoAdd_def queueActionLocked_eq NewDeltaFIFO_def dedupDeltas_def)
  with informer_reachable.step [OF r informer_step.added [of expected, OF obj]]
  have r1: "informer_reachable (fullHandler w) rng expected (i\<lparr>in_fifo := ?f\<rparr>, srv(k \<mapsto> obj))" by simp
  have "Pop ?f = Some ([?d], NewDeltaFIFO)" by (simp add: Pop_def NewDeltaFIFO_def gm_del_def)
  then have r2: "informer_reachable (fullHandler w) rng expected (i\<lparr>in_fifo := NewDeltaFIFO, in_flight := [?d]\<rparr>, srv(k \<mapsto> obj))"
    using informer_reachable.step [OF r1 informer_step.pop [of _ "[?d]" NewDeltaFIFO]] q by (simp add: quiet_def)
  have "deltaKey ?d = Inr k" using obj(2) by (simp add: deltaKey_def)
  then have "processDelta (fullHandler w) ?d (in_client i, in_world i) = Some (None, storePut 0 k obj (in_client i), s)"
    using a c obj(1) by (simp add: processDelta_eq [OF st] fullHandler_calls)
  then have "informer_reachable (fullHandler w) rng expected
     (i\<lparr>in_fifo := NewDeltaFIFO, in_client := storePut 0 k obj (in_client i), in_world := s, in_flight := []\<rparr>, srv(k \<mapsto> obj))"
    using informer_reachable.step [OF r2 informer_step.process [of _ ?d "[]"]] by simp
  moreover have "i\<lparr>in_fifo := NewDeltaFIFO, in_client := storePut 0 k obj (in_client i), in_world := s, in_flight := []\<rparr> =
      i\<lparr>in_client := storePut 0 k obj (in_client i), in_world := s\<rparr>"
    using f q by (simp add: quiet_def)
  ultimately show ?thesis by simp
qed

lemma sample_add: "\<exists>s. Add sample_engine (\<lambda>_. sample_ce) (KService sample_service) sample_state = Some s"
proof -
  have "Add sample_engine (\<lambda>_. sample_ce) (KService sample_service) sample_state \<noteq> None" by code_simp
  then show ?thesis by simp
qed


theorem controller_ignores_tombstones_witness:
  "\<exists>c f'. syncWith (\<lambda>ks. ks) [] c NewDeltaFIFO = (None, f') \<and>
     queued f' ''test/bar'' = [\<lparr>d_Type = Deleted, d_Object = KTombstone ''test/bar'' (Some (KService sample_service))\<rparr>]"
proof -
  let ?w = "engineUpdater sample_engine (\<lambda>_. sample_ce)"
  let ?i = "NewInformer sample_state"
  obtain s where s: "up_Add ?w (KService sample_service) (in_world ?i) = Some s"
    using sample_add by (auto simp: engineUpdater_def NewInformer_def)
  let ?i1 = "?i\<lparr>in_client := storePut 0 ''test/bar'' (KService sample_service) (in_client ?i), in_world := s\<rparr>"
  have r: "informer_reachable (fullHandler ?w) (\<lambda>ks. ks) (\<lambda>obj. True) (?i1, [''test/bar'' \<mapsto> KService sample_service])"
    using reachable_added [OF informer_reachable.new range_ok_id sample_quiet(1) _ sample_key sample_quiet(2) s, of "\<lambda>obj. True"]
    by simp
  have q: "quiet ?i1" using sample_quiet(1) by (simp add: quiet_def)
  have c: "client ?i1 ''test/bar'' = Some (KService sample_service)" by (simp add: NewInformer_def NewStore_def)
  have l: "lists [] (\<lambda>k. None)" by (simp add: lists_def)
  have "in_fifo ?i1 = NewDeltaFIFO" by (simp add: NewInformer_def)
  with controller_ignores_tombstones [OF r range_ok_id q l c] show ?thesis by (simp only:) blast
qed

section \<open>The kinds of the object cache\<close>

text \<open>
  The cache at work: each of its stores is written by the reflector of its kind, event by event
  or list by list, between the look-ups and the changes of the map of Ingresses.
\<close>

definition reflectorOf :: "string \<Rightarrow> int \<Rightarrow> reflector_config option" where
  "reflectorOf kind resync = map_option (\<lambda>obj. \<lparr>expectedType = obj, resyncPeriod = resync\<rparr>) (resourcesOf kind)"

definition storeOf :: "string \<Rightarrow> kcache \<Rightarrow> store" where
  "storeOf kind k = (if kind = ServicesKind then kc_service k else if kind = EndpointsKind then kc_endpoints k else kc_ingress k)"

definition setStore :: "string \<Rightarrow> store \<Rightarrow> kcache \<Rightarrow> kcache" where
  "setStore kind st k =
     (if kind = ServicesKind then SetServiceStore st k
      else if kind = EndpointsKind then SetEndpointsStore st k
      else SetIngressStore st k)"

inductive cache_reachable :: "kcache \<Rightarrow> bool" where
  created: "createObjectCache \<lparr>e_cache = NewCache, e_lb = ()\<rparr> = Some st \<Longrightarrow> cache_reachable (e_cache st)"
| listed: "cache_reachable k \<Longrightarrow> reflectorOf kind resync = Some cfg \<Longrightarrow> r_store r = storeOf kind k \<Longrightarrow> lists_typed cfg rd \<Longrightarrow>
    ListAndWatch cfg storeOps fromObject rd r = (out, r') \<Longrightarrow> cache_reachable (setStore kind (r_store r') k)"
| watched: "cache_reachable k \<Longrightarrow> reflectorOf kind resync = Some cfg \<Longrightarrow> r_store r = storeOf kind k \<Longrightarrow>
    watchHandler cfg storeOps fromObject lasted ss n v r = (out, v', r') \<Longrightarrow> cache_reachable (setStore kind (r_store r') k)"
| service: "cache_reachable k \<Longrightarrow> cache_reachable (snd (GetService now cl ns nm k))"
| endpoints: "cache_reachable k \<Longrightarrow> cache_reachable (snd (GetEndpoints now cl ns nm k))"
| ingress: "cache_reachable k \<Longrightarrow> cache_reachable (snd (GetIngress now cl ns nm k))"
| mapped: "cache_reachable k \<Longrightarrow> cache_reachable (MapServiceToIngress ns svc ing k)"
| deleted: "cache_reachable k \<Longrightarrow> cache_reachable (ServiceDeleted ns svc k)"

definition kindOf :: "string \<Rightarrow> kobject \<Rightarrow> bool" where
  "kindOf kind obj = (case resourcesOf kind of None \<Rightarrow> False | Some ty \<Rightarrow> ty obj)"

definition store_typed :: "string \<Rightarrow> store \<Rightarrow> bool" where
  "store_typed kind st \<longleftrightarrow> store_wf st \<and> typed contents (kindOf kind) st"

definition cache_typed :: "kcache \<Rightarrow> bool" where
  "cache_typed k \<longleftrightarrow> store_typed ServicesKind (kc_service k) \<and> store_typed EndpointsKind (kc_endpoints k) \<and>
     store_typed IngressesKind (kc_ingress k)"

lemma kindOf_simps [simp]:
  "kindOf ServicesKind obj \<longleftrightarrow> (\<exists>s. obj = KService s)" "kindOf EndpointsKind obj \<longleftrightarrow> (\<exists>e. obj = KEndpoints e)"
  "kindOf IngressesKind obj \<longleftrightarrow> (\<exists>i. obj = KIngress i)"
  by (auto simp: kindOf_def resourcesOf_def split: kobject.splits)

lemma reflectorOf_type: "reflectorOf kind resync = Some cfg \<Longrightarrow> expectedType cfg = kindOf kind"
  by (auto simp: reflectorOf_def kindOf_def fun_eq_iff)

lemma reflectorOf_kind: "reflectorOf kind resync = Some cfg \<Longrightarrow> kind \<in> {ServicesKind, EndpointsKind, IngressesKind}"
  by (auto simp: reflectorOf_def resourcesOf_def split: if_splits)

lemma store_typed_new: "store_typed kind (NewTTLStore ttl)"
  by (simp add: store_typed_def typed_def NewTTLStore_def)

lemma store_typed_Add:
  "store_typed kind st \<Longrightarrow> kindOf kind obj \<Longrightarrow> store_typed kind (snd (StoreAdd now obj st))"
  by (auto simp: store_typed_def typed_def StoreAdd_def ct.get_put st.inv_put split: sum.split if_splits)

lemma StoreGetByKey_contents: "StoreGetByKey now st k = Some obj \<Longrightarrow> contents st k = Some obj"
  by (cases st) (auto simp: getOrExpire_def split: option.splits if_splits)

lemma store_typed_get: "store_typed kind st \<Longrightarrow> StoreGetByKey now st k = Some obj \<Longrightarrow> kindOf kind obj"
  by (auto simp: store_typed_def typed_def dest: StoreGetByKey_contents)

lemma cache_typed_set:
  "cache_typed k \<Longrightarrow> kind \<in> {ServicesKind, EndpointsKind, IngressesKind} \<Longrightarrow> store_typed kind st \<Longrightarrow> cache_typed (setStore kind st k)"
  by (auto simp: cache_typed_def setStore_def SetServiceStore_def SetEndpointsStore_def SetIngressStore_def)

lemma cache_typed_store:
  "cache_typed k \<Longrightarrow> kind \<in> {ServicesKind, EndpointsKind, IngressesKind} \<Longrightarrow> store_typed kind (storeOf kind k)"
  by (auto simp: cache_typed_def storeOf_def)

lemma cache_reachable_typed: "cache_reachable k \<Longrightarrow> cache_typed k"
proof (induction rule: cache_reachable.induct)
  case (created st)
  then show ?case
    by (auto simp: createObjectCache_def CreateStore_def resourcesOf_def cache_typed_def store_typed_new
        SetServiceStore_def SetEndpointsStore_def SetIngressStore_def)
next
  case (listed k kind resync cfg r rd fromObject out r')
  note kind = reflectorOf_kind [OF listed(2)] reflectorOf_type [OF listed(2)]
  have "store_typed kind (r_store r')"
    using rs.typed_round [of r cfg rd fromObject out r'] cache_typed_store [OF listed.IH kind(1)] listed.hyps kind(2)
    by (simp add: store_typed_def)
  with cache_typed_set [OF listed.IH kind(1)] show ?case by blast
next
  case (watched k kind resync cfg r fromObject lasted ss n v out v' r')
  note kind = reflectorOf_kind [OF watched(2)] reflectorOf_type [OF watched(2)]
  have "store_typed kind (r_store r')"
    using rs.typed_handler [of r cfg fromObject lasted ss n v out v' r'] cache_typed_store [OF watched.IH kind(1)] watched.hyps kind(2)
    by (simp add: store_typed_def)
  with cache_typed_set [OF watched.IH kind(1)] show ?case by blast
next
  case (service k now cl ns nm)
  then show ?case
    by (auto simp: GetService_def Let_def cache_typed_def store_typed_Add split: sum.split option.split kobject.split)
next
  case (endpoints k now cl ns nm)
  then show ?case
    by (auto simp: GetEndpoints_def Let_def cache_typed_def store_typed_Add split: sum.split option.split kobject.split)
next
  case (ingress k now cl ns nm)
  then show ?case
    by (auto simp: GetIngress_def Let_def cache_typed_def store_typed_Add split: sum.split option.split kobject.split)
qed (simp_all add: cache_typed_def MapServiceToIngress_def ServiceDeleted_def)

text \<open>
  C18: the stores of the object cache keep to their kinds. Whatever the watches deliver (objects
  of other kinds included), in any interleaving with look-ups, and as long as a list of a kind has
  objects of that kind: a look-up of a Service fails only because there is none, and so for
  Endpoints and Ingresses; the errors for an object of another kind are never returned.
\<close>

theorem object_cache_typed:
  assumes "cache_reachable k"
  shows "(\<forall>er. fst (GetService now cl ns nm k) = Inl er \<longrightarrow> er = Err (''Could not find Service '' @ quote (cacheLookupKey ns nm))) \<and>
    (\<forall>er. fst (GetEndpoints now cl ns nm k) = Inl er \<longrightarrow> er = Err (''Could not find Endpoints '' @ quote (cacheLookupKey ns nm))) \<and>
    (\<forall>er. fst (GetIngress now cl ns nm k) = Inl er \<longrightarrow>
       er = Err (''No Ingress associated with Service('' @ quote (cacheLookupKey ns nm) @ '')'') \<or>
       (\<exists>key. gm_get (kc_ingMap k) (cacheLookupKey ns nm) = Some key \<and> er = Err (''Could not find Ingress '' @ quote key)))"
proof -
  have "cache_typed k" using cache_reachable_typed [OF assms] .
  then have get: "StoreGetByKey now (kc_service k) key = Some obj \<Longrightarrow> \<exists>s. obj = KService s"
    "StoreGetByKey now (kc_endpoints k) key = Some obj \<Longrightarrow> \<exists>s. obj = KEndpoints s"
    "StoreGetByKey now (kc_ingress k) key = Some obj \<Longrightarrow> \<exists>s. obj = KIngress s" for key obj
    using store_typed_get by (fastforce simp: cache_typed_def)+
  have service: "er = Err (''Could not find Service '' @ quote (cacheLookupKey ns nm))" if "fst (GetService now cl ns nm k) = Inl er" for er
    using that get(1) [of "cacheLookupKey ns nm"]
    by (cases "StoreGetByKey now (kc_service k) (cacheLookupKey ns nm)") (auto simp: GetService_def StoreGet_def split: sum.splits)
  have endpoints: "er = Err (''Could not find Endpoints '' @ quote (cacheLookupKey ns nm))" if "fst (GetEndpoints now cl ns nm k) = Inl er" for er
    using that get(2) [of "cacheLookupKey ns nm"]
    by (cases "StoreGetByKey now (kc_endpoints k) (cacheLookupKey ns nm)") (auto simp: GetEndpoints_def StoreGet_def split: sum.splits)
  have ingress: "er = Err (''No Ingress associated with Service('' @ quote (cacheLookupKey ns nm) @ '')'') \<or>
       (\<exists>key. gm_get (kc_ingMap k) (cacheLookupKey ns nm) = Some key \<and> er = Err (''Could not find Ingress '' @ quote key))"
    if er: "fst (GetIngress now cl ns nm k) = Inl er" for er
  proof (cases "gm_get (kc_ingMap k) (cacheLookupKey ns nm)")
    case (Some key)
    then show ?thesis using er get(3) [of key]
      by (cases "StoreGetByKey now (kc_ingress k) key") (auto simp: GetIngress_def StoreGet_def split: sum.splits)
  qed (use er in \<open>simp add: GetIngress_def\<close>)
  show ?thesis using service endpoints ingress by blast
qed

text \<open>A reflector of Services is sent Endpoints: the store stays as it was.\<close>

theorem object_cache_typed_witness:
  "\<exists>k. cache_reachable k \<and> k = (NewCache\<lparr>kc_ingress := NewTTLStore cacheTTL, kc_endpoints := NewTTLStore cacheTTL,
      kc_service := TTLStore [(''test/bar'', KService sample_service, 5)] cacheTTL\<rparr>) \<and>
    fst (GetService 6 sample_client ''test'' ''bar'' k) = Inr sample_service \<and>
    fst (GetService 6 sample_client ''test'' ''foo'' k) = Inl (Err (''Could not find Service '' @ quote ''test/foo''))"
proof -
  let ?new = "NewCache\<lparr>kc_ingress := NewTTLStore cacheTTL, kc_endpoints := NewTTLStore cacheTTL, kc_service := NewTTLStore cacheTTL\<rparr>"
  let ?st = "TTLStore [(''test/bar'', KService sample_service, 5)] cacheTTL"
  let ?k = "?new\<lparr>kc_service := ?st\<rparr>"
  have "createObjectCache \<lparr>e_cache = NewCache, e_lb = ()\<rparr> = Some \<lparr>e_cache = ?new, e_lb = ()\<rparr>"
    by (simp add: createObjectCache_def CreateStore_def resourcesOf_def SetServiceStore_def SetEndpointsStore_def SetIngressStore_def)
  then have start: "cache_reachable ?new" using cache_reachable.created by fastforce
  let ?ss = "[Received 4 \<lparr>ev_Type = AddedEvent, ev_Object = KEndpoints \<lparr>en_meta = svc_meta sample_service, en_subsets = []\<rparr>, ev_Version = ''1''\<rparr>,
    Received 5 \<lparr>ev_Type = AddedEvent, ev_Object = KService sample_service, ev_Version = ''2''\<rparr>]"
  have run: "watchHandler sample_config storeOps (\<lambda>ev. Err []) 0 ?ss 0 [] (NewReflector (NewTTLStore cacheTTL)) =
      (None, ''2'', \<lparr>r_store = ?st, nextResync = None, lastSyncResourceVersion = ''2''\<rparr>)"
    by code_simp
  have "reflectorOf ServicesKind 0 = Some sample_config" by (simp add: reflectorOf_def resourcesOf_def sample_config_def)
  from cache_reachable.watched [OF start this _ run] have k: "cache_reachable ?k"
    by (simp add: NewReflector_def storeOf_def setStore_def SetServiceStore_def)
  have found: "fst (GetService 6 sample_client ''test'' ''bar'' ?k) = Inr sample_service" by code_simp
  have "case fst (GetService 6 sample_client ''test'' ''foo'' ?k) of Inl er \<Rightarrow> True | Inr sv \<Rightarrow> False" by code_simp
  then have "\<exists>er. fst (GetService 6 sample_client ''test'' ''foo'' ?k) = Inl er" by (simp split: sum.splits)
  then have "fst (GetService 6 sample_client ''test'' ''foo'' ?k) = Inl (Err (''Could not find Service '' @ quote (cacheLookupKey ''test'' ''foo'')))"
    using object_cache_typed [OF k, of 6 sample_client "''test''" "''foo''"] by blast
  moreover have "cacheLookupKey ''test'' ''foo'' = ''test/foo''" by code_simp
  ultimately show ?thesis using k found by (intro exI [of _ ?k]) simp
qed

end
