(* ===== verification/Vulcan_Changes.thy ===== *)
theory Vulcan_Changes
  imports Vulcan_Engine
begin

text \<open>
  The in-memory engine as a state machine: its twelve changing operations, the states they reach
  from an empty engine, and the stream of changes it announces. The specification of the stream
  is an abstract configuration (\<open>config\<close>) with one effect per change.
\<close>

section \<open>The operations\<close>

datatype mem_op =
    UpsertHost host | DeleteHost string
  | UpsertListener listener | DeleteListener string
  | UpsertFrontend eng_frontend | DeleteFrontend string
  | UpsertMiddleware string eng_middleware | DeleteMiddleware string string
  | UpsertBackend eng_backend | DeleteBackend string
  | UpsertServer string eng_server | DeleteServer string string

fun runOp :: "mem_op \<Rightarrow> mem \<Rightarrow> err option \<times> mem" where
  "runOp (UpsertHost h) = MemUpsertHost h"
| "runOp (DeleteHost k) = MemDeleteHost k"
| "runOp (UpsertListener l) = MemUpsertListener l"
| "runOp (DeleteListener k) = MemDeleteListener k"
| "runOp (UpsertFrontend f) = MemUpsertFrontend f"
| "runOp (DeleteFrontend k) = MemDeleteFrontend k"
| "runOp (UpsertMiddleware fk md) = MemUpsertMiddleware fk md"
| "runOp (DeleteMiddleware fk k) = MemDeleteMiddleware fk k"
| "runOp (UpsertBackend b) = MemUpsertBackend b"
| "runOp (DeleteBackend k) = MemDeleteBackend k"
| "runOp (UpsertServer bk srv) = MemUpsertServer bk srv"
| "runOp (DeleteServer bk k) = MemDeleteServer bk k"

lemmas mem_op_defs = MemUpsertHost_def MemDeleteHost_def MemUpsertListener_def MemDeleteListener_def
  MemUpsertFrontend_def MemDeleteFrontend_def MemUpsertMiddleware_def MemDeleteMiddleware_def
  MemUpsertBackend_def MemDeleteBackend_def MemUpsertServer_def MemDeleteServer_def Let_def

inductive mem_step :: "mem \<Rightarrow> mem \<Rightarrow> bool" where
  op: "runOp op m = (e, m') \<Longrightarrow> mem_step m m'"
| receive: "m_Changes m = c # cs \<Longrightarrow> mem_step m (m\<lparr>m_Changes := cs\<rparr>)"

inductive mem_reachable :: "mem \<Rightarrow> bool" where
  new: "mem_reachable NewMem"
| step: "mem_reachable m \<Longrightarrow> mem_step m m' \<Longrightarrow> mem_reachable m'"

section \<open>The invariant\<close>

text \<open>
  Beside the shape of the maps: identifiers are unique in every list, the channel holds at most
  1000 changes, and every frontend has its backend.
\<close>

definition mem_inv :: "mem \<Rightarrow> bool" where
  "mem_inv m \<longleftrightarrow> mem_wf m \<and> gm_wf (m_Hosts m) \<and> gm_wf (m_Listeners m) \<and> length (m_Changes m) \<le> 1000 \<and>
     (\<forall>fk vals. gm_get (m_Middlewares m) fk = Some vals \<longrightarrow> distinct (map em_Id vals)) \<and>
     (\<forall>k f. gm_get (m_Frontends m) k = Some f \<longrightarrow> gm_get (m_Backends m) (ef_BackendId f) \<noteq> None)"

lemma length_emit [simp]: "length (m_Changes m) \<le> 1000 \<Longrightarrow> length (m_Changes (emit c m)) \<le> 1000"
  by (simp add: emit_def)

lemma mem_inv_NewMem: "mem_inv NewMem"
  by (simp add: mem_inv_def) (simp add: NewMem_def)

lemma gm_get_values: "gm_get m k = Some v \<Longrightarrow> v \<in> set (map snd m)"
  by (force dest: map_of_SomeD)

lemma runOp_inv:
  assumes "mem_inv m" and "runOp op m = (e, m')"
  shows "mem_inv m'"
proof (cases op)
  case (DeleteBackend k)
  show ?thesis
  proof (cases e)
    case None
    then have m': "m' = (emit (BackendDeleted k) m)\<lparr>m_Backends := gm_del k (m_Backends m)\<rparr>"
        and unused: "\<forall>f \<in> set (map snd (m_Frontends m)). ef_BackendId f \<noteq> k"
      using assms(2) by (auto simp: DeleteBackend MemDeleteBackend_def Let_def split: if_splits)
    have "ef_BackendId f \<noteq> k" if "gm_get (m_Frontends m) i = Some f" for i f
      using gm_get_values [OF that] unused by blast
    then show ?thesis using assms(1) by (auto simp: m' mem_inv_def mem_wf_def)
  qed (use assms DeleteBackend in \<open>auto simp: MemDeleteBackend_def Let_def split: if_splits\<close>)
qed (use assms in \<open>auto simp: mem_op_defs mem_inv_def mem_wf_def dest: list_remove_Some(1) split: if_splits option.splits\<close>)

lemma mem_step_inv: "mem_step m m' \<Longrightarrow> mem_inv m \<Longrightarrow> mem_inv m'"
proof (induction rule: mem_step.induct)
  case (receive m c cs)
  then show ?case by (auto simp: mem_inv_def mem_wf_def)
qed (rule runOp_inv)

lemma mem_reachable_inv: "mem_reachable m \<Longrightarrow> mem_inv m"
  by (induction rule: mem_reachable.induct) (auto intro: mem_inv_NewMem mem_step_inv)

section \<open>The stream of changes\<close>

record config =
  c_hosts :: "string \<rightharpoonup> host"
  c_listeners :: "string \<rightharpoonup> listener"
  c_frontends :: "string \<rightharpoonup> eng_frontend"
  c_backends :: "string \<rightharpoonup> eng_backend"
  c_middlewares :: "string \<Rightarrow> string \<rightharpoonup> eng_middleware"
  c_servers :: "string \<Rightarrow> string \<rightharpoonup> eng_server"

fun applyChange :: "change \<Rightarrow> config \<Rightarrow> config" where
  "applyChange (HostUpserted h) c = c\<lparr>c_hosts := (c_hosts c)(ho_Name h \<mapsto> h)\<rparr>"
| "applyChange (HostDeleted k) c = c\<lparr>c_hosts := (c_hosts c)(k := None)\<rparr>"
| "applyChange (ListenerUpserted l) c = c\<lparr>c_listeners := (c_listeners c)(li_Id l \<mapsto> l)\<rparr>"
| "applyChange (ListenerDeleted k) c = c\<lparr>c_listeners := (c_listeners c)(k := None)\<rparr>"
| "applyChange (FrontendUpserted f) c = c\<lparr>c_frontends := (c_frontends c)(ef_Id f \<mapsto> f)\<rparr>"
| "applyChange (FrontendDeleted k) c = c\<lparr>c_frontends := (c_frontends c)(k := None)\<rparr>"
| "applyChange (MiddlewareUpserted fk md) c =
     c\<lparr>c_middlewares := (c_middlewares c)(fk := (c_middlewares c fk)(em_Id md \<mapsto> md))\<rparr>"
| "applyChange (MiddlewareDeleted fk k) c =
     c\<lparr>c_middlewares := (c_middlewares c)(fk := (c_middlewares c fk)(k := None))\<rparr>"
| "applyChange (BackendUpserted b) c = c\<lparr>c_backends := (c_backends c)(eb_Id b \<mapsto> b)\<rparr>"
| "applyChange (BackendDeleted k) c = c\<lparr>c_backends := (c_backends c)(k := None)\<rparr>"
| "applyChange (ServerUpserted bk srv) c =
     c\<lparr>c_servers := (c_servers c)(bk := (c_servers c bk)(es_Id srv \<mapsto> srv))\<rparr>"
| "applyChange (ServerDeleted bk k) c =
     c\<lparr>c_servers := (c_servers c)(bk := (c_servers c bk)(k := None))\<rparr>"

definition view :: "mem \<Rightarrow> config" where
  "view m = \<lparr>c_hosts = gm_get (m_Hosts m), c_listeners = gm_get (m_Listeners m),
     c_frontends = gm_get (m_Frontends m), c_backends = gm_get (m_Backends m),
     c_middlewares = (\<lambda>fk. byId em_Id (case gm_get (m_Middlewares m) fk of None \<Rightarrow> [] | Some l \<Rightarrow> l)),
     c_servers = (\<lambda>bk. byId es_Id (case gm_get (m_Servers m) bk of None \<Rightarrow> [] | Some l \<Rightarrow> l))\<rparr>"

fun announced :: "mem_op \<Rightarrow> change" where
  "announced (UpsertHost h) = HostUpserted h"
| "announced (DeleteHost k) = HostDeleted k"
| "announced (UpsertListener l) = ListenerUpserted l"
| "announced (DeleteListener k) = ListenerDeleted k"
| "announced (UpsertFrontend f) = FrontendUpserted f"
| "announced (DeleteFrontend k) = FrontendDeleted k"
| "announced (UpsertMiddleware fk md) = MiddlewareUpserted fk md"
| "announced (DeleteMiddleware fk k) = MiddlewareDeleted fk k"
| "announced (UpsertBackend b) = BackendUpserted b"
| "announced (DeleteBackend k) = BackendDeleted k"
| "announced (UpsertServer bk srv) = ServerUpserted bk srv"
| "announced (DeleteServer bk k) = ServerDeleted bk k"

lemma m_Changes_emit: "m_Changes (emit c m) = (if length (m_Changes m) < 1000 then m_Changes m @ [c] else m_Changes m)"
  by (simp add: emit_def)

lemma runOp_failed: "runOp op m = (Some e, m') \<Longrightarrow> m' = m"
  by (cases op) (auto simp: mem_op_defs split: if_splits option.splits)

lemma runOp_changes:
  "runOp op m = (None, m') \<Longrightarrow> m_Changes m' = (if length (m_Changes m) < 1000 then m_Changes m @ [announced op] else m_Changes m)"
  by (cases op) (auto simp: mem_op_defs m_Changes_emit split: if_splits option.splits)

lemma byId_list_remove:
  "list_remove idf k ys = Some zs \<Longrightarrow> distinct (map idf ys) \<Longrightarrow> byId idf zs = (byId idf ys)(k := None)"
  by (rule list_remove_Some(2))

lemma runOp_view:
  assumes "mem_inv m" and "runOp op m = (None, m')"
  shows "view m' = applyChange (announced op) (view m)"
proof -
  have wf: "gm_wf (m_Hosts m)" "gm_wf (m_Listeners m)" "gm_wf (m_Frontends m)" "gm_wf (m_Backends m)"
      "gm_wf (m_Middlewares m)" "gm_wf (m_Servers m)"
      "gm_get (m_Servers m) k = Some vals \<Longrightarrow> distinct (map es_Id vals)"
      "gm_get (m_Middlewares m) k = Some mids \<Longrightarrow> distinct (map em_Id mids)" for k vals mids
    using assms(1) by (auto simp: mem_inv_def mem_wf_def)
  show ?thesis
    using assms(2)
    by (cases op)
      (auto simp: mem_op_defs view_def wf(1-6) fun_eq_iff byId_list_remove wf(7,8) split: if_splits option.splits)
qed

lemma run_replay:
  assumes "mem_inv m" and "length (m_Changes m) + length ops \<le> 1000"
  shows "\<exists>cs. length cs \<le> length ops \<and>
     m_Changes (fold (\<lambda>op m. snd (runOp op m)) ops m) = m_Changes m @ cs \<and>
     view (fold (\<lambda>op m. snd (runOp op m)) ops m) = fold applyChange cs (view m)"
  using assms
proof (induction ops arbitrary: m)
  case (Cons op ops)
  obtain e m1 where run: "runOp op m = (e, m1)" by fastforce
  note inv = runOp_inv [OF Cons.prems(1) run]
  show ?case
  proof (cases e)
    case None
    with run have ch: "m_Changes m1 = m_Changes m @ [announced op]"
      using runOp_changes Cons.prems(2) by simp
    with Cons.prems(2) have "length (m_Changes m1) + length ops \<le> 1000" by simp
    from Cons.IH [OF inv this] obtain cs where "length cs \<le> length ops"
        and "m_Changes (fold (\<lambda>op m. snd (runOp op m)) ops m1) = m_Changes m1 @ cs"
        and "view (fold (\<lambda>op m. snd (runOp op m)) ops m1) = fold applyChange cs (view m1)" by blast
    then show ?thesis
      using runOp_view [OF Cons.prems(1)] run None ch by (intro exI [of _ "announced op # cs"]) simp
  next
    case (Some er)
    with run have m1: "m1 = m" by (simp add: runOp_failed)
    from Cons.prems have "length (m_Changes m) + length ops \<le> 1000" by simp
    from Cons.IH [OF Cons.prems(1) this] show ?thesis using run m1 by (auto intro: le_SucI)
  qed
qed simp

section \<open>Properties\<close>

text \<open>
  C8: the engine never refers to what it does not have. In every state the operations of the
  in-memory engine reach from an empty one, in any order, whether they succeed or fail and
  whenever the subscriber takes changes, each frontend's backend is registered, no list of
  servers or middlewares has an identifier twice, and at most 1000 changes are waiting.
\<close>

theorem engine_reachable_consistent:
  assumes "mem_reachable m"
  shows "(gm_get (m_Frontends m) k = Some f \<longrightarrow> gm_get (m_Backends m) (ef_BackendId f) \<noteq> None) \<and>
     (gm_get (m_Servers m) bk = Some srvs \<longrightarrow> distinct (map es_Id srvs)) \<and>
     (gm_get (m_Middlewares m) fk = Some mids \<longrightarrow> distinct (map em_Id mids)) \<and> length (m_Changes m) \<le> 1000"
  using mem_reachable_inv [OF assms] by (simp add: mem_inv_def mem_wf_def)

definition sample_settings :: http_backend_settings where
  "sample_settings = \<lparr>bs_Read = [], bs_Dial = [], bs_TLSHandshake = [], bs_Period = [], bs_MaxIdleConnsPerHost = 0, bs_TLS = None\<rparr>"

definition sample_ops :: "mem_op list" where
  "sample_ops = [UpsertBackend \<lparr>eb_Id = ''b'', eb_Type = ''http'', eb_Settings = sample_settings\<rparr>,
     UpsertServer ''b'' \<lparr>es_Id = ''s'', es_URL = ''http://10.0.0.1:80''\<rparr>, DeleteServer ''b'' ''t'', DeleteServer ''b'' ''s'']"

lemma mem_reachable_ops: "mem_reachable m \<Longrightarrow> mem_reachable (fold (\<lambda>op m. snd (runOp op m)) ops m)"
proof (induction ops arbitrary: m)
  case (Cons op ops)
  have "mem_step m (snd (runOp op m))" by (rule mem_step.op [of op m "fst (runOp op m)"]) simp
  with Cons show ?case by (simp add: mem_reachable.step)
qed simp

theorem engine_reachable_consistent_witness:
  "length (m_Changes (fold (\<lambda>op m. snd (runOp op m)) sample_ops NewMem)) \<le> 1000 \<and>
   mem_reachable (fold (\<lambda>op m. snd (runOp op m)) sample_ops NewMem)"
  using engine_reachable_consistent [OF mem_reachable_ops [OF mem_reachable.new], of sample_ops]
    mem_reachable_ops [OF mem_reachable.new] by blast

text \<open>
  C7: the changes tell the whole story. As long as the channel has room for them, a run of
  operations announces changes whose effects, applied in order to the configuration before the
  run, give exactly the configuration after it; operations that fail announce nothing.
\<close>

theorem engine_changes_replay:
  assumes "mem_reachable m" and "length (m_Changes m) + length ops \<le> 1000"
  shows "\<exists>cs. length cs \<le> length ops \<and>
     m_Changes (fold (\<lambda>op m. snd (runOp op m)) ops m) = m_Changes m @ cs \<and>
     view (fold (\<lambda>op m. snd (runOp op m)) ops m) = fold applyChange cs (view m)"
  using mem_reachable_inv [OF assms(1)] assms(2) by (rule run_replay)

theorem engine_changes_replay_witness:
  "m_Changes (fold (\<lambda>op m. snd (runOp op m)) sample_ops NewMem) =
     [BackendUpserted \<lparr>eb_Id = ''b'', eb_Type = ''http'', eb_Settings = sample_settings\<rparr>,
      ServerUpserted ''b'' \<lparr>es_Id = ''s'', es_URL = ''http://10.0.0.1:80''\<rparr>, ServerDeleted ''b'' ''s''] \<and>
   c_servers (view (fold (\<lambda>op m. snd (runOp op m)) sample_ops NewMem)) ''b'' = Map.empty"
proof -
  let ?m = "fold (\<lambda>op m. snd (runOp op m)) sample_ops NewMem"
  have ch: "m_Changes ?m =
     [BackendUpserted \<lparr>eb_Id = ''b'', eb_Type = ''http'', eb_Settings = sample_settings\<rparr>,
      ServerUpserted ''b'' \<lparr>es_Id = ''s'', es_URL = ''http://10.0.0.1:80''\<rparr>, ServerDeleted ''b'' ''s'']"
    by (simp add: sample_ops_def mem_op_defs emit_def NewMem_def)
  have start: "m_Changes NewMem = []" "c_servers (view NewMem) ''b'' = Map.empty"
    by (simp_all add: NewMem_def view_def)
  have "length (m_Changes NewMem) + length sample_ops \<le> 1000" by (simp add: start sample_ops_def)
  from engine_changes_replay [OF mem_reachable.new this] obtain cs
    where "m_Changes ?m = cs" and "view ?m = fold applyChange cs (view NewMem)" by (auto simp: start)
  then show ?thesis unfolding ch by (auto simp: ch [symmetric]) (simp add: ch start)
qed

end
