(* ===== verification/Ezd.thy ===== *)
theory Ezd
  imports Go_Strings
begin

text \<open>
  The etcd client \<^verbatim>\<open>gearbox/ezd/ezd.go\<close> the traefik provider writes through. The etcd server
  behind it is not part of the program: it is a record of the calls of the keys API on the state
  of the server, each of which may fail. \<open>etcd_ok\<close> names what its documentation promises of them.
\<close>

section \<open>The keys API\<close>

text \<open>A node as the server returns it; of its children only key and value.\<close>

record etcd_node =
  nd_Value :: string
  nd_Dir :: bool
  nd_Nodes :: "(string \<times> string) list"

datatype prev_exist = PrevIgnore | PrevNoExist

record 's keys_api =
  ka_Get :: "string \<Rightarrow> 's \<Rightarrow> (err + etcd_node option) \<times> 's"
  ka_Set :: "string \<Rightarrow> string \<Rightarrow> prev_exist \<Rightarrow> bool \<Rightarrow> 's \<Rightarrow> err option \<times> 's"
  ka_Delete :: "string \<Rightarrow> bool \<Rightarrow> 's \<Rightarrow> err option \<times> 's"

section \<open>ezd.go\<close>

definition EmptyNodeErr :: err where
  "EmptyNodeErr = Err ''client: empty node''"

definition extractNodeValue :: "etcd_node option \<Rightarrow> err + string" where
  "extractNodeValue node = (case node of None \<Rightarrow> Inl EmptyNodeErr | Some n \<Rightarrow> Inr (nd_Value n))"

text \<open>What is collected of the children is their \<^verbatim>\<open>Value\<close>.\<close>

definition extractKeys :: "etcd_node option \<Rightarrow> err + string list" where
  "extractKeys node =
     (case node of
        None \<Rightarrow> Inl EmptyNodeErr
      | Some n \<Rightarrow> if \<not> nd_Dir n then Inr [] else Inr (map snd (nd_Nodes n)))"

definition EtcdGet :: "'s keys_api \<Rightarrow> string \<Rightarrow> 's \<Rightarrow> (err + string) \<times> 's" where
  "EtcdGet api key s =
     (case ka_Get api key s of
        (Inl er, s) \<Rightarrow> (Inl er, s)
      | (Inr node, s) \<Rightarrow> (extractNodeValue node, s))"

definition EtcdExists :: "'s keys_api \<Rightarrow> string \<Rightarrow> 's \<Rightarrow> err option \<times> 's" where
  "EtcdExists api key s = apfst (\<lambda>r. case r of Inl er \<Rightarrow> Some er | Inr _ \<Rightarrow> None) (EtcdGet api key s)"

definition EtcdKeys :: "'s keys_api \<Rightarrow> string \<Rightarrow> 's \<Rightarrow> (err + string list) \<times> 's" where
  "EtcdKeys api pre s =
     (case ka_Get api pre s of
        (Inl er, s) \<Rightarrow> (Inl er, s)
      | (Inr node, s) \<Rightarrow> (extractKeys node, s))"

definition EtcdSet :: "'s keys_api \<Rightarrow> string \<Rightarrow> string \<Rightarrow> 's \<Rightarrow> err option \<times> 's" where
  "EtcdSet api key val s = ka_Set api key val PrevIgnore False s"

definition EtcdMkdir :: "'s keys_api \<Rightarrow> string \<Rightarrow> 's \<Rightarrow> err option \<times> 's" where
  "EtcdMkdir api path s = ka_Set api path [] PrevNoExist True s"

definition EtcdDelete :: "'s keys_api \<Rightarrow> string \<Rightarrow> 's \<Rightarrow> err option \<times> 's" where
  "EtcdDelete api key s = ka_Delete api key True s"

section \<open>What etcd documents\<close>

text \<open>
  \<open>val s k\<close> is the value of the leaf \<open>k\<close>. Reading changes nothing; a leaf is read back with its
  value; nothing is found below a leaf; a set that succeeds changes its own leaf only, one that
  fails changes none.
\<close>

definition etcd_ok :: "'s keys_api \<Rightarrow> ('s \<Rightarrow> string \<rightharpoonup> string) \<Rightarrow> bool" where
  "etcd_ok api val \<longleftrightarrow>
     (\<forall>k s. snd (ka_Get api k s) = s) \<and>
     (\<forall>k s v. val s k = Some v \<longrightarrow> (\<exists>n. fst (ka_Get api k s) = Inr (Some n) \<and> nd_Value n = v \<and> \<not> nd_Dir n)) \<and>
     (\<forall>k s rest. val s k \<noteq> None \<longrightarrow> (\<exists>e. fst (ka_Get api (k @ ''/'' @ rest) s) = Inl e)) \<and>
     (\<forall>k v s s'. ka_Set api k v PrevIgnore False s = (None, s') \<longrightarrow> val s' = (val s)(k \<mapsto> v)) \<and>
     (\<forall>k v s e s'. ka_Set api k v PrevIgnore False s = (Some e, s') \<longrightarrow> val s' = val s)"

lemma etcd_ok_Get:
  assumes "etcd_ok api val"
  shows "val s k = Some v \<Longrightarrow> EtcdGet api k s = (Inr v, s)"
    and "val s k \<noteq> None \<Longrightarrow> \<exists>e. EtcdGet api (k @ ''/'' @ rest) s = (Inl e, s)"
    and "snd (EtcdGet api k s) = s"
proof -
  have same: "snd (ka_Get api k s) = s" for k s using assms by (simp add: etcd_ok_def)
  have leaf: "val s k = Some v \<Longrightarrow> \<exists>n. fst (ka_Get api k s) = Inr (Some n) \<and> nd_Value n = v \<and> \<not> nd_Dir n" for k s v
    using assms by (simp add: etcd_ok_def)
  have below: "val s k \<noteq> None \<Longrightarrow> \<exists>e. fst (ka_Get api (k @ ''/'' @ rest) s) = Inl e" for k s
    using assms by (simp add: etcd_ok_def)
  show "snd (EtcdGet api k s) = s"
    using same [of k s] by (cases "ka_Get api k s") (auto simp: EtcdGet_def split: sum.split)
  show "EtcdGet api k s = (Inr v, s)" if v: "val s k = Some v"
  proof -
    obtain n where "fst (ka_Get api k s) = Inr (Some n)" and "nd_Value n = v" using leaf v by blast
    then show ?thesis using same [of k s] by (cases "ka_Get api k s") (simp add: EtcdGet_def extractNodeValue_def)
  qed
  show "\<exists>e. EtcdGet api (k @ ''/'' @ rest) s = (Inl e, s)" if some: "val s k \<noteq> None"
  proof -
    obtain e where "fst (ka_Get api (k @ ''/'' @ rest) s) = Inl e" using below some by blast
    then show ?thesis using same [of "k @ ''/'' @ rest" s] by (cases "ka_Get api (k @ ''/'' @ rest) s") (simp add: EtcdGet_def)
  qed
qed

lemma etcd_ok_Set:
  assumes "etcd_ok api val"
  shows "EtcdSet api k v s = (None, s') \<Longrightarrow> val s' = (val s)(k \<mapsto> v)"
    and "j \<noteq> k \<Longrightarrow> val (snd (EtcdSet api k v s)) j = val s j"
proof -
  show set: "val s' = (val s)(k \<mapsto> v)" if "EtcdSet api k v s = (None, s')" for s'
    using assms that by (simp add: etcd_ok_def EtcdSet_def)
  show "val (snd (EtcdSet api k v s)) j = val s j" if "j \<noteq> k"
  proof (cases "EtcdSet api k v s")
    case (Pair e s')
    then show ?thesis
      using set [of s'] assms that by (cases e) (auto simp: etcd_ok_def EtcdSet_def)
  qed
qed

end
