(* ===== verification/Traefik.thy ===== *)
theory Traefik
  imports Engine Ezd
begin

text \<open>
  The traefik provider, \<^verbatim>\<open>loadbalancer/traefik\<close>: frontends, backends and servers are written to
  etcd as keys below a prefix, from where traefik reads its configuration.
\<close>

section \<open>Objects\<close>

record t_route =
  tr_Rule :: string
  tr_Value :: string

record t_server =
  ts_URL :: string
  ts_Weight :: int

record t_frontend =
  tf_Backend :: string
  tf_Routes :: "(string, t_route) gomap"
  tf_PassHostHeader :: bool
  tf_id :: string
  tf_middlewares :: "string list"

text \<open>The servers are a map that is nil when a backend was read without its servers.\<close>

record t_backend =
  tb_Servers :: "(string, t_server) gomap option"
  tb_CircuitBreaker :: "string option"
  tb_LoadBalancer :: "string option"
  tb_id :: string

record t_srv =
  tv_Server :: t_server
  tv_id :: string

abbreviation DefaultPrefix :: string where "DefaultPrefix \<equiv> ''/traefik''"
abbreviation LoadbalancingMethodKey :: string where "LoadbalancingMethodKey \<equiv> ''loadbalancer_method''"
abbreviation defaultCircuitBreaker :: string where "defaultCircuitBreaker \<equiv> ''NetworkErrorRatio() > 0.6''"

definition validLBM :: "string \<Rightarrow> bool" where
  "validLBM method \<longleftrightarrow> method = ''drr'' \<or> method = ''wrr''"

section \<open>Routes\<close>

record t_route_acc =
  ta_routes :: "(string, t_route) gomap"
  ta_headers :: "string list"
  ta_headersRgx :: "string list"

definition rule :: "string \<Rightarrow> t_route" where
  "rule s = \<lparr>tr_Rule = s, tr_Value = []\<rparr>"

definition traefikRoutePart :: "route_part \<Rightarrow> t_route_acc \<Rightarrow> t_route_acc" where
  "traefikRoutePart p acc =
     (let put = (\<lambda>key s. acc\<lparr>ta_routes := gm_put key (rule s) (ta_routes acc)\<rparr>) in
      if rp_kind p = HostPart then put ''host'' (''Host: '' @ rp_value p)
      else if rp_kind p = MethodPart then put ''methods'' (''Methods: '' @ rp_value p)
      else if rp_kind p = PathPart then put ''path'' (''Path: '' @ rp_value p)
      else if rp_kind p = PrefixPart then put ''prefix'' (''PathPrefix: '' @ rp_value p)
      else if rp_kind p = HeaderPart then
        (let head = quote (rp_header p) @ '', '' @ quote (rp_value p) in
         if rp_regex p then acc\<lparr>ta_headersRgx := ta_headersRgx acc @ [head]\<rparr>
         else acc\<lparr>ta_headers := ta_headers acc @ [head]\<rparr>)
      else acc)"

definition TraefikNewRoute :: "kroute \<Rightarrow> (string, t_route) gomap" where
  "TraefikNewRoute rt =
     (let acc = fold traefikRoutePart (RouteParts rt) \<lparr>ta_routes = [], ta_headers = [], ta_headersRgx = []\<rparr>;
          r = (if length (ta_headers acc) > 0
               then gm_put ''headers'' (rule (''Headers: '' @ join '', '' (ta_headers acc))) (ta_routes acc)
               else ta_routes acc)
      in if length (ta_headersRgx acc) > 0
         then gm_put ''headersRegexp'' (rule (''HeadersRegexp: '' @ join '', '' (ta_headersRgx acc))) r
         else r)"

section \<open>Construction\<close>

definition TraefikNew :: "'s keys_api \<Rightarrow> string \<Rightarrow> 's \<Rightarrow> 's" where
  "TraefikNew api pre s =
     (let s = snd (EtcdMkdir api (path_join [pre, ''frontends'']) s)
      in snd (EtcdMkdir api (path_join [pre, ''backends'']) s))"

definition TraefikNewFrontend :: "resource \<Rightarrow> err + t_frontend" where
  "TraefikNewFrontend rsc =
     Inr \<lparr>tf_Backend = r_id rsc, tf_Routes = TraefikNewRoute (r_route rsc),
          tf_PassHostHeader = (case Option.bind (GetAnnotation rsc PassHostHeaderKey) parse_bool of
                                 Some val \<Rightarrow> val | None \<Rightarrow> False),
          tf_id = r_id rsc, tf_middlewares = []\<rparr>"

definition TraefikNewBackend :: "resource \<Rightarrow> err + t_backend" where
  "TraefikNewBackend rsc =
     Inr \<lparr>tb_Servers = Some [],
          tb_CircuitBreaker = Some (case GetAnnotation rsc FailoverExpressionKey of
                                      Some expr \<Rightarrow> expr | None \<Rightarrow> defaultCircuitBreaker),
          tb_LoadBalancer = Some (case GetAnnotation rsc LoadbalancingMethodKey of
                                    Some lbm \<Rightarrow> if validLBM lbm then lbm else ''wrr'' | None \<Rightarrow> ''wrr''),
          tb_id = r_id rsc\<rparr>"

text \<open>As with vulcand, printing the URL of a server whose URL does not parse panics.\<close>

fun traefikServersLoop :: "go_env \<Rightarrow> kserver list \<Rightarrow> t_srv list go" where
  "traefikServersLoop env [] = Some []"
| "traefikServersLoop env (srv # srvs) =
     (case ServerURL env srv of
        None \<Rightarrow> None
      | Some u \<Rightarrow> do {
          rest \<leftarrow> traefikServersLoop env srvs;
          Some (\<lparr>tv_Server = \<lparr>ts_URL = u, ts_Weight = 1\<rparr>, tv_id = sv_id srv\<rparr> # rest)
        })"

definition TraefikNewServers :: "go_env \<Rightarrow> resource \<Rightarrow> (t_srv list \<times> err option) go" where
  "TraefikNewServers env rsc = map_option (\<lambda>l. (l, None)) (traefikServersLoop env (r_servers rsc))"

definition TraefikNewMiddlewares :: "resource \<Rightarrow> string list \<times> err option" where
  "TraefikNewMiddlewares rsc = ([], None)"

definition TraefikAddMiddleware :: "string iface \<Rightarrow> t_frontend \<Rightarrow> t_frontend go" where
  "TraefikAddMiddleware mid f =
     (case mid of Own m \<Rightarrow> Some (f\<lparr>tf_middlewares := tf_middlewares f @ [m]\<rparr>) | Foreign _ \<Rightarrow> None)"

text \<open>Assigning to a nil map panics, and so does a server of another provider.\<close>

definition TraefikAddServer :: "t_srv iface \<Rightarrow> t_backend \<Rightarrow> t_backend go" where
  "TraefikAddServer srv b =
     (case (srv, tb_Servers b) of
        (Own s, Some m) \<Rightarrow> Some (b\<lparr>tb_Servers := Some (gm_put (tv_id s) (tv_Server s) m)\<rparr>)
      | _ \<Rightarrow> None)"

section \<open>Writing\<close>

definition TraefikUpsertFrontend ::
  "'s keys_api \<Rightarrow> (string list \<Rightarrow> string list) \<Rightarrow> string \<Rightarrow> t_frontend iface \<Rightarrow> 's \<Rightarrow> err option \<times> 's" where
  "TraefikUpsertFrontend api rng prefix fr s =
     (case fr of
        Foreign _ \<Rightarrow> (Some (Err ''Not of expected type''), s)
      | Own f \<Rightarrow>
          (let pre = path_join [prefix, ''frontends'', tf_id f] in
           case EtcdSet api (path_join [pre, ''backend'']) (tf_Backend f) s of
             (Some er, s) \<Rightarrow> (Some (Err ''Upsert failed''), s)
           | (None, s) \<Rightarrow>
               (let s = (if tf_PassHostHeader f then snd (EtcdSet api (path_join [pre, ''passHostHeader'']) ''true'' s) else s)
                in (None, fold (\<lambda>e s. snd (EtcdSet api (path_join [pre, ''routes'', fst e, ''rule'']) (tr_Rule (snd e)) s))
                            (gm_range rng (tf_Routes f)) s))))"

definition setUnlessEmpty :: "'s keys_api \<Rightarrow> string \<Rightarrow> string option \<Rightarrow> 's \<Rightarrow> 's" where
  "setUnlessEmpty api key v s =
     (case v of Some x \<Rightarrow> if x \<noteq> [] then snd (EtcdSet api key x s) else s | None \<Rightarrow> s)"

definition writeServer :: "'s keys_api \<Rightarrow> string \<Rightarrow> string \<times> t_server \<Rightarrow> 's \<Rightarrow> 's" where
  "writeServer api pre e s =
     (let urlK = path_join [pre, ''servers'', fst e, ''url''];
          weightK = path_join [pre, ''servers'', fst e, ''weight''];
          s = snd (EtcdSet api urlK (ts_URL (snd e)) s)
      in snd (EtcdSet api weightK (itoa (ts_Weight (snd e))) s))"

definition TraefikUpsertBackend ::
  "'s keys_api \<Rightarrow> (string list \<Rightarrow> string list) \<Rightarrow> string \<Rightarrow> t_backend iface \<Rightarrow> 's \<Rightarrow> err option \<times> 's" where
  "TraefikUpsertBackend api rng prefix ba s =
     (case ba of
        Foreign _ \<Rightarrow> (Some (Err ''Not of expected type''), s)
      | Own b \<Rightarrow>
          (let pre = path_join [prefix, ''backends'', tb_id b];
               s = setUnlessEmpty api (path_join [pre, ''circuitbreaker'']) (tb_CircuitBreaker b) s;
               s = setUnlessEmpty api (path_join [pre, ''loadbalancer'']) (tb_LoadBalancer b) s
           in (None, fold (writeServer api pre) (gm_range rng (case tb_Servers b of Some m \<Rightarrow> m | None \<Rightarrow> [])) s)))"

definition TraefikDeleteFrontend :: "'s keys_api \<Rightarrow> string \<Rightarrow> t_frontend iface \<Rightarrow> 's \<Rightarrow> err option \<times> 's" where
  "TraefikDeleteFrontend api prefix fr s = EtcdDelete api (path_join [prefix, ''frontends'', iface_GetID tf_id fr]) s"

definition TraefikDeleteBackend :: "'s keys_api \<Rightarrow> string \<Rightarrow> t_backend iface \<Rightarrow> 's \<Rightarrow> err option \<times> 's" where
  "TraefikDeleteBackend api prefix ba s = EtcdDelete api (path_join [prefix, ''backends'', iface_GetID tb_id ba]) s"

definition TraefikUpsertServer ::
  "'s keys_api \<Rightarrow> string \<Rightarrow> t_backend iface \<Rightarrow> t_srv iface \<Rightarrow> 's \<Rightarrow> (err option \<times> 's) go" where
  "TraefikUpsertServer api prefix ba srv s =
     (let bid = iface_GetID tb_id ba;
          sid = iface_GetID tv_id srv in
      case EtcdExists api (path_join [prefix, ''backends'', bid]) s of
        (Some er, s) \<Rightarrow> Some (Some (Err ''Lookup failed''), s)
      | (None, s) \<Rightarrow>
          (case srv of
             Foreign _ \<Rightarrow> None
           | Own x \<Rightarrow>
               Some (case EtcdSet api (path_join [prefix, ''backends'', bid, ''servers'', sid, ''url'']) (ts_URL (tv_Server x)) s of
                       (Some er, s) \<Rightarrow> (Some er, s)
                     | (None, s) \<Rightarrow> EtcdSet api (path_join [prefix, ''backends'', bid, ''servers'', sid, ''weight''])
                                      (itoa (ts_Weight (tv_Server x))) s)))"

definition TraefikDeleteServer ::
  "'s keys_api \<Rightarrow> string \<Rightarrow> t_backend iface \<Rightarrow> t_srv iface \<Rightarrow> 's \<Rightarrow> err option \<times> 's" where
  "TraefikDeleteServer api prefix ba srv s =
     (let key = path_join [prefix, ''backends'', iface_GetID tb_id ba, ''servers'', iface_GetID tv_id srv] in
      case EtcdExists api key s of
        (Some er, s) \<Rightarrow> (Some (Err ''Lookup failed''), s)
      | (None, s) \<Rightarrow> EtcdDelete api key s)"

section \<open>Reading back\<close>

text \<open>One round of the loops over the servers: nothing when a key is skipped or cannot be read.\<close>

definition readServer :: "'s keys_api \<Rightarrow> string \<Rightarrow> 's \<Rightarrow> (string \<times> t_server) option \<times> 's" where
  "readServer api server s =
     (let srvID = path_base server in
      if srvID = ''.'' \<or> srvID = ''/'' then (None, s)
      else
        (case EtcdGet api (path_join [server, ''url'']) s of
           (Inl er, s) \<Rightarrow> (None, s)
         | (Inr u, s) \<Rightarrow>
             (case EtcdGet api (path_join [server, ''weight'']) s of
                (Inl er, s) \<Rightarrow> (None, s)
              | (Inr w, s) \<Rightarrow> (Some (srvID, \<lparr>ts_URL = u, ts_Weight = fst (atoi w)\<rparr>), s))))"

fun readAll :: "('k \<Rightarrow> 's \<Rightarrow> 'a option \<times> 's) \<Rightarrow> 'k list \<Rightarrow> 's \<Rightarrow> 'a list \<times> 's" where
  "readAll f [] s = ([], s)"
| "readAll f (k # ks) s =
     (let (x, s) = f k s; (xs, s) = readAll f ks s
      in (case x of Some a \<Rightarrow> a # xs | None \<Rightarrow> xs, s))"

definition getBackend :: "'s keys_api \<Rightarrow> string \<Rightarrow> string \<Rightarrow> 's \<Rightarrow> (err + t_backend) \<times> 's" where
  "getBackend api prefix i s =
     (let kp = path_join [prefix, ''backends'', i];
          nonEmpty = (\<lambda>x. if x \<noteq> [] then Some x else None) in
      case EtcdGet api (path_join [kp, ''loadbalancer'', ''method'']) s of
        (Inl er, s) \<Rightarrow> (Inl er, s)
      | (Inr lb, s) \<Rightarrow>
          (case EtcdGet api (path_join [kp, ''circuitbreaker'', ''expression'']) s of
             (Inl er, s) \<Rightarrow> (Inl er, s)
           | (Inr cb, s) \<Rightarrow>
               (let b = \<lparr>tb_Servers = None, tb_CircuitBreaker = nonEmpty cb, tb_LoadBalancer = nonEmpty lb, tb_id = i\<rparr> in
                case EtcdKeys api (path_join [kp, ''servers'']) s of
                  (Inl er, s) \<Rightarrow> (Inr b, s)
                | (Inr servers, s) \<Rightarrow>
                    (let (l, s) = readAll (readServer api) servers s
                     in (Inr (b\<lparr>tb_Servers := Some (fold (\<lambda>e. gm_put (fst e) (snd e)) l [])\<rparr>), s)))))"

definition readRoute :: "'s keys_api \<Rightarrow> string \<Rightarrow> string \<Rightarrow> 's \<Rightarrow> (string \<times> t_route) option \<times> 's" where
  "readRoute api i route s =
     (if i = ''.'' \<or> i = ''/'' then (None, s)
      else
        (case EtcdGet api (path_join [route, ''rule'']) s of
           (Inl er, s) \<Rightarrow> (None, s)
         | (Inr r, s) \<Rightarrow>
             (case EtcdGet api (path_join [route, ''value'']) s of
                (Inl er, s) \<Rightarrow> (None, s)
              | (Inr v, s) \<Rightarrow> (Some (path_base route, rule (r @ '': '' @ v)), s))))"

definition getFrontend :: "'s keys_api \<Rightarrow> string \<Rightarrow> string \<Rightarrow> 's \<Rightarrow> (err + t_frontend) \<times> 's" where
  "getFrontend api prefix i s =
     (let kp = path_join [prefix, ''frontends'', i] in
      case EtcdGet api (path_join [kp, ''backend'']) s of
        (Inl er, s) \<Rightarrow> (Inl (Err ''Key read error''), s)
      | (Inr bnd, s) \<Rightarrow>
          (case EtcdGet api (path_join [kp, ''passHostHeader'']) s of
             (Inl er, s) \<Rightarrow> (Inl (Err ''Key read error''), s)
           | (Inr pas, s) \<Rightarrow>
               (let f = \<lparr>tf_Backend = bnd, tf_Routes = [],
                         tf_PassHostHeader = (case parse_bool pas of Some b \<Rightarrow> b | None \<Rightarrow> False),
                         tf_id = i, tf_middlewares = []\<rparr> in
                case EtcdKeys api (path_join [kp, ''routes'']) s of
                  (Inl er, s) \<Rightarrow> (Inr f, s)
                | (Inr routes, s) \<Rightarrow>
                    (let (l, s) = readAll (readRoute api i) routes s
                     in (Inr (f\<lparr>tf_Routes := fold (\<lambda>e. gm_put (fst e) (snd e)) l []\<rparr>), s)))))"

definition getServers :: "'s keys_api \<Rightarrow> string \<Rightarrow> string \<Rightarrow> 's \<Rightarrow> t_srv list \<times> 's" where
  "getServers api prefix i s =
     (let kp = path_join [prefix, ''backends'', i] in
      case EtcdKeys api (path_join [kp, ''servers'']) s of
        (Inl er, s) \<Rightarrow> ([], s)
      | (Inr servers, s) \<Rightarrow>
          apfst (map (\<lambda>e. \<lparr>tv_Server = snd e, tv_id = fst e\<rparr>)) (readAll (readServer api) servers s))"

definition traefik_ops ::
  "go_env \<Rightarrow> string \<Rightarrow> 's keys_api \<Rightarrow> ('s, t_frontend, t_backend, t_srv, string) lb_ops" where
  "traefik_ops env prefix api =
     \<lparr>lb_NewFrontend = TraefikNewFrontend,
      lb_UpsertFrontend = (\<lambda>f. TraefikUpsertFrontend api (env_range env) prefix (Own f)),
      lb_DeleteFrontend = (\<lambda>f. TraefikDeleteFrontend api prefix (Own f)),
      lb_NewBackend = TraefikNewBackend,
      lb_UpsertBackend = (\<lambda>b. TraefikUpsertBackend api (env_range env) prefix (Own b)),
      lb_DeleteBackend = (\<lambda>b. TraefikDeleteBackend api prefix (Own b)),
      lb_NewServers = TraefikNewServers env, lb_NewMiddlewares = TraefikNewMiddlewares,
      lb_AddServer = (\<lambda>s. TraefikAddServer (Own s)), lb_AddMiddleware = (\<lambda>m. TraefikAddMiddleware (Own m)),
      lb_Kind = ''traefik'', lb_Status = EtcdExists api ''/''\<rparr>"

end
