(* ===== verification/Traefik_Etcd.thy ===== *)
theory Traefik_Etcd
  imports Traefik "HOL-Library.AList"
begin

text \<open>
  What the traefik provider leaves in etcd and what it finds there again. An upsert is a list of
  writes (\<open>backendWrites\<close>); the properties are stated for any etcd that behaves as documented
  (\<open>etcd_ok\<close>), and a small tree of keys shows that such a server exists.
\<close>

section \<open>Keys\<close>

definition key :: "string list \<Rightarrow> string" where
  "key es = CHR ''/'' # join ''/'' es"

definition clean :: "string list \<Rightarrow> bool" where
  "clean es \<longleftrightarrow> es \<noteq> [] \<and> list_all path_elem es"

lemma join_Cons: "es \<noteq> [] \<Longrightarrow> join sep (e # es) = e @ sep @ join sep es"
  by (cases es) auto

lemma path_join_key:
  assumes "clean es" and "list_all path_elem fs"
  shows "path_join (key es # fs) = key (es @ fs)"
proof -
  have es: "es \<noteq> []" "\<forall>e \<in> set es. path_elem e" and fs: "\<forall>e \<in> set fs. path_elem e"
    using assms by (auto simp: clean_def list_all_iff)
  have "join ''/'' (key es # fs) = CHR ''/'' # join ''/'' (es @ fs)"
    using es(1) by (cases "fs = []") (auto simp: key_def join_Cons join_append)
  moreover have "split_on CHR ''/'' (CHR ''/'' # join ''/'' (es @ fs)) = [] # es @ fs"
    using split_on_join [of "es @ fs" "CHR ''/''"] es fs by (auto simp: split_on_def path_elem_def)
  moreover have "fold (clean_step True) (es @ fs) [] = rev (es @ fs)"
    using fold_clean_step [of "es @ fs" True "[]"] es fs by auto
  ultimately show ?thesis using es by (simp add: path_join_def path_clean_def key_def)
qed

lemma key_inject: "clean es \<Longrightarrow> clean fs \<Longrightarrow> key es = key fs \<longleftrightarrow> es = fs"
  using join_slash_inject [of es fs] by (auto simp: key_def clean_def list_all_iff)

lemma key_below: "es \<noteq> [] \<Longrightarrow> key (es @ [e]) = key es @ ''/'' @ e"
  by (simp add: key_def join_snoc)

lemma path_elems [simp]:
  "path_elem ''frontends''" "path_elem ''backends''" "path_elem ''backend''" "path_elem ''servers''" "path_elem ''url''"
  "path_elem ''weight''" "path_elem ''circuitbreaker''" "path_elem ''loadbalancer''" "path_elem ''method''"
  "path_elem ''expression''" "path_elem ''traefik''" "path_elem ''routes''" "path_elem ''rule''"
  by (simp_all add: path_elem_def)

section \<open>An upsert as a list of writes\<close>

definition backendWrites :: "(string list \<Rightarrow> string list) \<Rightarrow> string \<Rightarrow> t_backend \<Rightarrow> (string \<times> string) list" where
  "backendWrites rng prefix b =
     (let pre = path_join [prefix, ''backends'', tb_id b];
          set = (\<lambda>k v. case v of Some x \<Rightarrow> if x \<noteq> [] then [(path_join [pre, k], x)] else [] | None \<Rightarrow> []) in
      set ''circuitbreaker'' (tb_CircuitBreaker b) @ set ''loadbalancer'' (tb_LoadBalancer b) @
      concat (map (\<lambda>(i, srv). [(path_join [pre, ''servers'', i, ''url''], ts_URL srv),
                               (path_join [pre, ''servers'', i, ''weight''], itoa (ts_Weight srv))])
        (gm_range rng (case tb_Servers b of Some m \<Rightarrow> m | None \<Rightarrow> []))))"

definition writeAll :: "'s keys_api \<Rightarrow> (string \<times> string) list \<Rightarrow> 's \<Rightarrow> 's" where
  "writeAll api = fold (\<lambda>(k, v) s. snd (EtcdSet api k v s))"

lemma writeAll_simps [simp]:
  "writeAll api [] s = s"
  "writeAll api ((k, v) # ws) s = writeAll api ws (snd (EtcdSet api k v s))"
  "writeAll api (ws @ us) s = writeAll api us (writeAll api ws s)"
  by (simp_all add: writeAll_def)

lemma writeAll_servers:
  "fold (writeServer api pre) es s =
     writeAll api (concat (map (\<lambda>(i, srv). [(path_join [pre, ''servers'', i, ''url''], ts_URL srv),
        (path_join [pre, ''servers'', i, ''weight''], itoa (ts_Weight srv))]) es)) s"
  by (induction es arbitrary: s) (auto simp: writeServer_def Let_def)

lemma TraefikUpsertBackend_writes:
  "TraefikUpsertBackend api rng prefix (Own b) s = (None, writeAll api (backendWrites rng prefix b) s)"
  by (simp add: TraefikUpsertBackend_def backendWrites_def Let_def writeAll_servers setUnlessEmpty_def split: option.split)

text \<open>All writes succeed, one after the other.\<close>

fun writesOk :: "'s keys_api \<Rightarrow> (string \<times> string) list \<Rightarrow> 's \<Rightarrow> bool" where
  "writesOk api [] s = True"
| "writesOk api ((k, v) # ws) s = (fst (EtcdSet api k v s) = None \<and> writesOk api ws (snd (EtcdSet api k v s)))"

lemma writeAll_val:
  assumes "etcd_ok api val" and "writesOk api ws s"
  shows "val (writeAll api ws s) = val s ++ map_of (rev ws)"
  using assms(2)
proof (induction ws arbitrary: s)
  case (Cons w ws)
  obtain k v where w: "w = (k, v)" by fastforce
  from Cons.prems have "val (snd (EtcdSet api k v s)) = (val s)(k \<mapsto> v)"
    using etcd_ok_Set(1) [OF assms(1)] by (simp add: w prod_eq_iff)
  then show ?case using Cons by (simp add: w del: fun_upd_apply)
qed simp

lemma writeAll_frame:
  assumes "etcd_ok api val" and "j \<notin> fst ` set ws"
  shows "val (writeAll api ws s) j = val s j"
  using assms(2) by (induction ws arbitrary: s) (auto simp: etcd_ok_Set(2) [OF assms(1)])

lemma map_of_unique: "(k, v) \<in> set ws \<Longrightarrow> (\<And>v'. (k, v') \<in> set ws \<Longrightarrow> v' = v) \<Longrightarrow> map_of ws k = Some v"
  by (metis map_of_SomeD map_of_eq_None_iff fst_conv image_eqI not_None_eq)

text \<open>The keys an upsert writes, for clean names.\<close>

lemma set_backendWrites:
  assumes "path_elem p" and "path_elem (tb_id b)" and "tb_Servers b = Some m" and "gm_wf m" and "range_ok rng"
    and "list_all (path_elem \<circ> fst) m"
  shows "set (backendWrites rng (CHR ''/'' # p) b) =
     {(key [p, ''backends'', tb_id b, ''circuitbreaker''], x) |x. tb_CircuitBreaker b = Some x \<and> x \<noteq> []} \<union>
     {(key [p, ''backends'', tb_id b, ''loadbalancer''], x) |x. tb_LoadBalancer b = Some x \<and> x \<noteq> []} \<union>
     {(key [p, ''backends'', tb_id b, ''servers'', i, ''url''], ts_URL srv) |i srv. (i, srv) \<in> set m} \<union>
     {(key [p, ''backends'', tb_id b, ''servers'', i, ''weight''], itoa (ts_Weight srv)) |i srv. (i, srv) \<in> set m}"
proof -
  have pre: "path_join [CHR ''/'' # p, ''backends'', tb_id b] = key [p, ''backends'', tb_id b]"
    using path_join_key [of "[p]" "[''backends'', tb_id b]"] assms(1,2) by (simp add: clean_def key_def)
  have sub: "path_join (key [p, ''backends'', tb_id b] # fs) = key (p # ''backends'' # tb_id b # fs)"
    if "list_all path_elem fs" for fs
    using path_join_key [of "[p, ''backends'', tb_id b]" fs] assms(1,2) that by (simp add: clean_def)
  have elems: "path_elem i" if "(i, srv) \<in> set (gm_range rng m)" for i srv
    using that assms(6) set_gm_range [OF assms(4,5)] by (auto simp: list_all_iff)
  show ?thesis
    unfolding backendWrites_def Let_def pre
    using set_gm_range [OF assms(4,5)] elems
    by (auto simp: sub assms(3) split: option.splits if_splits)
qed


text \<open>The value of a key below the directory of a backend, by its path.\<close>

fun backendEntry :: "t_backend \<Rightarrow> (string, t_server) gomap \<Rightarrow> string list \<Rightarrow> string option" where
  "backendEntry b m [c] =
     (if c = ''circuitbreaker'' then tb_CircuitBreaker b else if c = ''loadbalancer'' then tb_LoadBalancer b else None)"
| "backendEntry b m [c, i, d] =
     (if c \<noteq> ''servers'' then None
      else if d = ''url'' then map_option ts_URL (gm_get m i)
      else if d = ''weight'' then map_option (itoa \<circ> ts_Weight) (gm_get m i) else None)"
| "backendEntry b m _ = None"

lemma backendWrites_entry:
  assumes "path_elem p" and "path_elem (tb_id b)" and "tb_Servers b = Some m" and "gm_wf m" and "range_ok rng"
    and "list_all (path_elem \<circ> fst) m"
    and "(k, v) \<in> set (backendWrites rng (CHR ''/'' # p) b)"
  shows "\<exists>es. k = key (p # ''backends'' # tb_id b # es) \<and> list_all path_elem es \<and> backendEntry b m es = Some v"
proof -
  have srv: "gm_get m i = Some srv" "path_elem i" if "(i, srv) \<in> set m" for i srv
    using that gm_wf_distinct [OF assms(4)] assms(6) by (auto simp: map_of_is_SomeI list_all_iff)
  from assms(7) [unfolded set_backendWrites [OF assms(1-6)]]
  consider (cb) "k = key [p, ''backends'', tb_id b, ''circuitbreaker'']" "tb_CircuitBreaker b = Some v"
    | (lb) "k = key [p, ''backends'', tb_id b, ''loadbalancer'']" "tb_LoadBalancer b = Some v"
    | (url) i x where "k = key [p, ''backends'', tb_id b, ''servers'', i, ''url'']" "v = ts_URL x" "(i, x) \<in> set m"
    | (weight) i x where "k = key [p, ''backends'', tb_id b, ''servers'', i, ''weight'']" "v = itoa (ts_Weight x)" "(i, x) \<in> set m"
    by blast
  then show ?thesis
  proof cases
    case cb
    then show ?thesis by (intro exI [of _ "[''circuitbreaker'']"]) simp
  next
    case lb
    then show ?thesis by (intro exI [of _ "[''loadbalancer'']"]) simp
  next
    case url
    then show ?thesis using srv by (intro exI [of _ "[''servers'', i, ''url'']"]) simp
  next
    case weight
    then show ?thesis using srv by (intro exI [of _ "[''servers'', i, ''weight'']"]) simp
  qed
qed

lemma backendWrites_unique:
  assumes "path_elem p" and "path_elem (tb_id b)" and "tb_Servers b = Some m" and "gm_wf m" and "range_ok rng"
    and "list_all (path_elem \<circ> fst) m"
    and "(k, v) \<in> set (backendWrites rng (CHR ''/'' # p) b)" and "(k, v') \<in> set (backendWrites rng (CHR ''/'' # p) b)"
  shows "v = v'"
proof -
  obtain es fs where k: "k = key (p # ''backends'' # tb_id b # es)" "k = key (p # ''backends'' # tb_id b # fs)"
      and clean: "list_all path_elem es" "list_all path_elem fs"
      and v: "backendEntry b m es = Some v" "backendEntry b m fs = Some v'"
    using backendWrites_entry [OF assms(1-6)] assms(7,8) by metis
  have "es = fs"
    using key_inject [of "p # ''backends'' # tb_id b # es" "p # ''backends'' # tb_id b # fs"] k clean assms(1,2)
    by (simp add: clean_def)
  with v show ?thesis by simp
qed

lemma backendWrites_stored:
  assumes "etcd_ok api val" and "path_elem p" and "path_elem (tb_id b)" and "tb_Servers b = Some m" and "gm_wf m"
    and "range_ok rng" and "list_all (path_elem \<circ> fst) m"
    and "writesOk api (backendWrites rng (CHR ''/'' # p) b) s" and "(j, v) \<in> set (backendWrites rng (CHR ''/'' # p) b)"
  shows "val (writeAll api (backendWrites rng (CHR ''/'' # p) b) s) j = Some v"
proof -
  let ?ws = "backendWrites rng (CHR ''/'' # p) b"
  have "map_of (rev ?ws) j = Some v"
  proof (rule map_of_unique)
    show "v' = v" if "(j, v') \<in> set (rev ?ws)" for v'
      using backendWrites_unique [OF assms(2-7)] assms(9) that unfolding set_rev by blast
  qed (use assms(9) in simp)
  then show ?thesis using writeAll_val [OF assms(1,8)] by (simp add: map_add_def)
qed

section \<open>A tree of keys\<close>

text \<open>A small etcd: leaves with their values; a leaf has nothing below it, a directory is what has leaves below.\<close>

definition below_leaf :: "(string \<times> string) list \<Rightarrow> string \<Rightarrow> bool" where
  "below_leaf t k \<longleftrightarrow> list_ex (\<lambda>(l, v). has_prefix k (l @ ''/'')) t"

definition tree_val :: "(string \<times> string) list \<Rightarrow> string \<rightharpoonup> string" where
  "tree_val t k = (if below_leaf t k then None else map_of t k)"

definition tree_dir :: "(string \<times> string) list \<Rightarrow> string \<Rightarrow> (string \<times> string) list" where
  "tree_dir t k =
     remdups (List.map_filter (\<lambda>(l, v). if has_prefix l (k @ ''/'')
        then (let rest = drop (length k + 1) l; c = takeWhile (\<lambda>c. c \<noteq> CHR ''/'') rest
              in Some (k @ ''/'' @ c, if c = rest then v else [])) else None) t)"

definition tree_api :: "(string \<times> string) list keys_api" where
  "tree_api =
     \<lparr>ka_Get = (\<lambda>k t. ((case tree_val t k of
          Some v \<Rightarrow> Inr (Some \<lparr>nd_Value = v, nd_Dir = False, nd_Nodes = []\<rparr>)
        | None \<Rightarrow> if below_leaf t k \<or> tree_dir t k = [] then Inl (NotFound ''Key not found'')
                  else Inr (Some \<lparr>nd_Value = [], nd_Dir = True, nd_Nodes = tree_dir t k\<rparr>)), t)),
      ka_Set = (\<lambda>k v prev dir t.
          if dir then (None, t)
          else if below_leaf t k then (Some (Remote ''Not a directory''), t)
          else if tree_dir t k \<noteq> [] then (Some (Remote ''Not a file''), t)
          else (None, AList.update k v t)),
      ka_Delete = (\<lambda>k rec t. (None, filter (\<lambda>(l, v). l \<noteq> k \<and> \<not> has_prefix l (k @ ''/'')) t))\<rparr>"

lemma below_leaf_update:
  "below_leaf (AList.update k v t) j \<longleftrightarrow> below_leaf t j \<or> has_prefix j (k @ ''/'')"
proof -
  have "below_leaf u j \<longleftrightarrow> (\<exists>l \<in> fst ` set u. has_prefix j (l @ ''/''))" for u
    by (force simp: below_leaf_def list_ex_iff split: prod.splits)
  then show ?thesis by (simp only: AList.dom_update) blast
qed

lemma tree_dir_empty:
  assumes "tree_dir t k = []" and "has_prefix j (k @ ''/'')"
  shows "map_of t j = None"
proof (rule ccontr)
  assume "map_of t j \<noteq> None"
  then obtain v where "(j, v) \<in> set t" by (meson map_of_SomeD not_None_eq)
  then have "tree_dir t k \<noteq> []"
    using assms(2) by (force simp: tree_dir_def List.map_filter_def filter_empty_conv Let_def split: if_splits)
  with assms(1) show False by simp
qed

lemma etcd_ok_tree: "etcd_ok tree_api tree_val"
  unfolding etcd_ok_def
proof (intro conjI allI impI)
  fix k v t t'
  assume set: "ka_Set tree_api k v PrevIgnore False t = (None, t')"
  then have t': "t' = AList.update k v t" and "\<not> below_leaf t k" and "tree_dir t k = []"
    by (auto simp: tree_api_def split: if_splits)
  moreover have "\<not> has_prefix k (k @ ''/'')" by (simp add: has_prefix_iff)
  ultimately show "tree_val t' = (tree_val t)(k \<mapsto> v)"
    using tree_dir_empty [of t k]
    by (auto simp: tree_val_def fun_eq_iff below_leaf_update update_conv)
qed (auto simp: tree_api_def tree_val_def below_leaf_def list_ex_iff has_prefix_iff
    dest: map_of_SomeD split: if_splits option.splits)

section \<open>Properties\<close>

text \<open>
  C32: an upsert of a backend writes the backend. When every single write succeeds, the keys of
  the circuit breaker and of the balancing method and the keys of the URL and the weight of each
  server hold the values of the object, whatever the order of the loop over the servers; every
  other key is as before. (So the keys of servers the backend no longer has stay as well.)
\<close>

theorem traefik_upsert_backend_writes:
  assumes "etcd_ok api val" and "path_elem p" and "path_elem (tb_id b)" and "tb_Servers b = Some m" and "gm_wf m"
    and "range_ok rng" and "list_all (path_elem \<circ> fst) m"
    and "writesOk api (backendWrites rng (CHR ''/'' # p) b) s"
    and "TraefikUpsertBackend api rng (CHR ''/'' # p) (Own b) s = (er, s')"
  shows "er = None \<and>
     (gm_get m i = Some srv \<longrightarrow>
        val s' (key [p, ''backends'', tb_id b, ''servers'', i, ''url'']) = Some (ts_URL srv) \<and>
        val s' (key [p, ''backends'', tb_id b, ''servers'', i, ''weight'']) = Some (itoa (ts_Weight srv))) \<and>
     (tb_LoadBalancer b = Some lb \<and> lb \<noteq> [] \<longrightarrow> val s' (key [p, ''backends'', tb_id b, ''loadbalancer'']) = Some lb) \<and>
     (tb_CircuitBreaker b = Some cb \<and> cb \<noteq> [] \<longrightarrow> val s' (key [p, ''backends'', tb_id b, ''circuitbreaker'']) = Some cb) \<and>
     (k \<notin> fst ` set (backendWrites rng (CHR ''/'' # p) b) \<longrightarrow> val s' k = val s k)"
proof -
  let ?ws = "backendWrites rng (CHR ''/'' # p) b"
  note ws = set_backendWrites [OF assms(2-7)]
  have run: "er = None" "s' = writeAll api ?ws s"
    using assms(9) by (simp_all add: TraefikUpsertBackend_writes)
  have written: "val s' j = Some v" if "(j, v) \<in> set ?ws" for j v
    using backendWrites_stored [OF assms(1-8) that] by (simp add: run)
  have frame: "val s' j = val s j" if "j \<notin> fst ` set ?ws" for j
    using writeAll_frame [OF assms(1) that] by (simp add: run)
  have url: "(key [p, ''backends'', tb_id b, ''servers'', i, ''url''], ts_URL srv) \<in> set ?ws"
      and weight: "(key [p, ''backends'', tb_id b, ''servers'', i, ''weight''], itoa (ts_Weight srv)) \<in> set ?ws"
    if "gm_get m i = Some srv"
    using map_of_SomeD [OF that] unfolding ws by blast+
  have lb: "(key [p, ''backends'', tb_id b, ''loadbalancer''], lb) \<in> set ?ws" if "tb_LoadBalancer b = Some lb \<and> lb \<noteq> []"
    using that unfolding ws by blast
  have cb: "(key [p, ''backends'', tb_id b, ''circuitbreaker''], cb) \<in> set ?ws" if "tb_CircuitBreaker b = Some cb \<and> cb \<noteq> []"
    using that unfolding ws by blast
  show ?thesis
    using run(1) frame [of k] written [OF url] written [OF weight] written [OF lb] written [OF cb] by simp
qed

definition sample_tbackend :: t_backend where
  "sample_tbackend = \<lparr>tb_Servers = Some [(''a'', \<lparr>ts_URL = ''http://10.0.0.1:80'', ts_Weight = 1\<rparr>)],
     tb_CircuitBreaker = Some ''NetworkErrorRatio() > 0.6'', tb_LoadBalancer = Some ''wrr'', tb_id = ''test.bar.web''\<rparr>"

definition sample_stale :: "(string \<times> string) list" where
  "sample_stale = [(''/traefik/backends/test.bar.web/servers/b/url'', ''http://10.0.0.2:80'')]"

lemma sample_tbackend_sel [simp]:
  "tb_Servers sample_tbackend = Some [(''a'', \<lparr>ts_URL = ''http://10.0.0.1:80'', ts_Weight = 1\<rparr>)]"
  "tb_id sample_tbackend = ''test.bar.web''" "tb_LoadBalancer sample_tbackend = Some ''wrr''"
  "path_elem ''test.bar.web''" "path_elem ''a''"
  by (simp_all add: sample_tbackend_def path_elem_def)

lemma sample_writes:
  "writesOk tree_api (backendWrites (\<lambda>ks. ks) ''/traefik'' sample_tbackend) sample_stale"
  by code_simp

theorem traefik_upsert_backend_writes_witness:
  "let s' = snd (TraefikUpsertBackend tree_api (\<lambda>ks. ks) ''/traefik'' (Own sample_tbackend) sample_stale)
   in tree_val s' ''/traefik/backends/test.bar.web/servers/a/url'' = Some ''http://10.0.0.1:80'' \<and>
      tree_val s' ''/traefik/backends/test.bar.web/servers/b/url'' = Some ''http://10.0.0.2:80''"
proof -
  let ?m = "[(''a'', \<lparr>ts_URL = ''http://10.0.0.1:80'', ts_Weight = 1\<rparr>)]"
  let ?run = "TraefikUpsertBackend tree_api (\<lambda>ks. ks) ''/traefik'' (Own sample_tbackend) sample_stale"
  have run: "?run = (fst ?run, snd ?run)" by simp
  have wf: "gm_wf ?m" "list_all (path_elem \<circ> fst) ?m" by (simp_all add: gm_wf_def)
  have new: "''/traefik/backends/test.bar.web/servers/b/url'' \<notin>
      fst ` set (backendWrites (\<lambda>ks. ks) ''/traefik'' sample_tbackend)" by code_simp
  have "tree_val sample_stale ''/traefik/backends/test.bar.web/servers/b/url'' = Some ''http://10.0.0.2:80''" by code_simp
  with traefik_upsert_backend_writes [OF etcd_ok_tree _ _ sample_tbackend_sel(1) wf(1) range_ok_id wf(2) sample_writes run,
      of "''a''" "\<lparr>ts_URL = ''http://10.0.0.1:80'', ts_Weight = 1\<rparr>"] new
  show ?thesis by (simp add: Let_def key_def)
qed

text \<open>
  An upsert of a backend reports success when all its writes fail. Each failure is logged
  and dropped: the caller sees no error and does not try again, and etcd is as before.
\<close>

lemma traefik_upsert_backend_swallows_errors:
  assumes "\<And>k v. EtcdSet api k v s = (Some e, s)"
  shows "TraefikUpsertBackend api rng prefix (Own b) s = (None, s)"
proof -
  have "writeAll api ws s = s" for ws by (induction ws) (auto simp: assms)
  then show ?thesis by (simp add: TraefikUpsertBackend_writes)
qed

text \<open>
  C39: what is written cannot be read back. After an upsert of a backend with a balancing method
  whose writes all succeed, looking the backend up fails: the method was written as a leaf, and
  the look-up asks for a key below it. And the list of its servers is empty: of the directories
  below \<^verbatim>\<open>servers\<close> the client collects the values, and a directory has none.
\<close>

theorem traefik_not_read_back:
  assumes "etcd_ok api val" and "path_elem p" and "path_elem (tb_id b)" and "tb_Servers b = Some m" and "gm_wf m"
    and "range_ok rng" and "list_all (path_elem \<circ> fst) m"
    and "writesOk api (backendWrites rng (CHR ''/'' # p) b) s" and "tb_LoadBalancer b = Some lb" and "lb \<noteq> []"
    and "TraefikUpsertBackend api rng (CHR ''/'' # p) (Own b) s = (er, s')"
    and "\<And>n. ka_Get api (key [p, ''backends'', tb_id b, ''servers'']) s' = (Inr (Some n), s') \<Longrightarrow>
       list_all (\<lambda>c. snd c = []) (nd_Nodes n)"
  shows "(\<exists>e. getBackend api (CHR ''/'' # p) (tb_id b) s' = (Inl e, s')) \<and>
     getServers api (CHR ''/'' # p) (tb_id b) s' = ([], s')"
proof -
  let ?pre = "[p, ''backends'', tb_id b]"
  have pre: "path_join [CHR ''/'' # p, ''backends'', tb_id b] = key ?pre"
    using path_join_key [of "[p]" "[''backends'', tb_id b]"] assms(2,3) by (simp add: clean_def key_def)
  have sub: "path_join (key ?pre # fs) = key (?pre @ fs)" if "list_all path_elem fs" for fs
    using path_join_key [of ?pre fs] assms(2,3) that by (simp add: clean_def)
  have "(key (?pre @ [''loadbalancer'']), lb) \<in> set (backendWrites rng (CHR ''/'' # p) b)"
    unfolding set_backendWrites [OF assms(2-7)] using assms(9,10) by simp
  then have "val s' (key (?pre @ [''loadbalancer''])) \<noteq> None"
    using backendWrites_stored [OF assms(1-8)] assms(11) by (simp add: TraefikUpsertBackend_writes)
  then obtain e where "EtcdGet api (key ((?pre @ [''loadbalancer'']) @ [''method''])) s' = (Inl e, s')"
    using etcd_ok_Get(2) [OF assms(1), of s' "key (?pre @ [''loadbalancer''])" "''method''"]
      key_below [of "?pre @ [''loadbalancer'']" "''method''"] by auto
  then have "getBackend api (CHR ''/'' # p) (tb_id b) s' = (Inl e, s')"
    by (simp add: getBackend_def pre sub Let_def)
  moreover have "getServers api (CHR ''/'' # p) (tb_id b) s' = ([], s')"
  proof -
    have same: "snd (ka_Get api k s') = s'" for k using assms(1) by (simp add: etcd_ok_def)
    have skip: "readAll (readServer api) l s' = ([], s')" if "list_all (\<lambda>v. v = []) l" for l
      using that by (induction l) (simp_all add: readServer_def path_base_def)
    obtain r where "ka_Get api (key (?pre @ [''servers''])) s' = (r, s')"
      using same [of "key (?pre @ [''servers''])"] by (metis prod.collapse)
    then show ?thesis
      using assms(12) skip
      by (auto simp: getServers_def pre sub Let_def EtcdKeys_def extractKeys_def list_all_iff split: sum.split option.split)
  qed
  ultimately show ?thesis by blast
qed

theorem traefik_not_read_back_witness:
  "let s' = snd (TraefikUpsertBackend tree_api (\<lambda>ks. ks) ''/traefik'' (Own sample_tbackend) sample_stale)
   in getServers tree_api ''/traefik'' ''test.bar.web'' s' = ([], s') \<and>
      (\<exists>e. getBackend tree_api ''/traefik'' ''test.bar.web'' s' = (Inl e, s'))"
proof -
  let ?m = "[(''a'', \<lparr>ts_URL = ''http://10.0.0.1:80'', ts_Weight = 1\<rparr>)]"
  let ?run = "TraefikUpsertBackend tree_api (\<lambda>ks. ks) ''/traefik'' (Own sample_tbackend) sample_stale"
  have run: "?run = (fst ?run, snd ?run)" by simp
  have wf: "gm_wf ?m" "list_all (path_elem \<circ> fst) ?m" by (simp_all add: gm_wf_def)
  have dirs: "list_all (\<lambda>c. snd c = []) (nd_Nodes n)"
    if "ka_Get tree_api (key [''traefik'', ''backends'', tb_id sample_tbackend, ''servers'']) (snd ?run) = (Inr (Some n), snd ?run)" for n
  proof -
    have "case fst (ka_Get tree_api (key [''traefik'', ''backends'', tb_id sample_tbackend, ''servers'']) (snd ?run)) of
        Inr (Some n) \<Rightarrow> list_all (\<lambda>c. snd c = []) (nd_Nodes n) | _ \<Rightarrow> False" by code_simp
    then show ?thesis unfolding that by simp
  qed
  from traefik_not_read_back [OF etcd_ok_tree _ _ sample_tbackend_sel(1) wf(1) range_ok_id wf(2) sample_writes
      sample_tbackend_sel(3) _ run dirs]
  show ?thesis by (simp add: Let_def)
qed

end
