(* ===== verification/Vulcan_Json.thy ===== *)
theory Vulcan_Json
  imports Vulcan_Model
begin

text \<open>
  The objects of vulcand as JSON documents: what \<^verbatim>\<open>json.Marshal\<close> makes of the structures of
  \<^verbatim>\<open>engine/model.go\<close> and \<^verbatim>\<open>engine/tls.go\<close>, and the decoders of \<^verbatim>\<open>engine/json.go\<close>.

  A document is a value; the text of a value and the parsing of that text are those of the
  standard library and left out. As in \<^verbatim>\<open>encoding/json\<close> the keys of an object match field names
  without regard to case, an absent field or a null leaves the zero value, an unknown key is
  ignored, and a number must fit into 64 bits. Of a key that is repeated the last value counts
  (Go merges the values of structures), numbers are whole, and the texts of decoding errors are
  not told apart. Run-time statistics are not part of the objects here. A decoder that reads through a nil pointer, as it does for the document \<^verbatim>\<open>null\<close>, panics.
\<close>

section \<open>Documents\<close>

datatype json = JNull | JBool bool | JNum int | JStr string | JArr "json list" | JObj "(string \<times> json) list"

definition badType :: err where "badType = Err ''json: cannot unmarshal value''"

definition and_then :: "err + 'a \<Rightarrow> ('a \<Rightarrow> err + 'b) \<Rightarrow> err + 'b" where
  "and_then r f = (case r of Inl er \<Rightarrow> Inl er | Inr x \<Rightarrow> f x)"

lemma and_then_simps [simp]: "and_then (Inl er) f = Inl er" "and_then (Inr x) f = f x"
  by (simp_all add: and_then_def)

fun unString :: "json \<Rightarrow> err + string" where
  "unString (JStr s) = Inr s"
| "unString JNull = Inr []"
| "unString _ = Inl badType"

fun unBool :: "json \<Rightarrow> err + bool" where
  "unBool (JBool b) = Inr b"
| "unBool JNull = Inr False"
| "unBool _ = Inl badType"

definition int64 :: "int \<Rightarrow> bool" where
  "int64 i \<longleftrightarrow> - (2 ^ 63) \<le> i \<and> i < 2 ^ 63"

fun unInt :: "json \<Rightarrow> err + int" where
  "unInt (JNum i) = (if int64 i then Inr i else Inl badType)"
| "unInt JNull = Inr 0"
| "unInt _ = Inl badType"

fun sum_map :: "('a \<Rightarrow> err + 'b) \<Rightarrow> 'a list \<Rightarrow> err + 'b list" where
  "sum_map f [] = Inr []"
| "sum_map f (x # xs) = and_then (f x) (\<lambda>y. and_then (sum_map f xs) (\<lambda>ys. Inr (y # ys)))"

fun unList :: "(json \<Rightarrow> err + 'a) \<Rightarrow> json \<Rightarrow> err + 'a list" where
  "unList f (JArr js) = sum_map f js"
| "unList f JNull = Inr []"
| "unList f _ = Inl badType"

fun unPointer :: "(json \<Rightarrow> err + 'a) \<Rightarrow> json \<Rightarrow> err + 'a option" where
  "unPointer f JNull = Inr None"
| "unPointer f j = and_then (f j) (\<lambda>x. Inr (Some x))"

fun fieldsOf :: "json \<Rightarrow> err + (string \<times> json) list" where
  "fieldsOf (JObj kvs) = Inr kvs"
| "fieldsOf JNull = Inr []"
| "fieldsOf _ = Inl badType"

definition jfield :: "string \<Rightarrow> (string \<times> json) list \<Rightarrow> json option" where
  "jfield name kvs = map_of (rev (map (\<lambda>(k, v). (to_lower k, v)) kvs)) (to_lower name)"

definition field :: "(json \<Rightarrow> err + 'a) \<Rightarrow> 'a \<Rightarrow> string \<Rightarrow> (string \<times> json) list \<Rightarrow> err + 'a" where
  "field un zero name kvs = (case jfield name kvs of None \<Rightarrow> Inr zero | Some j \<Rightarrow> un j)"

section \<open>Structures\<close>

definition marshalSessionCache :: "tls_session_cache \<Rightarrow> json" where
  "marshalSessionCache c = JObj [(''Type'', JStr (tsc_Type c)),
     (''Settings'', case tsc_Settings c of None \<Rightarrow> JNull | Some l \<Rightarrow> JObj [(''Capacity'', JNum (lru_Capacity l))])]"

definition unLRU :: "json \<Rightarrow> err + lru_session_cache_settings" where
  "unLRU j = and_then (fieldsOf j) (\<lambda>kvs. and_then (field unInt 0 ''Capacity'' kvs) (\<lambda>c. Inr \<lparr>lru_Capacity = c\<rparr>))"

definition unSessionCache :: "json \<Rightarrow> err + tls_session_cache" where
  "unSessionCache j = and_then (fieldsOf j) (\<lambda>kvs.
     and_then (field unString [] ''Type'' kvs) (\<lambda>t.
     and_then (field (unPointer unLRU) None ''Settings'' kvs) (\<lambda>s.
       Inr \<lparr>tsc_Type = t, tsc_Settings = s\<rparr>)))"

definition marshalTLS :: "tls_settings \<Rightarrow> json" where
  "marshalTLS t = JObj
     [(''PreferServerCipherSuites'', JBool (tls_PreferServerCipherSuites t)), (''InsecureSkipVerify'', JBool (tls_InsecureSkipVerify t)),
      (''MinVersion'', JStr (tls_MinVersion t)), (''MaxVersion'', JStr (tls_MaxVersion t)),
      (''SessionTicketsDisabled'', JBool (tls_SessionTicketsDisabled t)), (''SessionCache'', marshalSessionCache (tls_SessionCache t)),
      (''CipherSuites'', JArr (map JStr (tls_CipherSuites t)))]"

definition unTLS :: "json \<Rightarrow> err + tls_settings" where
  "unTLS j = and_then (fieldsOf j) (\<lambda>kvs.
     and_then (field unBool False ''PreferServerCipherSuites'' kvs) (\<lambda>pref.
     and_then (field unBool False ''InsecureSkipVerify'' kvs) (\<lambda>skip.
     and_then (field unString [] ''MinVersion'' kvs) (\<lambda>minv.
     and_then (field unString [] ''MaxVersion'' kvs) (\<lambda>maxv.
     and_then (field unBool False ''SessionTicketsDisabled'' kvs) (\<lambda>tick.
     and_then (field unSessionCache \<lparr>tsc_Type = [], tsc_Settings = None\<rparr> ''SessionCache'' kvs) (\<lambda>cache.
     and_then (field (unList unString) [] ''CipherSuites'' kvs) (\<lambda>suites.
       Inr \<lparr>tls_PreferServerCipherSuites = pref, tls_InsecureSkipVerify = skip, tls_MinVersion = minv, tls_MaxVersion = maxv,
            tls_SessionTicketsDisabled = tick, tls_SessionCache = cache, tls_CipherSuites = suites\<rparr>))))))))"

definition marshalFrontendSettings :: "http_frontend_settings \<Rightarrow> json" where
  "marshalFrontendSettings s = JObj
     [(''Limits'', JObj [(''MaxMemBodyBytes'', JNum (MaxMemBodyBytes (fs_Limits s))), (''MaxBodyBytes'', JNum (MaxBodyBytes (fs_Limits s))),
        (''MaxRespMemBodyBytes'', JNum (MaxRespMemBodyBytes (fs_Limits s))), (''MaxRespBodyBytes'', JNum (MaxRespBodyBytes (fs_Limits s)))]),
      (''FailoverPredicate'', JStr (fs_FailoverPredicate s)), (''Hostname'', JStr (fs_Hostname s)),
      (''TrustForwardHeader'', JBool (fs_TrustForwardHeader s)), (''PassHostHeader'', JBool (fs_PassHostHeader s))]"

definition zeroLimits :: http_frontend_limits where
  "zeroLimits = \<lparr>MaxMemBodyBytes = 0, MaxBodyBytes = 0, MaxRespMemBodyBytes = 0, MaxRespBodyBytes = 0\<rparr>"

definition unLimits :: "json \<Rightarrow> err + http_frontend_limits" where
  "unLimits j = and_then (fieldsOf j) (\<lambda>kvs.
     and_then (field unInt 0 ''MaxMemBodyBytes'' kvs) (\<lambda>a.
     and_then (field unInt 0 ''MaxBodyBytes'' kvs) (\<lambda>b.
     and_then (field unInt 0 ''MaxRespMemBodyBytes'' kvs) (\<lambda>c.
     and_then (field unInt 0 ''MaxRespBodyBytes'' kvs) (\<lambda>d.
       Inr \<lparr>MaxMemBodyBytes = a, MaxBodyBytes = b, MaxRespMemBodyBytes = c, MaxRespBodyBytes = d\<rparr>)))))"

definition unFrontendSettings :: "json \<Rightarrow> err + http_frontend_settings" where
  "unFrontendSettings j = and_then (fieldsOf j) (\<lambda>kvs.
     and_then (field unLimits zeroLimits ''Limits'' kvs) (\<lambda>limits.
     and_then (field unString [] ''FailoverPredicate'' kvs) (\<lambda>pred.
     and_then (field unString [] ''Hostname'' kvs) (\<lambda>host.
     and_then (field unBool False ''TrustForwardHeader'' kvs) (\<lambda>trust.
     and_then (field unBool False ''PassHostHeader'' kvs) (\<lambda>pass.
       Inr \<lparr>fs_Limits = limits, fs_FailoverPredicate = pred, fs_Hostname = host, fs_TrustForwardHeader = trust, fs_PassHostHeader = pass\<rparr>))))))"

definition marshalFrontend :: "eng_frontend \<Rightarrow> json" where
  "marshalFrontend f = JObj [(''Id'', JStr (ef_Id f)), (''Route'', JStr (ef_Route f)), (''Type'', JStr (ef_Type f)),
     (''BackendId'', JStr (ef_BackendId f)), (''Settings'', marshalFrontendSettings (ef_Settings f))]"

definition marshalBackendSettings :: "http_backend_settings \<Rightarrow> json" where
  "marshalBackendSettings s = JObj
     ([(''Timeouts'', JObj [(''Read'', JStr (bs_Read s)), (''Dial'', JStr (bs_Dial s)), (''TLSHandshake'', JStr (bs_TLSHandshake s))]),
       (''KeepAlive'', JObj [(''Period'', JStr (bs_Period s)), (''MaxIdleConnsPerHost'', JNum (bs_MaxIdleConnsPerHost s))])] @
      (case bs_TLS s of None \<Rightarrow> [] | Some t \<Rightarrow> [(''TLS'', marshalTLS t)]))"

definition unTimeouts :: "json \<Rightarrow> err + string \<times> string \<times> string" where
  "unTimeouts j = and_then (fieldsOf j) (\<lambda>kvs.
     and_then (field unString [] ''Read'' kvs) (\<lambda>a.
     and_then (field unString [] ''Dial'' kvs) (\<lambda>b.
     and_then (field unString [] ''TLSHandshake'' kvs) (\<lambda>c. Inr (a, b, c)))))"

definition unKeepAlive :: "json \<Rightarrow> err + string \<times> int" where
  "unKeepAlive j = and_then (fieldsOf j) (\<lambda>kvs.
     and_then (field unString [] ''Period'' kvs) (\<lambda>a.
     and_then (field unInt 0 ''MaxIdleConnsPerHost'' kvs) (\<lambda>b. Inr (a, b))))"

definition unBackendSettings :: "json \<Rightarrow> err + http_backend_settings" where
  "unBackendSettings j = and_then (fieldsOf j) (\<lambda>kvs.
     and_then (field unTimeouts ([], [], []) ''Timeouts'' kvs) (\<lambda>(rd, dial, hand).
     and_then (field unKeepAlive ([], 0) ''KeepAlive'' kvs) (\<lambda>(period, idle).
     and_then (field (unPointer unTLS) None ''TLS'' kvs) (\<lambda>tls.
       Inr \<lparr>bs_Read = rd, bs_Dial = dial, bs_TLSHandshake = hand, bs_Period = period, bs_MaxIdleConnsPerHost = idle, bs_TLS = tls\<rparr>))))"

definition marshalBackend :: "eng_backend \<Rightarrow> json" where
  "marshalBackend b = JObj [(''Id'', JStr (eb_Id b)), (''Type'', JStr (eb_Type b)), (''Settings'', marshalBackendSettings (eb_Settings b))]"

definition marshalServer :: "eng_server \<Rightarrow> json" where
  "marshalServer s = JObj [(''Id'', JStr (es_Id s)), (''URL'', JStr (es_URL s))]"

text \<open>The data of a plugin is written by the plugin, \<open>plugin\<close>.\<close>

definition marshalMiddleware :: "(string \<Rightarrow> json) \<Rightarrow> eng_middleware \<Rightarrow> json" where
  "marshalMiddleware plugin m = JObj [(''Id'', JStr (em_Id m)), (''Priority'', JNum (em_Priority m)), (''Type'', JStr (em_Type m)),
     (''Middleware'', plugin (em_Middleware m))]"

definition marshalListener :: "listener \<Rightarrow> json" where
  "marshalListener l = JObj
     ([(''Id'', JStr (li_Id l)), (''Protocol'', JStr (li_Protocol l)),
       (''Address'', JObj [(''Network'', JStr (ad_Network (li_Address l))), (''Address'', JStr (ad_Address (li_Address l)))]),
       (''Scope'', JStr (li_Scope l))] @
      (case li_Settings l of None \<Rightarrow> [] | Some t \<Rightarrow> [(''Settings'', JObj [(''TLS'', marshalTLS t)])]))"

section \<open>Decoders\<close>

text \<open>A raw message is kept as it is, a null too; an absent one is nil.\<close>

definition rawField :: "string \<Rightarrow> (string \<times> json) list \<Rightarrow> err + json option" where
  "rawField name kvs = field (\<lambda>j. Inr (Some j)) None name kvs"

text \<open>A document decoded into a pointer whose target is then read: \<open>None\<close> is the panic on a null.\<close>

definition deref :: "(json \<Rightarrow> err + 'a) \<Rightarrow> json \<Rightarrow> ('a \<Rightarrow> err + 'b) \<Rightarrow> (err + 'b) go" where
  "deref un j f =
     (case unPointer un j of
        Inl er \<Rightarrow> Some (Inl er)
      | Inr None \<Rightarrow> None
      | Inr (Some x) \<Rightarrow> Some (f x))"

record raw_frontend =
  rf_Id :: string
  rf_Route :: string
  rf_Type :: string
  rf_BackendId :: string
  rf_Settings :: "json option"

definition unRawFrontend :: "json \<Rightarrow> err + raw_frontend" where
  "unRawFrontend j = and_then (fieldsOf j) (\<lambda>kvs.
     and_then (field unString [] ''Id'' kvs) (\<lambda>ident.
     and_then (field unString [] ''Route'' kvs) (\<lambda>route.
     and_then (field unString [] ''Type'' kvs) (\<lambda>typ.
     and_then (field unString [] ''BackendId'' kvs) (\<lambda>backend.
     and_then (rawField ''Settings'' kvs) (\<lambda>settings.
       Inr \<lparr>rf_Id = ident, rf_Route = route, rf_Type = typ, rf_BackendId = backend, rf_Settings = settings\<rparr>))))))"

definition zeroFrontendSettings :: http_frontend_settings where
  "zeroFrontendSettings = \<lparr>fs_Limits = zeroLimits, fs_FailoverPredicate = [], fs_Hostname = [],
     fs_TrustForwardHeader = False, fs_PassHostHeader = False\<rparr>"

definition frontendOfRaw :: "vulcan_checks \<Rightarrow> string option \<Rightarrow> raw_frontend \<Rightarrow> err + eng_frontend" where
  "frontendOfRaw vc ident rf =
    (if rf_Type rf \<noteq> ''http'' \<and> rf_Type rf \<noteq> ''ws'' then Inl (Err (''Unsupported frontend type: '' @ rf_Type rf))
     else and_then (case rf_Settings rf of None \<Rightarrow> Inr zeroFrontendSettings | Some d \<Rightarrow> unFrontendSettings d) (\<lambda>s.
          and_then (NewHTTPFrontend vc (case ident of Some i \<Rightarrow> i | None \<Rightarrow> rf_Id rf) (rf_BackendId rf) (rf_Route rf) s) (\<lambda>f.
            Inr (f\<lparr>ef_Type := rf_Type rf\<rparr>))))"

definition FrontendFromJSON :: "vulcan_checks \<Rightarrow> json \<Rightarrow> string option \<Rightarrow> (err + eng_frontend) go" where
  "FrontendFromJSON vc j ident = deref unRawFrontend j (frontendOfRaw vc ident)"

record raw_backend =
  rb_Id :: string
  rb_Type :: string
  rb_Settings :: "json option"

definition unRawBackend :: "json \<Rightarrow> err + raw_backend" where
  "unRawBackend j = and_then (fieldsOf j) (\<lambda>kvs.
     and_then (field unString [] ''Id'' kvs) (\<lambda>ident.
     and_then (field unString [] ''Type'' kvs) (\<lambda>typ.
     and_then (rawField ''Settings'' kvs) (\<lambda>settings.
       Inr \<lparr>rb_Id = ident, rb_Type = typ, rb_Settings = settings\<rparr>))))"

definition zeroBackendSettings :: http_backend_settings where
  "zeroBackendSettings = \<lparr>bs_Read = [], bs_Dial = [], bs_TLSHandshake = [], bs_Period = [], bs_MaxIdleConnsPerHost = 0,
     bs_TLS = None\<rparr>"

definition backendOfRaw :: "vulcan_checks \<Rightarrow> string option \<Rightarrow> raw_backend \<Rightarrow> err + eng_backend" where
  "backendOfRaw vc ident rb =
    (if rb_Type rb \<noteq> ''http'' \<and> rb_Type rb \<noteq> ''ws'' then Inl (Err (''Unsupported backend type '' @ rb_Type rb))
     else and_then (case rb_Settings rb of None \<Rightarrow> Inr zeroBackendSettings | Some d \<Rightarrow> unBackendSettings d) (\<lambda>s.
          and_then (case bs_TLS s of None \<Rightarrow> Inr () | Some t \<Rightarrow> and_then (NewTLSConfig t) (\<lambda>_. Inr ())) (\<lambda>_.
          and_then (NewHTTPBackend vc (case ident of Some i \<Rightarrow> i | None \<Rightarrow> rb_Id rb) s) (\<lambda>b.
            Inr (b\<lparr>eb_Type := rb_Type rb\<rparr>)))))"

definition BackendFromJSON :: "vulcan_checks \<Rightarrow> json \<Rightarrow> string option \<Rightarrow> (err + eng_backend) go" where
  "BackendFromJSON vc j ident = deref unRawBackend j (backendOfRaw vc ident)"

definition unServer :: "json \<Rightarrow> err + eng_server" where
  "unServer j = and_then (fieldsOf j) (\<lambda>kvs.
     and_then (field unString [] ''Id'' kvs) (\<lambda>ident.
     and_then (field unString [] ''URL'' kvs) (\<lambda>u. Inr \<lparr>es_Id = ident, es_URL = u\<rparr>)))"

definition ServerFromJSON :: "vulcan_checks \<Rightarrow> json \<Rightarrow> string option \<Rightarrow> (err + eng_server) go" where
  "ServerFromJSON vc j ident = deref unServer j (\<lambda>e.
     NewEngineServer vc (case ident of Some i \<Rightarrow> i | None \<Rightarrow> es_Id e) (es_URL e))"

definition unRawMiddleware :: "json \<Rightarrow> err + json option raw_middleware" where
  "unRawMiddleware j = and_then (fieldsOf j) (\<lambda>kvs.
     and_then (field unString [] ''Id'' kvs) (\<lambda>ident.
     and_then (field unString [] ''Type'' kvs) (\<lambda>typ.
     and_then (field unInt 0 ''Priority'' kvs) (\<lambda>prio.
     and_then (rawField ''Middleware'' kvs) (\<lambda>data.
       Inr \<lparr>rm_Id = ident, rm_Type = typ, rm_Priority = prio, rm_Middleware = data\<rparr>)))))"

text \<open>\<^verbatim>\<open>getter\<close> finds the decoder of a plugin by the type of the middleware.\<close>

definition MiddlewareOfJSON :: "(string \<Rightarrow> (json option \<Rightarrow> err + string) option) \<Rightarrow> json \<Rightarrow> string option \<Rightarrow> (err + eng_middleware) go" where
  "MiddlewareOfJSON getter j ident = deref unRawMiddleware j (\<lambda>ms. MiddlewareFromJSON Inr getter ms ident)"

definition unAddress :: "json \<Rightarrow> err + address" where
  "unAddress j = and_then (fieldsOf j) (\<lambda>kvs.
     and_then (field unString [] ''Network'' kvs) (\<lambda>net.
     and_then (field unString [] ''Address'' kvs) (\<lambda>addr. Inr \<lparr>ad_Network = net, ad_Address = addr\<rparr>)))"

definition zeroTLS :: tls_settings where
  "zeroTLS = \<lparr>tls_PreferServerCipherSuites = False, tls_InsecureSkipVerify = False, tls_MinVersion = [], tls_MaxVersion = [],
     tls_SessionTicketsDisabled = False, tls_SessionCache = \<lparr>tsc_Type = [], tsc_Settings = None\<rparr>, tls_CipherSuites = []\<rparr>"

definition unListenerSettings :: "json \<Rightarrow> err + tls_settings" where
  "unListenerSettings j = and_then (fieldsOf j) (\<lambda>kvs. field unTLS zeroTLS ''TLS'' kvs)"

definition unListener :: "json \<Rightarrow> err + listener" where
  "unListener j = and_then (fieldsOf j) (\<lambda>kvs.
     and_then (field unString [] ''Id'' kvs) (\<lambda>ident.
     and_then (field unString [] ''Protocol'' kvs) (\<lambda>prot.
     and_then (field unAddress \<lparr>ad_Network = [], ad_Address = []\<rparr> ''Address'' kvs) (\<lambda>addr.
     and_then (field unString [] ''Scope'' kvs) (\<lambda>scope.
     and_then (field (unPointer unListenerSettings) None ''Settings'' kvs) (\<lambda>settings.
       Inr \<lparr>li_Id = ident, li_Protocol = prot, li_Address = addr, li_Scope = scope, li_Settings = settings\<rparr>))))))"

text \<open>\<^verbatim>\<open>NewListener\<close> takes the default router's idea of a valid scope, \<open>valid_route\<close>.\<close>

definition ListenerFromJSON :: "(string \<Rightarrow> bool) \<Rightarrow> json \<Rightarrow> string option \<Rightarrow> (err + listener) go" where
  "ListenerFromJSON valid_route j ident = deref unListener j (\<lambda>rl.
     and_then (case li_Settings rl of
                 Some t \<Rightarrow> if li_Protocol rl = ''https'' then and_then (NewTLSConfig t) (\<lambda>_. Inr ()) else Inr ()
               | None \<Rightarrow> Inr ()) (\<lambda>_.
       NewListener valid_route (case ident of Some i \<Rightarrow> i | None \<Rightarrow> li_Id rl) (li_Protocol rl)
         (ad_Network (li_Address rl)) (ad_Address (li_Address rl)) (li_Scope rl) (li_Settings rl)))"

text \<open>
  Hosts. A byte string is written in base 64; line breaks are skipped when it is read, and the
  unused bits of the last digit are not looked at.
\<close>

definition b64Alphabet :: string where
  "b64Alphabet = ''ABCDEFGHIJKLMNOPQRSTUVWXYZabcdefghijklmnopqrstuvwxyz0123456789+/''"

definition b64Digit :: "nat \<Rightarrow> char" where
  "b64Digit n = b64Alphabet ! n"

definition b64Val :: "char \<Rightarrow> nat option" where
  "b64Val c = map_of (zip b64Alphabet [0..<64]) c"

fun b64EncodeBytes :: "nat list \<Rightarrow> string" where
  "b64EncodeBytes [] = []"
| "b64EncodeBytes [a] = [b64Digit (a div 4), b64Digit (a mod 4 * 16), CHR ''='', CHR ''='']"
| "b64EncodeBytes [a, b] = [b64Digit (a div 4), b64Digit (a mod 4 * 16 + b div 16), b64Digit (b mod 16 * 4), CHR ''='']"
| "b64EncodeBytes (a # b # c # r) =
     [b64Digit (a div 4), b64Digit (a mod 4 * 16 + b div 16), b64Digit (b mod 16 * 4 + c div 64), b64Digit (c mod 64)] @
     b64EncodeBytes r"

definition b64Encode :: "string \<Rightarrow> string" where
  "b64Encode s = b64EncodeBytes (map of_char s)"

fun b64DecodeBytes :: "string \<Rightarrow> nat list option" where
  "b64DecodeBytes [] = Some []"
| "b64DecodeBytes (w # x # y # z # r) =
     (case (b64Val w, b64Val x) of
        (Some p, Some q) \<Rightarrow>
          if y = CHR ''='' \<and> z = CHR ''='' then (if r = [] then Some [p * 4 + q div 16] else None)
          else (case b64Val y of
                  None \<Rightarrow> None
                | Some t \<Rightarrow>
                    if z = CHR ''='' then (if r = [] then Some [p * 4 + q div 16, q mod 16 * 16 + t div 4] else None)
                    else (case b64Val z of
                            None \<Rightarrow> None
                          | Some u \<Rightarrow> map_option (\<lambda>bs. [p * 4 + q div 16, q mod 16 * 16 + t div 4, t mod 4 * 64 + u] @ bs)
                                        (b64DecodeBytes r)))
      | _ \<Rightarrow> None)"
| "b64DecodeBytes _ = None"

definition b64Decode :: "string \<Rightarrow> string option" where
  "b64Decode s = map_option (map char_of) (b64DecodeBytes (filter (\<lambda>c. c \<noteq> CHR 0x0A \<and> c \<noteq> CHR 0x0D) s))"

fun unBytes :: "json \<Rightarrow> err + string" where
  "unBytes (JStr s) = (case b64Decode s of None \<Rightarrow> Inl badType | Some bs \<Rightarrow> Inr bs)"
| "unBytes JNull = Inr []"
| "unBytes _ = Inl badType"

definition marshalKeyPair :: "key_pair \<Rightarrow> json" where
  "marshalKeyPair k = JObj [(''Key'', JStr (b64Encode (kp_Key k))), (''Cert'', JStr (b64Encode (kp_Cert k)))]"

definition unKeyPair :: "json \<Rightarrow> err + key_pair" where
  "unKeyPair j = and_then (fieldsOf j) (\<lambda>kvs.
     and_then (field unBytes [] ''Key'' kvs) (\<lambda>key.
     and_then (field unBytes [] ''Cert'' kvs) (\<lambda>cert. Inr \<lparr>kp_Key = key, kp_Cert = cert\<rparr>)))"

definition KeyPairFromJSON :: "(string \<Rightarrow> string \<Rightarrow> err option) \<Rightarrow> json \<Rightarrow> (err + key_pair) go" where
  "KeyPairFromJSON x509 j = deref unKeyPair j (\<lambda>c. NewKeyPair x509 (kp_Cert c) (kp_Key c))"

definition marshalHost :: "host \<Rightarrow> json" where
  "marshalHost h = JObj [(''Name'', JStr (ho_Name h)), (''Settings'',
     (let s = ho_Settings h; oc = hs_OCSP s in
      JObj [(''Default'', JBool (hs_Default s)),
            (''KeyPair'', case hs_KeyPair s of None \<Rightarrow> JNull | Some k \<Rightarrow> marshalKeyPair k),
            (''OCSP'', JObj [(''Enabled'', JBool (oc_Enabled oc)), (''Period'', JStr (oc_Period oc)),
               (''Responders'', JArr (map JStr (oc_Responders oc))), (''SkipSignatureCheck'', JBool (oc_SkipSignatureCheck oc))])]))]"

definition unOCSP :: "json \<Rightarrow> err + ocsp_settings" where
  "unOCSP j = and_then (fieldsOf j) (\<lambda>kvs.
     and_then (field unBool False ''Enabled'' kvs) (\<lambda>en.
     and_then (field unString [] ''Period'' kvs) (\<lambda>period.
     and_then (field (unList unString) [] ''Responders'' kvs) (\<lambda>resp.
     and_then (field unBool False ''SkipSignatureCheck'' kvs) (\<lambda>skip.
       Inr \<lparr>oc_Enabled = en, oc_Period = period, oc_Responders = resp, oc_SkipSignatureCheck = skip\<rparr>)))))"

definition zeroOCSP :: ocsp_settings where
  "zeroOCSP = \<lparr>oc_Enabled = False, oc_Period = [], oc_Responders = [], oc_SkipSignatureCheck = False\<rparr>"

definition unHostSettings :: "json \<Rightarrow> err + host_settings" where
  "unHostSettings j = and_then (fieldsOf j) (\<lambda>kvs.
     and_then (field unBool False ''Default'' kvs) (\<lambda>dflt.
     and_then (field (unPointer unKeyPair) None ''KeyPair'' kvs) (\<lambda>kp.
     and_then (field unOCSP zeroOCSP ''OCSP'' kvs) (\<lambda>oc.
       Inr \<lparr>hs_Default = dflt, hs_KeyPair = kp, hs_OCSP = oc\<rparr>))))"

definition unHost :: "json \<Rightarrow> err + host" where
  "unHost j = and_then (fieldsOf j) (\<lambda>kvs.
     and_then (field unString [] ''Name'' kvs) (\<lambda>name.
     and_then (field unHostSettings \<lparr>hs_Default = False, hs_KeyPair = None, hs_OCSP = zeroOCSP\<rparr> ''Settings'' kvs) (\<lambda>settings.
       Inr \<lparr>ho_Name = name, ho_Settings = settings\<rparr>)))"

definition HostFromJSON :: "json \<Rightarrow> string option \<Rightarrow> (err + host) go" where
  "HostFromJSON j name = deref unHost j (\<lambda>h. NewHost (case name of Some n \<Rightarrow> n | None \<Rightarrow> ho_Name h) (ho_Settings h))"

text \<open>The decoders of collections: one object after the other, up to the first that fails or panics.\<close>

fun eachRaw :: "(json \<Rightarrow> (err + 'a) go) \<Rightarrow> json list \<Rightarrow> (err + 'a list) go" where
  "eachRaw f [] = Some (Inr [])"
| "eachRaw f (j # js) =
     (case f j of
        None \<Rightarrow> None
      | Some (Inl er) \<Rightarrow> Some (Inl er)
      | Some (Inr x) \<Rightarrow> map_option (map_sum id (Cons x)) (eachRaw f js))"

definition unRaws :: "string \<Rightarrow> json \<Rightarrow> err + json list" where
  "unRaws name j = and_then (fieldsOf j) (\<lambda>kvs. field (unList Inr) [] name kvs)"

definition collection :: "string \<Rightarrow> (json \<Rightarrow> (err + 'a) go) \<Rightarrow> json \<Rightarrow> (err + 'a list) go" where
  "collection name f j =
     (case deref (unRaws name) j Inr of
        None \<Rightarrow> None
      | Some (Inl er) \<Rightarrow> Some (Inl er)
      | Some (Inr js) \<Rightarrow> eachRaw f js)"

text \<open>The collection of hosts is decoded into a value: a null is the empty collection.\<close>

definition HostsFromJSON :: "json \<Rightarrow> (err + host list) go" where
  "HostsFromJSON j =
     (case unRaws ''Hosts'' j of
        Inl er \<Rightarrow> Some (Inl er)
      | Inr js \<Rightarrow> eachRaw (\<lambda>j. HostFromJSON j None) js)"

definition FrontendsFromJSON :: "vulcan_checks \<Rightarrow> json \<Rightarrow> (err + eng_frontend list) go" where
  "FrontendsFromJSON vc = collection ''Frontends'' (\<lambda>j. FrontendFromJSON vc j None)"

definition BackendsFromJSON :: "vulcan_checks \<Rightarrow> json \<Rightarrow> (err + eng_backend list) go" where
  "BackendsFromJSON vc = collection ''Backends'' (\<lambda>j. BackendFromJSON vc j None)"

definition ServersFromJSON :: "vulcan_checks \<Rightarrow> json \<Rightarrow> (err + eng_server list) go" where
  "ServersFromJSON vc = collection ''Servers'' (\<lambda>j. ServerFromJSON vc j None)"

definition MiddlewaresFromJSON :: "(string \<Rightarrow> (json option \<Rightarrow> err + string) option) \<Rightarrow> json \<Rightarrow> (err + eng_middleware list) go" where
  "MiddlewaresFromJSON getter = collection ''Middlewares'' (\<lambda>j. MiddlewareOfJSON getter j None)"

definition ListenersFromJSON :: "(string \<Rightarrow> bool) \<Rightarrow> json \<Rightarrow> (err + listener list) go" where
  "ListenersFromJSON valid_route = collection ''Listeners'' (\<lambda>j. ListenerFromJSON valid_route j None)"

section \<open>What is written is read back\<close>

named_theorems json_simps \<open>reading the fields of a document\<close>

lemma lower_keys [json_simps]:
  "to_lower ''Id'' = ''id''" "to_lower ''Route'' = ''route''" "to_lower ''Type'' = ''type''"
  "to_lower ''BackendId'' = ''backendid''" "to_lower ''Settings'' = ''settings''" "to_lower ''Limits'' = ''limits''"
  "to_lower ''MaxMemBodyBytes'' = ''maxmembodybytes''" "to_lower ''MaxBodyBytes'' = ''maxbodybytes''" "to_lower ''MaxRespMemBodyBytes'' = ''maxrespmembodybytes''"
  "to_lower ''MaxRespBodyBytes'' = ''maxrespbodybytes''" "to_lower ''FailoverPredicate'' = ''failoverpredicate''" "to_lower ''Hostname'' = ''hostname''"
  "to_lower ''TrustForwardHeader'' = ''trustforwardheader''" "to_lower ''PassHostHeader'' = ''passhostheader''" "to_lower ''Timeouts'' = ''timeouts''"
  "to_lower ''Read'' = ''read''" "to_lower ''Dial'' = ''dial''" "to_lower ''TLSHandshake'' = ''tlshandshake''"
  "to_lower ''KeepAlive'' = ''keepalive''" "to_lower ''Period'' = ''period''" "to_lower ''MaxIdleConnsPerHost'' = ''maxidleconnsperhost''"
  "to_lower ''TLS'' = ''tls''" "to_lower ''PreferServerCipherSuites'' = ''preferserverciphersuites''" "to_lower ''InsecureSkipVerify'' = ''insecureskipverify''"
  "to_lower ''MinVersion'' = ''minversion''" "to_lower ''MaxVersion'' = ''maxversion''" "to_lower ''SessionTicketsDisabled'' = ''sessionticketsdisabled''"
  "to_lower ''SessionCache'' = ''sessioncache''" "to_lower ''CipherSuites'' = ''ciphersuites''" "to_lower ''Capacity'' = ''capacity''"
  "to_lower ''URL'' = ''url''" "to_lower ''Priority'' = ''priority''" "to_lower ''Middleware'' = ''middleware''"
  "to_lower ''Network'' = ''network''" "to_lower ''Address'' = ''address''" "to_lower ''Protocol'' = ''protocol''"
  "to_lower ''Scope'' = ''scope''" "to_lower ''Frontends'' = ''frontends''" "to_lower ''Backends'' = ''backends''"
  "to_lower ''Servers'' = ''servers''" "to_lower ''Middlewares'' = ''middlewares''" "to_lower ''Listeners'' = ''listeners''"
  "to_lower ''Frontend'' = ''frontend''" "to_lower ''Backend'' = ''backend''" "to_lower ''Server'' = ''server''"
  "to_lower ''Listener'' = ''listener''" "to_lower ''TTL'' = ''ttl''" "to_lower ''Message'' = ''message''"
  "to_lower ''message'' = ''message''" "to_lower ''Status'' = ''status''"
  "to_lower ''Name'' = ''name''" "to_lower ''Default'' = ''default''" "to_lower ''KeyPair'' = ''keypair''"
  "to_lower ''OCSP'' = ''ocsp''" "to_lower ''Enabled'' = ''enabled''" "to_lower ''Responders'' = ''responders''"
  "to_lower ''SkipSignatureCheck'' = ''skipsignaturecheck''" "to_lower ''Key'' = ''key''" "to_lower ''Cert'' = ''cert''"
  "to_lower ''Host'' = ''host''" "to_lower ''Hosts'' = ''hosts''"
  by code_simp+

declare jfield_def [json_simps] field_def [json_simps] rawField_def [json_simps]

lemma and_then_Inr: "and_then r f = Inr y \<longleftrightarrow> (\<exists>x. r = Inr x \<and> f x = Inr y)"
  by (cases r) auto

lemma sum_map_inverse: "\<forall>x \<in> set xs. f (g x) = Inr x \<Longrightarrow> sum_map f (map g xs) = Inr xs"
  by (induction xs) auto

text \<open>The numbers of an object fit into 64 bits, as they do in Go.\<close>

definition cache_sized :: "tls_session_cache \<Rightarrow> bool" where
  "cache_sized c \<longleftrightarrow> (case tsc_Settings c of None \<Rightarrow> True | Some l \<Rightarrow> int64 (lru_Capacity l))"

definition tls_sized :: "tls_settings \<Rightarrow> bool" where
  "tls_sized t \<longleftrightarrow> cache_sized (tls_SessionCache t)"

definition limits_sized :: "http_frontend_limits \<Rightarrow> bool" where
  "limits_sized l \<longleftrightarrow> int64 (MaxMemBodyBytes l) \<and> int64 (MaxBodyBytes l) \<and> int64 (MaxRespMemBodyBytes l) \<and>
     int64 (MaxRespBodyBytes l)"

definition backend_sized :: "http_backend_settings \<Rightarrow> bool" where
  "backend_sized s \<longleftrightarrow> int64 (bs_MaxIdleConnsPerHost s) \<and> (case bs_TLS s of None \<Rightarrow> True | Some t \<Rightarrow> tls_sized t)"

lemma unSessionCache_marshal [simp]: "cache_sized c \<Longrightarrow> unSessionCache (marshalSessionCache c) = Inr c"
  by (cases "tsc_Settings c")
    (simp_all add: unSessionCache_def marshalSessionCache_def unLRU_def cache_sized_def json_simps)

lemma unTLS_marshal [simp]: "tls_sized t \<Longrightarrow> unTLS (marshalTLS t) = Inr t"
  by (simp add: unTLS_def marshalTLS_def tls_sized_def sum_map_inverse json_simps)

lemma unPointer_marshal [simp]:
  "tls_sized t \<Longrightarrow> unPointer unTLS (marshalTLS t) = Inr (Some t)"
  using unTLS_marshal [of t] by (simp add: marshalTLS_def del: unTLS_marshal)

lemma unLimits_marshal:
  "limits_sized l \<Longrightarrow> unLimits (JObj [(''MaxMemBodyBytes'', JNum (MaxMemBodyBytes l)), (''MaxBodyBytes'', JNum (MaxBodyBytes l)),
     (''MaxRespMemBodyBytes'', JNum (MaxRespMemBodyBytes l)), (''MaxRespBodyBytes'', JNum (MaxRespBodyBytes l))]) = Inr l"
  by (simp add: unLimits_def limits_sized_def json_simps)

lemma unFrontendSettings_marshal [simp]:
  "limits_sized (fs_Limits s) \<Longrightarrow> unFrontendSettings (marshalFrontendSettings s) = Inr s"
  by (simp add: unFrontendSettings_def marshalFrontendSettings_def unLimits_marshal json_simps)

lemma unBackendSettings_marshal [simp]: "backend_sized s \<Longrightarrow> unBackendSettings (marshalBackendSettings s) = Inr s"
  by (cases "bs_TLS s")
    (simp_all add: unBackendSettings_def marshalBackendSettings_def unTimeouts_def unKeepAlive_def backend_sized_def json_simps)

text \<open>
  A valid object is one its constructor accepts, with numbers of 64 bits; frontends and backends
  are of type http or ws, and a plugin reads back what it wrote for a middleware.
\<close>

definition valid_frontend :: "vulcan_checks \<Rightarrow> eng_frontend \<Rightarrow> bool" where
  "valid_frontend vc f \<longleftrightarrow> (ef_Type f = ''http'' \<or> ef_Type f = ''ws'') \<and> limits_sized (fs_Limits (ef_Settings f)) \<and>
     NewHTTPFrontend vc (ef_Id f) (ef_BackendId f) (ef_Route f) (ef_Settings f) = Inr (f\<lparr>ef_Type := ''http''\<rparr>)"

definition valid_backend :: "vulcan_checks \<Rightarrow> eng_backend \<Rightarrow> bool" where
  "valid_backend vc b \<longleftrightarrow> (eb_Type b = ''http'' \<or> eb_Type b = ''ws'') \<and> backend_sized (eb_Settings b) \<and>
     NewHTTPBackend vc (eb_Id b) (eb_Settings b) = Inr (b\<lparr>eb_Type := ''http''\<rparr>)"

definition valid_server :: "vulcan_checks \<Rightarrow> eng_server \<Rightarrow> bool" where
  "valid_server vc s \<longleftrightarrow> NewEngineServer vc (es_Id s) (es_URL s) = Inr s"

definition valid_middleware :: "(string \<Rightarrow> json) \<Rightarrow> (string \<Rightarrow> (json option \<Rightarrow> err + string) option) \<Rightarrow> eng_middleware \<Rightarrow> bool" where
  "valid_middleware plugin getter m \<longleftrightarrow> int64 (em_Priority m) \<and>
     (case getter (em_Type m) of None \<Rightarrow> False | Some dec \<Rightarrow> dec (Some (plugin (em_Middleware m))) = Inr (em_Middleware m))"

definition valid_listener :: "(string \<Rightarrow> bool) \<Rightarrow> listener \<Rightarrow> bool" where
  "valid_listener valid_route l \<longleftrightarrow>
     (case li_Settings l of
        None \<Rightarrow> True
      | Some t \<Rightarrow> tls_sized t \<and> (li_Protocol l = ''https'' \<longrightarrow> (case NewTLSConfig t of Inl _ \<Rightarrow> False | Inr _ \<Rightarrow> True))) \<and>
     NewListener valid_route (li_Id l) (li_Protocol l) (ad_Network (li_Address l)) (ad_Address (li_Address l)) (li_Scope l)
       (li_Settings l) = Inr l"

lemma NewHTTPBackend_TLS:
  "NewHTTPBackend vc i s = Inr b \<Longrightarrow> bs_TLS s = Some t \<Longrightarrow> \<exists>cfg. NewTLSConfig t = Inr cfg"
  by (cases "NewTLSConfig t") (auto simp: NewHTTPBackend_def transportSettings_def split: sum.splits)

lemma FrontendFromJSON_marshal:
  "valid_frontend vc f \<Longrightarrow> FrontendFromJSON vc (marshalFrontend f) None = Some (Inr f)"
  by (auto simp: FrontendFromJSON_def frontendOfRaw_def deref_def unRawFrontend_def marshalFrontend_def valid_frontend_def json_simps)

lemma BackendFromJSON_marshal:
  assumes "valid_backend vc b"
  shows "BackendFromJSON vc (marshalBackend b) None = Some (Inr b)"
proof -
  have tls: "(case bs_TLS (eb_Settings b) of None \<Rightarrow> Inr () | Some t \<Rightarrow> and_then (NewTLSConfig t) (\<lambda>_. Inr ())) = Inr ()"
    using NewHTTPBackend_TLS assms by (fastforce simp: valid_backend_def split: option.split)
  show ?thesis
    using assms by (auto simp: BackendFromJSON_def backendOfRaw_def deref_def unRawBackend_def marshalBackend_def valid_backend_def tls json_simps)
qed

lemma ServerFromJSON_marshal:
  "valid_server vc s \<Longrightarrow> ServerFromJSON vc (marshalServer s) None = Some (Inr s)"
  by (simp add: ServerFromJSON_def deref_def unServer_def marshalServer_def valid_server_def json_simps)

lemma MiddlewareOfJSON_marshal:
  "valid_middleware plugin getter m \<Longrightarrow> MiddlewareOfJSON getter (marshalMiddleware plugin m) None = Some (Inr m)"
  by (auto simp: MiddlewareOfJSON_def MiddlewareFromJSON_def deref_def unRawMiddleware_def marshalMiddleware_def
      valid_middleware_def json_simps split: option.splits)

lemma unListener_marshal:
  "(case li_Settings l of None \<Rightarrow> True | Some t \<Rightarrow> tls_sized t) \<Longrightarrow> unListener (marshalListener l) = Inr l"
  by (cases "li_Settings l")
    (simp_all add: unListener_def marshalListener_def unAddress_def unListenerSettings_def json_simps)

lemma ListenerFromJSON_marshal:
  assumes "valid_listener vr l"
  shows "ListenerFromJSON vr (marshalListener l) None = Some (Inr l)"
proof -
  have "unListener (marshalListener l) = Inr l"
    using assms by (intro unListener_marshal) (auto simp: valid_listener_def split: option.splits)
  then have "unPointer unListener (marshalListener l) = Inr (Some l)" by (simp add: marshalListener_def)
  then show ?thesis
    using assms by (auto simp: ListenerFromJSON_def deref_def valid_listener_def split: option.splits sum.splits)
qed

lemma b64Val_Digit: "n < 64 \<Longrightarrow> b64Val (b64Digit n) = Some n"
proof -
  assume n: "n < 64"
  have "distinct b64Alphabet" by code_simp
  moreover have len: "length b64Alphabet = 64" by code_simp
  ultimately show ?thesis
    using n unfolding b64Val_def b64Digit_def by (intro map_of_is_SomeI) (auto simp: set_zip)
qed

lemma b64Digit_plain: "n < 64 \<Longrightarrow> b64Digit n \<noteq> CHR ''='' \<and> b64Digit n \<noteq> CHR 0x0A \<and> b64Digit n \<noteq> CHR 0x0D"
proof -
  assume n: "n < 64"
  have "length b64Alphabet = 64" by code_simp
  then have "b64Digit n \<in> set b64Alphabet" using n by (simp add: b64Digit_def)
  moreover have "CHR ''='' \<notin> set b64Alphabet" "CHR 0x0A \<notin> set b64Alphabet" "CHR 0x0D \<notin> set b64Alphabet" by code_simp+
  ultimately show ?thesis by metis
qed

lemma sextets:
  fixes a b c :: nat
  assumes "a < 256" "b < 256" "c < 256"
  shows "a div 4 < 64" "a mod 4 * 16 < 64" "a mod 4 * 16 + b div 16 < 64" "b mod 16 * 4 < 64"
    "b mod 16 * 4 + c div 64 < 64" "c mod 64 < 64"
    "a div 4 * 4 + (a mod 4 * 16 + b div 16) div 16 = a"
    "(a mod 4 * 16 + b div 16) mod 16 * 16 + (b mod 16 * 4 + c div 64) div 4 = b"
    "(b mod 16 * 4 + c div 64) mod 4 * 64 + c mod 64 = c"
    "a div 4 * 4 + a mod 4 * 16 div 16 = a"
    "(a mod 4 * 16 + b div 16) mod 16 * 16 + b mod 16 * 4 div 4 = b"
proof -
  show "a div 4 < 64" "a mod 4 * 16 < 64" "b mod 16 * 4 < 64" "c mod 64 < 64" using assms by (simp_all add: less_mult_imp_div_less)
  have small: "b div 16 < 16" "c div 64 < 4" "a mod 4 < 4" "b mod 16 < 16" using assms by auto
  then show "a mod 4 * 16 + b div 16 < 64" "b mod 16 * 4 + c div 64 < 64" by linarith+
  show "a div 4 * 4 + (a mod 4 * 16 + b div 16) div 16 = a" "a div 4 * 4 + a mod 4 * 16 div 16 = a"
    using small by simp_all
  show "(a mod 4 * 16 + b div 16) mod 16 * 16 + (b mod 16 * 4 + c div 64) div 4 = b"
    "(a mod 4 * 16 + b div 16) mod 16 * 16 + b mod 16 * 4 div 4 = b"
    using small by simp_all
  show "(b mod 16 * 4 + c div 64) mod 4 * 64 + c mod 64 = c"
    using small by simp
qed

lemma b64DecodeBytes_Encode:
  "\<forall>n \<in> set bs. n < 256 \<Longrightarrow> b64DecodeBytes (b64EncodeBytes bs) = Some bs"
proof (induction bs rule: b64EncodeBytes.induct)
  case (2 a)
  then show ?case using sextets [of a 0 0] by (simp add: b64Val_Digit)
next
  case (3 a b)
  then show ?case using sextets [of a b 0] by (simp add: b64Val_Digit b64Digit_plain)
next
  case (4 a b c r)
  then show ?case using sextets [of a b c] by (simp add: b64Val_Digit b64Digit_plain)
qed simp

lemma b64EncodeBytes_plain:
  "\<forall>n \<in> set bs. n < 256 \<Longrightarrow> \<forall>c \<in> set (b64EncodeBytes bs). c \<noteq> CHR 0x0A \<and> c \<noteq> CHR 0x0D"
proof (induction bs rule: b64EncodeBytes.induct)
  case (2 a)
  then show ?case using sextets [of a 0 0] by (simp add: b64Digit_plain)
next
  case (3 a b)
  then show ?case using sextets [of a b 0] by (simp add: b64Digit_plain)
next
  case (4 a b c r)
  then show ?case using sextets [of a b c] by (simp add: b64Digit_plain)
qed simp

lemma b64_roundtrip [simp]: "b64Decode (b64Encode s) = Some s"
proof -
  have bytes: "\<forall>n \<in> set (map of_char s :: nat list). n < 256" by simp
  have "filter (\<lambda>c. c \<noteq> CHR 0x0A \<and> c \<noteq> CHR 0x0D) (b64Encode s) = b64Encode s"
    using b64EncodeBytes_plain [OF bytes] by (simp add: b64Encode_def filter_id_conv)
  then show ?thesis using b64DecodeBytes_Encode [OF bytes] by (simp add: b64Decode_def b64Encode_def comp_def)
qed

lemma unKeyPair_marshal [simp]: "unKeyPair (marshalKeyPair k) = Inr k" "unPointer unKeyPair (marshalKeyPair k) = Inr (Some k)"
proof -
  show "unKeyPair (marshalKeyPair k) = Inr k" by (simp add: unKeyPair_def marshalKeyPair_def json_simps)
  then show "unPointer unKeyPair (marshalKeyPair k) = Inr (Some k)" by (simp add: marshalKeyPair_def)
qed

lemma HostFromJSON_marshal:
  assumes "ho_Name h \<noteq> []"
  shows "HostFromJSON (marshalHost h) None = Some (Inr h)"
proof -
  have "unHost (marshalHost h) = Inr h"
    by (cases "hs_KeyPair (ho_Settings h)")
      (simp_all add: unHost_def marshalHost_def unHostSettings_def unOCSP_def sum_map_inverse Let_def json_simps)
  then have "unPointer unHost (marshalHost h) = Inr (Some h)" by (simp add: marshalHost_def)
  with assms show ?thesis by (simp add: HostFromJSON_def deref_def NewHost_def)
qed

text \<open>What a decoder accepts is valid.\<close>

lemma field_Inr:
  "field un zero name kvs = Inr x \<Longrightarrow> P zero \<Longrightarrow> (\<And>j y. un j = Inr y \<Longrightarrow> P y) \<Longrightarrow> P x"
  by (auto simp: field_def split: option.splits)

lemma unPointer_Inr: "unPointer un j = Inr (Some x) \<Longrightarrow> un j = Inr x"
  by (cases j) (auto simp: and_then_Inr)

lemma unInt_int64: "field unInt 0 name kvs = Inr i \<Longrightarrow> int64 i"
proof (erule field_Inr)
  show "int64 0" by (simp add: int64_def)
  show "int64 y" if "unInt j = Inr y" for j y
    using that by (cases j) (auto simp: int64_def split: if_splits)
qed

lemma unSessionCache_sized: "unSessionCache j = Inr c \<Longrightarrow> cache_sized c"
  by (auto simp: unSessionCache_def cache_sized_def and_then_Inr unLRU_def
      dest!: unPointer_Inr unInt_int64 field_Inr [where P = "\<lambda>s. case s of None \<Rightarrow> True | Some l \<Rightarrow> int64 (lru_Capacity l)"]
      split: option.splits)

lemma unTLS_sized: "unTLS j = Inr t \<Longrightarrow> tls_sized t"
  by (auto simp: unTLS_def tls_sized_def and_then_Inr elim!: field_Inr [where P = cache_sized]
      simp: unSessionCache_sized) (simp add: cache_sized_def)

lemma unFrontendSettings_sized: "unFrontendSettings j = Inr s \<Longrightarrow> limits_sized (fs_Limits s)"
proof -
  assume "unFrontendSettings j = Inr s"
  then obtain kvs where "field unLimits zeroLimits ''Limits'' kvs = Inr (fs_Limits s)"
    by (auto simp: unFrontendSettings_def and_then_Inr)
  then show ?thesis
  proof (rule field_Inr)
    show "limits_sized zeroLimits" by (simp add: limits_sized_def zeroLimits_def int64_def)
    show "limits_sized l" if "unLimits d = Inr l" for d l
      using that by (auto simp: unLimits_def limits_sized_def and_then_Inr dest: unInt_int64)
  qed
qed

lemma unBackendSettings_sized: "unBackendSettings j = Inr s \<Longrightarrow> backend_sized s"
proof -
  assume "unBackendSettings j = Inr s"
  then obtain kvs period where keep: "field unKeepAlive ([], 0) ''KeepAlive'' kvs = Inr (period, bs_MaxIdleConnsPerHost s)"
    and tls: "field (unPointer unTLS) None ''TLS'' kvs = Inr (bs_TLS s)"
    by (auto simp: unBackendSettings_def and_then_Inr split: prod.splits)
  have "int64 (snd (period, bs_MaxIdleConnsPerHost s))"
    by (rule field_Inr [OF keep]) (auto simp: unKeepAlive_def and_then_Inr dest: unInt_int64, simp add: int64_def)
  moreover have "case bs_TLS s of None \<Rightarrow> True | Some t \<Rightarrow> tls_sized t"
    by (rule field_Inr [OF tls]) (auto split: option.splits dest!: unPointer_Inr unTLS_sized)
  ultimately show ?thesis by (simp add: backend_sized_def)
qed

lemma deref_Inr: "deref un j f = Some (Inr y) \<Longrightarrow> \<exists>x. un j = Inr x \<and> f x = Inr y"
  by (auto simp: deref_def split: sum.splits option.splits dest: unPointer_Inr)

lemma frontendOfRaw_valid:
  assumes "frontendOfRaw vc i rf = Inr f"
  shows "valid_frontend vc f"
proof -
  have ty: "rf_Type rf = ''http'' \<or> rf_Type rf = ''ws''"
    using assms by (simp add: frontendOfRaw_def split: if_splits)
  with assms obtain s g
    where s: "(case rf_Settings rf of None \<Rightarrow> Inr zeroFrontendSettings | Some d \<Rightarrow> unFrontendSettings d) = Inr s"
      and g: "NewHTTPFrontend vc (case i of Some i \<Rightarrow> i | None \<Rightarrow> rf_Id rf) (rf_BackendId rf) (rf_Route rf) s = Inr g"
      and f: "f = g\<lparr>ef_Type := rf_Type rf\<rparr>"
    by (auto simp: frontendOfRaw_def and_then_Inr)
  have "limits_sized (fs_Limits s)"
    using s by (auto split: option.splits dest: unFrontendSettings_sized
        simp: zeroFrontendSettings_def limits_sized_def zeroLimits_def int64_def)
  then show ?thesis using ty g f by (auto simp: valid_frontend_def NewHTTPFrontend_def split: if_splits)
qed

lemma backendOfRaw_valid:
  assumes "backendOfRaw vc i rb = Inr b"
  shows "valid_backend vc b"
proof -
  have ty: "rb_Type rb = ''http'' \<or> rb_Type rb = ''ws''"
    using assms by (simp add: backendOfRaw_def split: if_splits)
  with assms obtain s g
    where s: "(case rb_Settings rb of None \<Rightarrow> Inr zeroBackendSettings | Some d \<Rightarrow> unBackendSettings d) = Inr s"
      and g: "NewHTTPBackend vc (case i of Some i \<Rightarrow> i | None \<Rightarrow> rb_Id rb) s = Inr g"
      and b: "b = g\<lparr>eb_Type := rb_Type rb\<rparr>"
    by (auto simp: backendOfRaw_def and_then_Inr)
  have "backend_sized s"
    using s by (auto split: option.splits dest: unBackendSettings_sized
        simp: zeroBackendSettings_def backend_sized_def int64_def)
  then show ?thesis using ty g b by (auto simp: valid_backend_def NewHTTPBackend_def split: sum.splits)
qed

lemma FrontendFromJSON_valid: "FrontendFromJSON vc j i = Some (Inr f) \<Longrightarrow> valid_frontend vc f"
  unfolding FrontendFromJSON_def by (blast dest: deref_Inr frontendOfRaw_valid)

lemma BackendFromJSON_valid: "BackendFromJSON vc j i = Some (Inr b) \<Longrightarrow> valid_backend vc b"
  unfolding BackendFromJSON_def by (blast dest: deref_Inr backendOfRaw_valid)

lemma ServerFromJSON_valid: "ServerFromJSON vc j i = Some (Inr s) \<Longrightarrow> valid_server vc s"
  unfolding ServerFromJSON_def
  by (drule deref_Inr) (auto simp: valid_server_def NewEngineServer_def split: if_splits)

lemma eachRaw_inverse: "\<forall>x \<in> set xs. f (g x) = Some (Inr x) \<Longrightarrow> eachRaw f (map g xs) = Some (Inr xs)"
  by (induction xs) auto

lemma sum_map_Inr [simp]: "sum_map Inr js = Inr js"
  by (induction js) auto

lemma collection_inverse:
  assumes "\<forall>x \<in> set xs. f (g x) = Some (Inr x)"
  shows "collection name f (JObj [(name, JArr (map g xs))]) = Some (Inr xs)"
  using eachRaw_inverse [OF assms] by (simp add: collection_def deref_def unRaws_def field_def jfield_def)


definition sample_json_checks :: vulcan_checks where
  "sample_json_checks = \<lparr>vc_route = (\<lambda>s. s \<noteq> []), vc_predicate = (\<lambda>_. False), vc_ParseDuration = (\<lambda>d. Inr 0),
     vc_DurationString = (\<lambda>_. ''0s''), vc_request_uri = (\<lambda>u. has_prefix u ''http://'')\<rparr>"


text \<open>
  The TLS settings of a listener are checked where its protocol is spelt in lower case only: the
  comparison comes before \<^verbatim>\<open>NewListener\<close> folds the case. The listener that is returned for another
  spelling has no TLS configuration.
\<close>

lemma listener_json_skips_tls:
  "NewTLSConfig t = Inl er \<Longrightarrow> tls_sized t \<Longrightarrow> addr \<noteq> [] \<Longrightarrow>
   let doc = (\<lambda>protocol. marshalListener \<lparr>li_Id = ''l'', li_Protocol = protocol, li_Address = \<lparr>ad_Network = ''tcp'', ad_Address = addr\<rparr>,
                li_Scope = [], li_Settings = Some t\<rparr>)
   in ListenerFromJSON vr (doc ''https'') None = Some (Inl er) \<and>
      (\<exists>l. ListenerFromJSON vr (doc ''HTTPS'') None = Some (Inr l) \<and> li_Protocol l = ''https'' \<and> ListenerTLSConfig l = Inl er)"
proof -
  assume t: "NewTLSConfig t = Inl er" "tls_sized t" and addr: "addr \<noteq> []"
  define doc where "doc protocol = \<lparr>li_Id = ''l'', li_Protocol = protocol, li_Address = \<lparr>ad_Network = ''tcp'', ad_Address = addr\<rparr>,
                li_Scope = [], li_Settings = Some t\<rparr>" for protocol
  have "unPointer unListener (marshalListener (doc p)) = Inr (Some (doc p))" for p
    using unListener_marshal [of "doc p"] t by (simp add: doc_def marshalListener_def)
  then have run: "ListenerFromJSON vr (marshalListener (doc p)) None =
      Some (and_then (if p = ''https'' then and_then (NewTLSConfig t) (\<lambda>_. Inr ()) else Inr ())
             (\<lambda>_. NewListener vr ''l'' p ''tcp'' addr [] (Some t)))" for p
    by (simp add: ListenerFromJSON_def deref_def) (simp add: doc_def)
  have lower: "to_lower ''HTTPS'' = ''https''" "to_lower ''tcp'' = ''tcp''" by code_simp+
  show ?thesis
    unfolding Let_def doc_def [symmetric]
    using t addr by (simp add: run NewListener_def NewAddress_def lower) (simp add: ListenerTLSConfig_def)
qed

end
