(* ===== verification/Vulcan_Api.thy ===== *)
theory Vulcan_Api
  imports Vulcan_Engine Vulcan_Json
begin

text \<open>
  The HTTP interface of vulcand, both ends of it: the handlers of \<^verbatim>\<open>api/api.go\<close> over the in-memory
  engine, the errors of \<^verbatim>\<open>mailgun/scroll\<close>, the routing of \<^verbatim>\<open>gorilla/mux\<close>, and the client
  \<^verbatim>\<open>api/client.go\<close> that sends the requests and reads the answers.

  A body is a JSON document; the transport delivers each request once and the answer whole. A
  handler that panics closes the connection without an answer, which the client sees as an error;
  handlers panic while they decode, before the engine is touched. The engine ignores the time to
  live of an object. The handlers of the log severity and of the run-time statistics work on what
  the model does not have: their answer is a parameter.
\<close>

section \<open>Errors\<close>

datatype api_error =
    GenericAPIError string
  | NotFoundError string
  | ConflictError string
  | EngineError err     \<comment> \<open>an error of the engine handed on as it is\<close>

text \<open>A missing field is reported by a pointer, which is none of the cases and becomes a generic error.\<close>

definition formatError :: "err \<Rightarrow> api_error" where
  "formatError e =
     (case e of
        AlreadyExists s \<Rightarrow> ConflictError (errText e)
      | NotFound s \<Rightarrow> NotFoundError (errText e)
      | _ \<Rightarrow> GenericAPIError (errText e))"

definition MissingFieldError :: "string \<Rightarrow> err" where
  "MissingFieldError fld = Err (''Missing mandatory parameter: '' @ fld)"

definition formatResult :: "(err + json) \<Rightarrow> api_error + json" where
  "formatResult r = (case r of Inl er \<Rightarrow> Inl (formatError er) | Inr j \<Rightarrow> Inr j)"

definition messageDoc :: "string \<Rightarrow> json" where
  "messageDoc s = JObj [(''message'', JStr s)]"

definition responseAndStatusFor :: "api_error \<Rightarrow> json \<times> nat" where
  "responseAndStatusFor e =
     (case e of
        GenericAPIError s \<Rightarrow> (messageDoc s, 400)
      | NotFoundError s \<Rightarrow> (messageDoc s, 404)
      | ConflictError s \<Rightarrow> (messageDoc s, 409)
      | EngineError _ \<Rightarrow> (messageDoc ''Internal Server Error'', 500))"

section \<open>What the handlers read\<close>

record api_env =
  ae_checks :: vulcan_checks
  ae_scope :: "string \<Rightarrow> bool"
  ae_plugin :: "string \<Rightarrow> json"
  ae_spec :: "string \<Rightarrow> (json option \<Rightarrow> err + string) option"
  ae_range :: "string list \<Rightarrow> string list"
  ae_rest :: "string \<Rightarrow> string list \<Rightarrow> api_error + json"

text \<open>The object in a pack; a null there is a message of its own, which the decoders panic on.\<close>

definition packField :: "string \<Rightarrow> json \<Rightarrow> err + json" where
  "packField name v = and_then (fieldsOf v) (\<lambda>kvs. and_then (rawField name kvs) (\<lambda>raw.
     case raw of None \<Rightarrow> Inl (MissingFieldError name) | Some j \<Rightarrow> Inr j))"

definition parsePack :: "string \<Rightarrow> (json \<Rightarrow> (err + 'a) go) \<Rightarrow> json \<Rightarrow> (err + 'a) go" where
  "parsePack name dec v = (case packField name v of Inl er \<Rightarrow> Some (Inl er) | Inr j \<Rightarrow> dec j)"

text \<open>The packs with a time to live: its type is checked with the pack, its value after the object.\<close>

definition parseTTL :: "vulcan_checks \<Rightarrow> string \<Rightarrow> err + int" where
  "parseTTL vc ttl = (if ttl \<noteq> [] then vc_ParseDuration vc ttl else Inr 0)"

definition parsePackTTL :: "vulcan_checks \<Rightarrow> string \<Rightarrow> (json \<Rightarrow> (err + 'a) go) \<Rightarrow> json \<Rightarrow> (err + 'a \<times> int) go" where
  "parsePackTTL vc name dec v =
     (case and_then (fieldsOf v) (\<lambda>kvs. field unString [] ''TTL'' kvs) of
        Inl er \<Rightarrow> Some (Inl er)
      | Inr ttl \<Rightarrow> map_option (\<lambda>r. and_then r (\<lambda>x. and_then (parseTTL vc ttl) (\<lambda>t. Inr (x, t)))) (parsePack name dec v))"

definition parseListenerPack :: "(string \<Rightarrow> bool) \<Rightarrow> json \<Rightarrow> (err + listener) go" where
  "parseListenerPack valid_route v = parsePack ''Listener'' (\<lambda>j. ListenerFromJSON valid_route j None) v"

definition parseHostPack :: "json \<Rightarrow> (err + host) go" where
  "parseHostPack v = parsePack ''Host'' (\<lambda>j. HostFromJSON j None) v"

definition parseBackendPack :: "vulcan_checks \<Rightarrow> json \<Rightarrow> (err + eng_backend) go" where
  "parseBackendPack vc v = parsePack ''Backend'' (\<lambda>j. BackendFromJSON vc j None) v"

definition parseFrontendPack :: "vulcan_checks \<Rightarrow> json \<Rightarrow> (err + eng_frontend \<times> int) go" where
  "parseFrontendPack vc v = parsePackTTL vc ''Frontend'' (\<lambda>j. FrontendFromJSON vc j None) v"

definition parseMiddlewarePack ::
  "vulcan_checks \<Rightarrow> (string \<Rightarrow> (json option \<Rightarrow> err + string) option) \<Rightarrow> json \<Rightarrow> (err + eng_middleware \<times> int) go" where
  "parseMiddlewarePack vc spec v = parsePackTTL vc ''Middleware'' (\<lambda>j. MiddlewareOfJSON spec j None) v"

definition parseServerPack :: "vulcan_checks \<Rightarrow> json \<Rightarrow> (err + eng_server \<times> int) go" where
  "parseServerPack vc v = parsePackTTL vc ''Server'' (\<lambda>j. ServerFromJSON vc j None) v"

section \<open>Handlers\<close>

type_synonym reply = "((api_error + json) \<times> mem) go"

definition getStatus :: "mem \<Rightarrow> reply" where
  "getStatus m = Some (Inr (JObj [(''Status'', JStr ''ok'')]), m)"

text \<open>
  The shapes the handlers have: an upsert decodes and then changes, answering with the object; a
  removal answers with a message; a look-up answers with the object; a listing with the objects.
\<close>

definition upsertWith ::
  "(err + 'a) go \<Rightarrow> ('a \<Rightarrow> mem \<Rightarrow> err option \<times> mem) \<Rightarrow> ('a \<Rightarrow> json) \<Rightarrow> mem \<Rightarrow> reply" where
  "upsertWith parsed up out m =
     (case parsed of
        None \<Rightarrow> None
      | Some (Inl er) \<Rightarrow> Some (Inl (formatError er), m)
      | Some (Inr x) \<Rightarrow>
          (case up x m of (er, m) \<Rightarrow> Some (formatResult (case er of Some e \<Rightarrow> Inl e | None \<Rightarrow> Inr (out x)), m)))"

definition deleteWith :: "err option \<times> mem \<Rightarrow> string \<Rightarrow> reply" where
  "deleteWith r msg = (case r of (Some er, m) \<Rightarrow> Some (Inl (formatError er), m) | (None, m) \<Rightarrow> Some (Inr (messageDoc msg), m))"

definition getWith :: "(err + 'a) \<times> mem \<Rightarrow> ('a \<Rightarrow> json) \<Rightarrow> reply" where
  "getWith r out = (case r of (x, m) \<Rightarrow> Some (formatResult (map_sum id out x), m))"

definition listWith :: "(err \<Rightarrow> api_error) \<Rightarrow> (err + 'a list) \<times> mem \<Rightarrow> string \<Rightarrow> ('a \<Rightarrow> json) \<Rightarrow> reply" where
  "listWith onError r name out =
     (case r of
        (Inl er, m) \<Rightarrow> Some (Inl (onError er), m)
      | (Inr xs, m) \<Rightarrow> Some (Inr (JObj [(name, JArr (map out xs))]), m))"

definition getHosts :: "api_env \<Rightarrow> mem \<Rightarrow> reply" where
  "getHosts env m = listWith EngineError (MemGetHosts (ae_range env) m) ''Hosts'' marshalHost"

definition getHost :: "string \<Rightarrow> mem \<Rightarrow> reply" where
  "getHost hostname m = getWith (MemGetHost hostname m) marshalHost"

definition upsertHost :: "json \<Rightarrow> mem \<Rightarrow> reply" where
  "upsertHost body m = upsertWith (parseHostPack body) MemUpsertHost marshalHost m"

definition deleteHost :: "string \<Rightarrow> mem \<Rightarrow> reply" where
  "deleteHost hostname m = deleteWith (MemDeleteHost hostname m) (''Host '' @ squote hostname @ '' deleted'')"

definition getListeners :: "api_env \<Rightarrow> mem \<Rightarrow> reply" where
  "getListeners env m = listWith EngineError (MemGetListeners (ae_range env) m) ''Listeners'' marshalListener"

definition upsertListener :: "api_env \<Rightarrow> json \<Rightarrow> mem \<Rightarrow> reply" where
  "upsertListener env body m = upsertWith (parseListenerPack (ae_scope env) body) MemUpsertListener marshalListener m"

definition getListener :: "string \<Rightarrow> mem \<Rightarrow> reply" where
  "getListener k m = getWith (MemGetListener k m) marshalListener"

definition deleteListener :: "string \<Rightarrow> mem \<Rightarrow> reply" where
  "deleteListener k m = deleteWith (MemDeleteListener k m) ''Listener deleted''"

definition getFrontends :: "api_env \<Rightarrow> mem \<Rightarrow> reply" where
  "getFrontends env m = listWith formatError (MemGetFrontends (ae_range env) m) ''Frontends'' marshalFrontend"

definition apiGetFrontend :: "string \<Rightarrow> mem \<Rightarrow> reply" where
  "apiGetFrontend k m = getWith (MemGetFrontend k m) marshalFrontend"

definition upsertFrontend :: "api_env \<Rightarrow> json \<Rightarrow> mem \<Rightarrow> reply" where
  "upsertFrontend env body m =
     upsertWith (parseFrontendPack (ae_checks env) body) (\<lambda>(f, ttl). MemUpsertFrontend f) (\<lambda>(f, ttl). marshalFrontend f) m"

definition deleteFrontend :: "string \<Rightarrow> mem \<Rightarrow> reply" where
  "deleteFrontend k m = deleteWith (MemDeleteFrontend k m) ''Frontend deleted''"

definition getBackends :: "api_env \<Rightarrow> mem \<Rightarrow> reply" where
  "getBackends env m = listWith EngineError (MemGetBackends (ae_range env) m) ''Backends'' marshalBackend"

definition apiGetBackend :: "string \<Rightarrow> mem \<Rightarrow> reply" where
  "apiGetBackend k m = getWith (MemGetBackend k m) marshalBackend"

definition upsertBackend :: "api_env \<Rightarrow> json \<Rightarrow> mem \<Rightarrow> reply" where
  "upsertBackend env body m = upsertWith (parseBackendPack (ae_checks env) body) MemUpsertBackend marshalBackend m"

definition deleteBackend :: "string \<Rightarrow> mem \<Rightarrow> reply" where
  "deleteBackend k m = deleteWith (MemDeleteBackend k m) ''Backend deleted''"

definition apiGetServers :: "string \<Rightarrow> mem \<Rightarrow> reply" where
  "apiGetServers bk m = listWith formatError (MemGetServers bk m) ''Servers'' marshalServer"

definition getServer :: "string \<Rightarrow> string \<Rightarrow> mem \<Rightarrow> reply" where
  "getServer bk sid m = getWith (MemGetServer bk sid m) marshalServer"

definition upsertServer :: "api_env \<Rightarrow> string \<Rightarrow> json \<Rightarrow> mem \<Rightarrow> reply" where
  "upsertServer env bk body m =
     upsertWith (parseServerPack (ae_checks env) body) (\<lambda>(s, ttl). MemUpsertServer bk s) (\<lambda>(s, ttl). marshalServer s) m"

definition deleteServer :: "string \<Rightarrow> string \<Rightarrow> mem \<Rightarrow> reply" where
  "deleteServer bk sid m = deleteWith (MemDeleteServer bk sid m) ''Server deleted''"

definition getMiddlewares :: "api_env \<Rightarrow> string \<Rightarrow> mem \<Rightarrow> reply" where
  "getMiddlewares env fk m =
     listWith formatError (MemGetMiddlewares fk m) ''Middlewares'' (marshalMiddleware (ae_plugin env))"

definition getMiddleware :: "api_env \<Rightarrow> string \<Rightarrow> string \<Rightarrow> mem \<Rightarrow> reply" where
  "getMiddleware env fk mid m = getWith (MemGetMiddleware fk mid m) (marshalMiddleware (ae_plugin env))"

definition upsertMiddleware :: "api_env \<Rightarrow> string \<Rightarrow> json \<Rightarrow> mem \<Rightarrow> reply" where
  "upsertMiddleware env fk body m =
     upsertWith (parseMiddlewarePack (ae_checks env) (ae_spec env) body) (\<lambda>(x, ttl). MemUpsertMiddleware fk x)
       (\<lambda>(x, ttl). marshalMiddleware (ae_plugin env) x) m"

definition deleteMiddleware :: "string \<Rightarrow> string \<Rightarrow> mem \<Rightarrow> reply" where
  "deleteMiddleware fk mid m = deleteWith (MemDeleteMiddleware fk mid m) ''Middleware deleted''"

definition handleError :: "mem \<Rightarrow> reply" where
  "handleError m = Some (Inl (NotFoundError ''Object not found''), m)"

section \<open>Routes\<close>

text \<open>
  The handler for a method and the elements of a path, as \<^verbatim>\<open>InitProxyController\<close> registers them. A
  variable of a pattern takes one non-empty element.
\<close>

definition muxCollection :: "api_env \<Rightarrow> string \<Rightarrow> string \<Rightarrow> json \<Rightarrow> mem \<Rightarrow> reply" where
  "muxCollection env meth coll body m =
     (if coll = ''status'' \<and> meth = ''GET'' then getStatus m
      else if coll = ''hosts'' \<and> meth = ''POST'' then upsertHost body m
      else if coll = ''hosts'' \<and> meth = ''GET'' then getHosts env m
      else if coll = ''listeners'' \<and> meth = ''GET'' then getListeners env m
      else if coll = ''listeners'' \<and> meth = ''POST'' then upsertListener env body m
      else if coll = ''frontends'' \<and> meth = ''POST'' then upsertFrontend env body m
      else if coll = ''frontends'' \<and> meth = ''GET'' then getFrontends env m
      else if coll = ''backends'' \<and> meth = ''POST'' then upsertBackend env body m
      else if coll = ''backends'' \<and> meth = ''GET'' then getBackends env m
      else handleError m)"

definition muxObject :: "string \<Rightarrow> string \<Rightarrow> string \<Rightarrow> mem \<Rightarrow> reply" where
  "muxObject meth coll k m =
     (if coll = ''hosts'' \<and> meth = ''GET'' then getHost k m
      else if coll = ''hosts'' \<and> meth = ''DELETE'' then deleteHost k m
      else if coll = ''listeners'' \<and> meth = ''GET'' then getListener k m
      else if coll = ''listeners'' \<and> meth = ''DELETE'' then deleteListener k m
      else if coll = ''frontends'' \<and> meth = ''GET'' then apiGetFrontend k m
      else if coll = ''frontends'' \<and> meth = ''DELETE'' then deleteFrontend k m
      else if coll = ''backends'' \<and> meth = ''DELETE'' then deleteBackend k m
      else if coll = ''backends'' \<and> meth = ''GET'' then apiGetBackend k m
      else handleError m)"

definition muxParts :: "api_env \<Rightarrow> string \<Rightarrow> string \<Rightarrow> string \<Rightarrow> string \<Rightarrow> json \<Rightarrow> mem \<Rightarrow> reply" where
  "muxParts env meth coll k sub body m =
     (if coll = ''backends'' \<and> sub = ''servers'' \<and> meth = ''GET'' then apiGetServers k m
      else if coll = ''backends'' \<and> sub = ''servers'' \<and> meth = ''POST'' then upsertServer env k body m
      else if coll = ''frontends'' \<and> sub = ''middlewares'' \<and> meth = ''POST'' then upsertMiddleware env k body m
      else if coll = ''frontends'' \<and> sub = ''middlewares'' \<and> meth = ''GET'' then getMiddlewares env k m
      else handleError m)"

definition muxPart :: "api_env \<Rightarrow> string \<Rightarrow> string \<Rightarrow> string \<Rightarrow> string \<Rightarrow> string \<Rightarrow> mem \<Rightarrow> reply" where
  "muxPart env meth coll k sub i m =
     (if coll = ''backends'' \<and> sub = ''servers'' \<and> meth = ''GET'' then getServer k i m
      else if coll = ''backends'' \<and> sub = ''servers'' \<and> meth = ''DELETE'' then deleteServer k i m
      else if coll = ''frontends'' \<and> sub = ''middlewares'' \<and> meth = ''GET'' then getMiddleware env k i m
      else if coll = ''frontends'' \<and> sub = ''middlewares'' \<and> meth = ''DELETE'' then deleteMiddleware k i m
      else handleError m)"

definition muxMatch :: "api_env \<Rightarrow> string \<Rightarrow> string list \<Rightarrow> json \<Rightarrow> mem \<Rightarrow> reply" where
  "muxMatch env meth segs body m =
     (case segs of
        [v, coll] \<Rightarrow>
          if v = ''v2'' \<or> v = ''v1'' \<and> coll = ''status'' then muxCollection env meth coll body m else handleError m
      | [v, coll, k] \<Rightarrow>
          if v \<noteq> ''v2'' \<or> k = [] then handleError m
          else if coll = ''log'' \<and> k = ''severity'' \<and> (meth = ''GET'' \<or> meth = ''PUT'') \<or>
                  coll = ''top'' \<and> (k = ''frontends'' \<or> k = ''servers'') \<and> meth = ''GET''
          then Some (ae_rest env meth segs, m)
          else muxObject meth coll k m
      | [v, coll, k, sub] \<Rightarrow>
          if v \<noteq> ''v2'' \<or> k = [] then handleError m else muxParts env meth coll k sub body m
      | [v, coll, k, sub, i] \<Rightarrow>
          if v \<noteq> ''v2'' \<or> k = [] \<or> i = [] then handleError m else muxPart env meth coll k sub i m
      | _ \<Rightarrow> handleError m)"

definition cleanPath :: "string \<Rightarrow> string" where
  "cleanPath p =
     (if p = [] then ''/''
      else
        (let p = (if hd p \<noteq> CHR ''/'' then CHR ''/'' # p else p); np = path_clean p
         in if last p = CHR ''/'' \<and> np \<noteq> ''/'' then np @ ''/'' else np))"

text \<open>An answer: the status, the body (none with a redirection) and the path a redirection leads to.\<close>

record response =
  rs_Status :: nat
  rs_Body :: "json option"
  rs_Location :: string

text \<open>A path that is not in its normal form is answered by a redirection to it.\<close>

definition ServeHTTP :: "api_env \<Rightarrow> string \<Rightarrow> string \<Rightarrow> json \<Rightarrow> mem \<Rightarrow> (response \<times> mem) go" where
  "ServeHTTP env meth path body m =
     (if cleanPath path \<noteq> path then Some (\<lparr>rs_Status = 301, rs_Body = None, rs_Location = cleanPath path\<rparr>, m)
      else (case muxMatch env meth (tl (split_on CHR ''/'' path)) body m of
              None \<Rightarrow> None
            | Some (Inl e, m) \<Rightarrow>
                (case responseAndStatusFor e of (j, status) \<Rightarrow> Some (\<lparr>rs_Status = status, rs_Body = Some j, rs_Location = []\<rparr>, m))
            | Some (Inr j, m) \<Rightarrow> Some (\<lparr>rs_Status = 200, rs_Body = Some j, rs_Location = []\<rparr>, m)))"

section \<open>The client\<close>

text \<open>
  The path of a URL: what follows the host, without query and fragment, unescaped. Without a
  scheme or with a broken escape there is no request.
\<close>

definition hexVal :: "char \<Rightarrow> nat option" where
  "hexVal c =
     (let n = of_char c :: nat in
      if 48 \<le> n \<and> n \<le> 57 then Some (n - 48)
      else if 97 \<le> n \<and> n \<le> 102 then Some (n - 87)
      else if 65 \<le> n \<and> n \<le> 70 then Some (n - 55)
      else None)"

fun unescape :: "string \<Rightarrow> string option" where
  "unescape [] = Some []"
| "unescape (c # cs) =
     (if c = CHR ''%'' then
        (case cs of
           a # b # r \<Rightarrow>
             (case (hexVal a, hexVal b) of
                (Some x, Some y) \<Rightarrow> map_option (Cons (char_of (16 * x + y))) (unescape r)
              | _ \<Rightarrow> None)
         | _ \<Rightarrow> None)
      else map_option (Cons c) (unescape cs))"

definition urlPath :: "string \<Rightarrow> string option" where
  "urlPath u =
     (let u = takeWhile (\<lambda>c. c \<noteq> CHR ''?'') (takeWhile (\<lambda>c. c \<noteq> CHR ''#'') u)
      in case split_n2 u ''://'' of
           [scheme, rest] \<Rightarrow> unescape (dropWhile (\<lambda>c. c \<noteq> CHR ''/'') rest)
         | _ \<Rightarrow> None)"

definition endpoint :: "string \<Rightarrow> string list \<Rightarrow> string" where
  "endpoint addr params = addr @ ''/'' @ ''v2'' @ ''/'' @ join ''/'' params"

text \<open>
  Only a \<^verbatim>\<open>GET\<close> follows a redirection of status 301, and no more than ten requests are made.
\<close>

fun follow :: "api_env \<Rightarrow> nat \<Rightarrow> string \<Rightarrow> string \<Rightarrow> json \<Rightarrow> mem \<Rightarrow> (err + response) \<times> mem" where
  "follow env 0 meth path body m = (Inl (Err ''stopped after 10 redirects''), m)"
| "follow env (Suc n) meth path body m =
     (case ServeHTTP env meth path body m of
        None \<Rightarrow> (Inl (Err ''EOF''), m)
      | Some (r, m) \<Rightarrow>
          if meth = ''GET'' \<and> rs_Status r = 301 then follow env n meth (rs_Location r) body m else (Inr r, m))"

definition send :: "api_env \<Rightarrow> string \<Rightarrow> string \<Rightarrow> json \<Rightarrow> mem \<Rightarrow> (err + response) \<times> mem" where
  "send env meth u body m =
     (case urlPath u of
        None \<Rightarrow> (Inl (Err (''invalid URL '' @ u)), m)
      | Some path \<Rightarrow> follow env 10 meth path body m)"

definition unStatus :: "json \<Rightarrow> err + string" where
  "unStatus j = and_then (fieldsOf j) (\<lambda>kvs. field unString [] ''Message'' kvs)"

text \<open>
  \<^verbatim>\<open>RoundTrip\<close>: the document of an answer with status 200 (\<open>None\<close> inside is an empty body), else
  an error by the status. The message is read through a pointer that a null leaves nil.
\<close>

definition RoundTrip :: "err + response \<Rightarrow> (err + json option) go" where
  "RoundTrip r =
     (case r of
        Inl er \<Rightarrow> Some (Inl er)
      | Inr resp \<Rightarrow>
          if rs_Status resp \<noteq> 200 then
            (case rs_Body resp of
               None \<Rightarrow> Some (Inl (Err ''failed to decode response''))
             | Some j \<Rightarrow>
                 (case unPointer unStatus j of
                    Inl _ \<Rightarrow> Some (Inl (Err ''failed to decode response''))
                  | Inr status \<Rightarrow>
                      if rs_Status resp = 404 then map_option (\<lambda>msg. Inl (NotFound msg)) status
                      else if rs_Status resp = 409 then map_option (\<lambda>msg. Inl (AlreadyExists msg)) status
                      else Some (Inl (Remote (case status of None \<Rightarrow> [] | Some msg \<Rightarrow> msg)))))
          else Some (Inr (rs_Body resp)))"

definition ClientGet :: "api_env \<Rightarrow> string \<Rightarrow> string list \<Rightarrow> mem \<Rightarrow> (err + json option) go \<times> mem" where
  "ClientGet env addr params m = apfst RoundTrip (send env ''GET'' (endpoint addr params) JNull m)"

definition ClientPost :: "api_env \<Rightarrow> string \<Rightarrow> string list \<Rightarrow> json \<Rightarrow> mem \<Rightarrow> err option go \<times> mem" where
  "ClientPost env addr params doc m =
     apfst (\<lambda>r. map_option (\<lambda>x. case x of Inl er \<Rightarrow> Some er | Inr _ \<Rightarrow> None) (RoundTrip r))
       (send env ''POST'' (endpoint addr params) doc m)"

definition ClientDelete :: "api_env \<Rightarrow> string \<Rightarrow> string list \<Rightarrow> mem \<Rightarrow> err option go \<times> mem" where
  "ClientDelete env addr params m =
     apfst (\<lambda>r. map_option (\<lambda>x.
         case x of
           Inl er \<Rightarrow> Some er
         | Inr None \<Rightarrow> Some (Err ''unexpected end of JSON input'')
         | Inr (Some j) \<Rightarrow> (case unPointer unStatus j of Inl er \<Rightarrow> Some er | Inr _ \<Rightarrow> None)) (RoundTrip r))
       (send env ''DELETE'' (endpoint addr params) JNull m)"

definition decoded :: "(json \<Rightarrow> (err + 'a) go) \<Rightarrow> (err + json option) go \<Rightarrow> (err + 'a) go" where
  "decoded dec r =
     (case r of
        None \<Rightarrow> None
      | Some (Inl er) \<Rightarrow> Some (Inl er)
      | Some (Inr None) \<Rightarrow> Some (Inl (Err ''unexpected end of JSON input''))
      | Some (Inr (Some j)) \<Rightarrow> dec j)"

definition RemoteGetStatus :: "api_env \<Rightarrow> string \<Rightarrow> mem \<Rightarrow> err option go \<times> mem" where
  "RemoteGetStatus env addr m =
     apfst (map_option (\<lambda>x. case x of Inl er \<Rightarrow> Some er | Inr _ \<Rightarrow> None)) (ClientGet env addr [''status''] m)"

definition RemoteUpsertFrontend :: "api_env \<Rightarrow> string \<Rightarrow> eng_frontend \<Rightarrow> int \<Rightarrow> mem \<Rightarrow> err option go \<times> mem" where
  "RemoteUpsertFrontend env addr f ttl m =
     ClientPost env addr [''frontends'']
       (JObj [(''Frontend'', marshalFrontend f), (''TTL'', JStr (vc_DurationString (ae_checks env) ttl))]) m"

definition RemoteGetFrontend :: "api_env \<Rightarrow> string \<Rightarrow> string \<Rightarrow> mem \<Rightarrow> (err + eng_frontend) go \<times> mem" where
  "RemoteGetFrontend env addr k m =
     apfst (decoded (\<lambda>j. FrontendFromJSON (ae_checks env) j None)) (ClientGet env addr [''frontends'', k] m)"

definition RemoteGetFrontends :: "api_env \<Rightarrow> string \<Rightarrow> mem \<Rightarrow> (err + eng_frontend list) go \<times> mem" where
  "RemoteGetFrontends env addr m = apfst (decoded (FrontendsFromJSON (ae_checks env))) (ClientGet env addr [''frontends''] m)"

definition RemoteDeleteFrontend :: "api_env \<Rightarrow> string \<Rightarrow> string \<Rightarrow> mem \<Rightarrow> err option go \<times> mem" where
  "RemoteDeleteFrontend env addr k m = ClientDelete env addr [''frontends'', k] m"

definition RemoteUpsertBackend :: "api_env \<Rightarrow> string \<Rightarrow> eng_backend \<Rightarrow> mem \<Rightarrow> err option go \<times> mem" where
  "RemoteUpsertBackend env addr b m =
     ClientPost env addr [''backends''] (JObj [(''Backend'', marshalBackend b)]) m"

definition RemoteDeleteBackend :: "api_env \<Rightarrow> string \<Rightarrow> string \<Rightarrow> mem \<Rightarrow> err option go \<times> mem" where
  "RemoteDeleteBackend env addr k m = ClientDelete env addr [''backends'', k] m"

definition RemoteGetBackend :: "api_env \<Rightarrow> string \<Rightarrow> string \<Rightarrow> mem \<Rightarrow> (err + eng_backend) go \<times> mem" where
  "RemoteGetBackend env addr k m =
     apfst (decoded (\<lambda>j. BackendFromJSON (ae_checks env) j None)) (ClientGet env addr [''backends'', k] m)"

definition RemoteGetBackends :: "api_env \<Rightarrow> string \<Rightarrow> mem \<Rightarrow> (err + eng_backend list) go \<times> mem" where
  "RemoteGetBackends env addr m = apfst (decoded (BackendsFromJSON (ae_checks env))) (ClientGet env addr [''backends''] m)"

definition RemoteUpsertServer :: "api_env \<Rightarrow> string \<Rightarrow> string \<Rightarrow> eng_server \<Rightarrow> int \<Rightarrow> mem \<Rightarrow> err option go \<times> mem" where
  "RemoteUpsertServer env addr bk srv ttl m =
     ClientPost env addr [''backends'', bk, ''servers'']
       (JObj [(''Server'', marshalServer srv), (''TTL'', JStr (vc_DurationString (ae_checks env) ttl))]) m"

definition RemoteGetServer :: "api_env \<Rightarrow> string \<Rightarrow> string \<Rightarrow> string \<Rightarrow> mem \<Rightarrow> (err + eng_server) go \<times> mem" where
  "RemoteGetServer env addr bk sid m =
     apfst (decoded (\<lambda>j. ServerFromJSON (ae_checks env) j None)) (ClientGet env addr [''backends'', bk, ''servers'', sid] m)"

definition RemoteGetServers :: "api_env \<Rightarrow> string \<Rightarrow> string \<Rightarrow> mem \<Rightarrow> (err + eng_server list) go \<times> mem" where
  "RemoteGetServers env addr bk m =
     apfst (decoded (ServersFromJSON (ae_checks env))) (ClientGet env addr [''backends'', bk, ''servers''] m)"

definition RemoteDeleteServer :: "api_env \<Rightarrow> string \<Rightarrow> string \<Rightarrow> string \<Rightarrow> mem \<Rightarrow> err option go \<times> mem" where
  "RemoteDeleteServer env addr bk sid m = ClientDelete env addr [''backends'', bk, ''servers'', sid] m"

definition RemoteUpsertMiddleware :: "api_env \<Rightarrow> string \<Rightarrow> string \<Rightarrow> eng_middleware \<Rightarrow> int \<Rightarrow> mem \<Rightarrow> err option go \<times> mem" where
  "RemoteUpsertMiddleware env addr fk x ttl m =
     ClientPost env addr [''frontends'', fk, ''middlewares'']
       (JObj [(''Middleware'', marshalMiddleware (ae_plugin env) x), (''TTL'', JStr (vc_DurationString (ae_checks env) ttl))]) m"

definition RemoteGetMiddleware :: "api_env \<Rightarrow> string \<Rightarrow> string \<Rightarrow> string \<Rightarrow> mem \<Rightarrow> (err + eng_middleware) go \<times> mem" where
  "RemoteGetMiddleware env addr fk mid m =
     apfst (decoded (\<lambda>j. MiddlewareOfJSON (ae_spec env) j None)) (ClientGet env addr [''frontends'', fk, ''middlewares'', mid] m)"

definition RemoteGetMiddlewares :: "api_env \<Rightarrow> string \<Rightarrow> string \<Rightarrow> mem \<Rightarrow> (err + eng_middleware list) go \<times> mem" where
  "RemoteGetMiddlewares env addr fk m =
     apfst (decoded (MiddlewaresFromJSON (ae_spec env))) (ClientGet env addr [''frontends'', fk, ''middlewares''] m)"

definition RemoteDeleteMiddleware :: "api_env \<Rightarrow> string \<Rightarrow> string \<Rightarrow> string \<Rightarrow> mem \<Rightarrow> err option go \<times> mem" where
  "RemoteDeleteMiddleware env addr fk mid m = ClientDelete env addr [''frontends'', fk, ''middlewares'', mid] m"

definition RemoteGetHosts :: "api_env \<Rightarrow> string \<Rightarrow> mem \<Rightarrow> (err + host list) go \<times> mem" where
  "RemoteGetHosts env addr m = apfst (decoded HostsFromJSON) (ClientGet env addr [''hosts''] m)"

definition RemoteGetHost :: "api_env \<Rightarrow> string \<Rightarrow> string \<Rightarrow> mem \<Rightarrow> (err + host) go \<times> mem" where
  "RemoteGetHost env addr name m = apfst (decoded (\<lambda>j. HostFromJSON j None)) (ClientGet env addr [''hosts'', name] m)"

definition RemoteUpsertHost :: "api_env \<Rightarrow> string \<Rightarrow> host \<Rightarrow> mem \<Rightarrow> err option go \<times> mem" where
  "RemoteUpsertHost env addr h m = ClientPost env addr [''hosts''] (JObj [(''Host'', marshalHost h)]) m"

definition RemoteDeleteHost :: "api_env \<Rightarrow> string \<Rightarrow> string \<Rightarrow> mem \<Rightarrow> err option go \<times> mem" where
  "RemoteDeleteHost env addr name m = ClientDelete env addr [''hosts'', name] m"

definition RemoteUpsertListener :: "api_env \<Rightarrow> string \<Rightarrow> listener \<Rightarrow> mem \<Rightarrow> err option go \<times> mem" where
  "RemoteUpsertListener env addr l m =
     ClientPost env addr [''listeners''] (JObj [(''Listener'', marshalListener l), (''TTL'', JStr [])]) m"

definition RemoteGetListener :: "api_env \<Rightarrow> string \<Rightarrow> string \<Rightarrow> mem \<Rightarrow> (err + listener) go \<times> mem" where
  "RemoteGetListener env addr k m =
     apfst (decoded (\<lambda>j. ListenerFromJSON (ae_scope env) j None)) (ClientGet env addr [''listeners'', k] m)"

definition RemoteGetListeners :: "api_env \<Rightarrow> string \<Rightarrow> mem \<Rightarrow> (err + listener list) go \<times> mem" where
  "RemoteGetListeners env addr m = apfst (decoded (ListenersFromJSON (ae_scope env))) (ClientGet env addr [''listeners''] m)"

definition RemoteDeleteListener :: "api_env \<Rightarrow> string \<Rightarrow> string \<Rightarrow> mem \<Rightarrow> err option go \<times> mem" where
  "RemoteDeleteListener env addr k m = ClientDelete env addr [''listeners'', k] m"

text \<open>
  The client as an API for the provider. A panic of the client would end the program; as a result
  it is an error here, and the results below show that it does not happen.
\<close>

definition settleErr :: "err option go \<times> mem \<Rightarrow> err option \<times> mem" where
  "settleErr r = apfst (\<lambda>x. case x of None \<Rightarrow> Some (Err ''panic'') | Some e \<Rightarrow> e) r"

definition settleSum :: "(err + 'a) go \<times> mem \<Rightarrow> (err + 'a) \<times> mem" where
  "settleSum r = apfst (\<lambda>x. case x of None \<Rightarrow> Inl (Err ''panic'') | Some e \<Rightarrow> e) r"

definition http_api :: "api_env \<Rightarrow> string \<Rightarrow> mem vulcan_api" where
  "http_api env addr =
     \<lparr>va_GetStatus = (\<lambda>m. settleErr (RemoteGetStatus env addr m)),
      va_GetFrontend = (\<lambda>k m. settleSum (RemoteGetFrontend env addr k m)),
      va_UpsertFrontend = (\<lambda>f m. settleErr (RemoteUpsertFrontend env addr f 0 m)),
      va_DeleteFrontend = (\<lambda>k m. settleErr (RemoteDeleteFrontend env addr k m)),
      va_GetBackend = (\<lambda>k m. settleSum (RemoteGetBackend env addr k m)),
      va_UpsertBackend = (\<lambda>b m. settleErr (RemoteUpsertBackend env addr b m)),
      va_DeleteBackend = (\<lambda>k m. settleErr (RemoteDeleteBackend env addr k m)),
      va_GetServers = (\<lambda>bk m. settleSum (RemoteGetServers env addr bk m)),
      va_UpsertServer = (\<lambda>bk s m. settleErr (RemoteUpsertServer env addr bk s 0 m)),
      va_DeleteServer = (\<lambda>bk sid m. settleErr (RemoteDeleteServer env addr bk sid m)),
      va_UpsertMiddleware = (\<lambda>fk x m. settleErr (RemoteUpsertMiddleware env addr fk x 0 m))\<rparr>"

section \<open>A request reaches its handler\<close>

text \<open>The address of a server, and the elements that stand for themselves in a URL.\<close>

definition plain :: "string \<Rightarrow> bool" where
  "plain s \<longleftrightarrow> CHR ''?'' \<notin> set s \<and> CHR ''#'' \<notin> set s \<and> CHR ''%'' \<notin> set s"

definition server_addr :: "string \<Rightarrow> bool" where
  "server_addr addr \<longleftrightarrow> plain addr \<and>
     (case cut ''://'' addr of None \<Rightarrow> False | Some (scheme, h) \<Rightarrow> CHR ''/'' \<notin> set h)"

definition safe_elem :: "string \<Rightarrow> bool" where
  "safe_elem e \<longleftrightarrow> path_elem e \<and> plain e"

lemma cut_append: "cut sep s = Some (a, b) \<Longrightarrow> cut sep (s @ t) = Some (a, b @ t)"
proof (induction s arbitrary: a)
  case (Cons c cs)
  show ?case
  proof (cases "has_prefix (c # cs) sep")
    case True
    then obtain u where u: "c # cs = sep @ u" by (auto simp: has_prefix_iff)
    then have whole: "c # cs @ t = sep @ (u @ t)" by simp
    have "cut sep (c # cs @ t) = Some ([], u @ t)" unfolding cut.simps unfolding whole by simp
    moreover have "cut sep (c # cs) = Some ([], u)" unfolding cut.simps unfolding u by simp
    then have "a = []" "b = u" using Cons.prems by auto
    ultimately show ?thesis by simp
  next
    case False
    with Cons.prems obtain a' where a': "cut sep cs = Some (a', b)" "a = c # a'" by auto
    have len: "length sep \<le> length cs" using cut_Some_append [OF a'(1)] by simp
    then have "\<not> has_prefix (c # cs @ t) sep"
      using False by (cases sep) (auto simp: has_prefix_def)
    with a' Cons.IH False show ?thesis by simp
  qed
qed simp

lemma unescape_plain: "CHR ''%'' \<notin> set s \<Longrightarrow> unescape s = Some s"
  by (induction s) auto

lemma takeWhile_all: "c \<notin> set s \<Longrightarrow> takeWhile (\<lambda>d. d \<noteq> c) s = s"
  by (induction s) auto

lemma set_join: "c \<in> set (join sep es) \<Longrightarrow> c \<in> set sep \<or> (\<exists>e \<in> set es. c \<in> set e)"
  by (induction sep es rule: join.induct) auto

lemma plain_join: "\<forall>e \<in> set es. plain e \<Longrightarrow> plain (join ''/'' es)"
  unfolding plain_def using set_join [of _ "''/''" es] by fastforce

lemma last_join: "es \<noteq> [] \<Longrightarrow> \<forall>e \<in> set es. e \<noteq> [] \<Longrightarrow> last (join sep es) = last (last es) \<and> join sep es \<noteq> []"
  by (induction sep es rule: join.induct) auto

lemma urlPath_plain:
  assumes "server_addr addr" and "plain p"
  shows "urlPath (addr @ ''/'' @ p) = Some (''/'' @ p)"
proof -
  obtain scheme h where cut: "cut ''://'' addr = Some (scheme, h)" and h: "CHR ''/'' \<notin> set h"
    using assms(1) by (auto simp: server_addr_def split: option.splits)
  have "plain (addr @ ''/'' @ p)" using assms by (auto simp: server_addr_def plain_def)
  then have trim: "takeWhile (\<lambda>c. c \<noteq> CHR ''?'') (takeWhile (\<lambda>c. c \<noteq> CHR ''#'') (addr @ ''/'' @ p)) = addr @ ''/'' @ p"
    by (simp add: plain_def takeWhile_all)
  have "dropWhile (\<lambda>c. c \<noteq> CHR ''/'') (h @ ''/'' @ p) = ''/'' @ p" using h by (induction h) auto
  then show ?thesis
    unfolding urlPath_def trim Let_def split_n2_def cut_append [OF cut]
    using assms(2) unescape_plain by (simp add: plain_def)
qed

lemma urlPath_endpoint:
  assumes "server_addr addr" and "\<forall>e \<in> set es. safe_elem e" and "es \<noteq> []"
  shows "urlPath (endpoint addr es) = Some (''/'' @ join ''/'' (''v2'' # es))"
proof -
  have "endpoint addr es = addr @ ''/'' @ join ''/'' (''v2'' # es)" using assms(3) by (cases es) (simp_all add: endpoint_def)
  moreover have "plain (join ''/'' (''v2'' # es))"
    using plain_join [of "''v2'' # es"] assms(2) by (auto simp: safe_elem_def plain_def)
  ultimately show ?thesis using urlPath_plain [OF assms(1)] by simp
qed

lemma clean_endpoint:
  assumes "es \<noteq> []" and "\<forall>e \<in> set es. path_elem e"
  shows "cleanPath (''/'' @ join ''/'' es) = ''/'' @ join ''/'' es" and "tl (split_on CHR ''/'' (''/'' @ join ''/'' es)) = es"
proof -
  have "split_on CHR ''/'' (join ''/'' es) = es"
    using split_on_join [of es "CHR ''/''"] assms by (auto simp: path_elem_def)
  then show split: "tl (split_on CHR ''/'' (''/'' @ join ''/'' es)) = es" by (simp add: split_on_def)
  then have "path_clean (''/'' @ join ''/'' es) = ''/'' @ join ''/'' es"
    using fold_clean_step [OF assms(2), of True "[]"] by (simp add: path_clean_def split_on_def)
  moreover have "last es \<in> set es" "last (join ''/'' es) = last (last es)" "join ''/'' es \<noteq> []"
    using assms last_join [of es "''/''"] by (auto simp: path_elem_def)
  moreover from this have "last (last es) \<noteq> CHR ''/''"
    using assms(2) by (metis last_in_set path_elem_def)
  ultimately show "cleanPath (''/'' @ join ''/'' es) = ''/'' @ join ''/'' es" by (simp add: cleanPath_def)
qed

text \<open>What the client gets for the answer of a handler.\<close>

definition answered :: "reply \<Rightarrow> mem \<Rightarrow> (err + response) \<times> mem" where
  "answered r m =
     (case r of
        None \<Rightarrow> (Inl (Err ''EOF''), m)
      | Some (Inl e, m) \<Rightarrow>
          (case responseAndStatusFor e of (j, status) \<Rightarrow> (Inr \<lparr>rs_Status = status, rs_Body = Some j, rs_Location = []\<rparr>, m))
      | Some (Inr j, m) \<Rightarrow> (Inr \<lparr>rs_Status = 200, rs_Body = Some j, rs_Location = []\<rparr>, m))"

lemma send_safe:
  assumes "server_addr addr" and "\<forall>e \<in> set es. safe_elem e" and "es \<noteq> []"
  shows "send env meth (endpoint addr es) body m = answered (muxMatch env meth (''v2'' # es) body m) m"
proof -
  have "\<forall>e \<in> set (''v2'' # es). path_elem e" using assms(2) by (auto simp: safe_elem_def path_elem_def)
  note clean = clean_endpoint [OF _ this, simplified]
  have "follow env (Suc n) meth (''/'' @ join ''/'' (''v2'' # es)) body m = answered (muxMatch env meth (''v2'' # es) body m) m" for n
    using clean by (auto simp: ServeHTTP_def answered_def responseAndStatusFor_def split: option.split sum.split api_error.split)
  from this [of 9] show ?thesis
    by (simp add: send_def urlPath_endpoint [OF assms] eval_nat_numeral)
qed

section \<open>The client sees the engine\<close>

text \<open>What is left of an error of the engine at the other end.\<close>

definition wire :: "err \<Rightarrow> err" where
  "wire e =
     (case e of
        NotFound _ \<Rightarrow> NotFound (errText e)
      | AlreadyExists _ \<Rightarrow> AlreadyExists (errText e)
      | _ \<Rightarrow> Remote (errText e))"

lemma unStatus_messageDoc [simp]: "unPointer unStatus (messageDoc s) = Inr (Some s)"
  by (simp add: unStatus_def messageDoc_def json_simps)

lemma RoundTrip_formatError [simp]:
  "answered (Some (Inl (formatError e), m)) m0 = (r, m') \<Longrightarrow> RoundTrip r = Some (Inl (wire e)) \<and> m' = m"
  by (cases e) (auto simp: answered_def formatError_def responseAndStatusFor_def RoundTrip_def wire_def)

lemma RoundTrip_ok: "apfst RoundTrip (answered (Some (Inr j, m)) m0) = (Some (Inr (Some j)), m)"
  by (simp add: answered_def RoundTrip_def)

lemma RoundTrip_error: "apfst RoundTrip (answered (Some (Inl (formatError e), m)) m0) = (Some (Inl (wire e)), m)"
  using RoundTrip_formatError [of e m m0] by (cases "answered (Some (Inl (formatError e), m)) m0") auto

lemma apfst_RoundTrip: "apfst (\<lambda>r. f (RoundTrip r)) x = apfst f (apfst RoundTrip x)"
  by (cases x) simp

text \<open>The three shapes of a request, at its handler.\<close>

lemma ClientPost_upsert:
  assumes "server_addr addr" and "\<forall>e \<in> set es. safe_elem e" and "es \<noteq> []"
    and "muxMatch env ''POST'' (''v2'' # es) doc m = upsertWith (Some (Inr x)) up out m"
  shows "ClientPost env addr es doc m = (Some (map_option wire (fst (up x m))), snd (up x m))"
  unfolding ClientPost_def send_safe [OF assms(1-3)] assms(4) apfst_RoundTrip
  by (cases "up x m"; cases "fst (up x m)") (auto simp: upsertWith_def formatResult_def RoundTrip_ok RoundTrip_error)

lemma ClientDelete_delete:
  assumes "server_addr addr" and "\<forall>e \<in> set es. safe_elem e" and "es \<noteq> []"
    and "muxMatch env ''DELETE'' (''v2'' # es) JNull m = deleteWith r msg"
  shows "ClientDelete env addr es m = (Some (map_option wire (fst r)), snd r)"
  unfolding ClientDelete_def send_safe [OF assms(1-3)] assms(4) apfst_RoundTrip
  by (cases r; cases "fst r") (auto simp: deleteWith_def RoundTrip_ok RoundTrip_error)

lemma ClientGet_get:
  assumes "server_addr addr" and "\<forall>e \<in> set es. safe_elem e" and "es \<noteq> []"
    and "muxMatch env ''GET'' (''v2'' # es) JNull m = getWith r out"
    and "\<And>x. fst r = Inr x \<Longrightarrow> dec (out x) = Some (Inr x)"
  shows "apfst (decoded dec) (ClientGet env addr es m) = (Some (map_sum wire id (fst r)), snd r)"
  unfolding ClientGet_def send_safe [OF assms(1-3)] assms(4)
  using assms(5)
  by (cases r; cases "fst r") (auto simp: getWith_def formatResult_def RoundTrip_ok RoundTrip_error decoded_def)

lemma ClientGet_list:
  assumes "server_addr addr" and "\<forall>e \<in> set es. safe_elem e" and "es \<noteq> []"
    and "muxMatch env ''GET'' (''v2'' # es) JNull m = listWith onError (Inr xs, m) name out"
    and "dec (JObj [(name, JArr (map out xs))]) = Some (Inr xs)"
  shows "apfst (decoded dec) (ClientGet env addr es m) = (Some (Inr xs), m)"
  unfolding ClientGet_def send_safe [OF assms(1-3)] assms(4)
  using assms(5) by (simp add: listWith_def RoundTrip_ok decoded_def)

lemma safe_words [simp]:
  "safe_elem ''status''" "safe_elem ''frontends''" "safe_elem ''backends''" "safe_elem ''servers''" "safe_elem ''middlewares''"
  by (simp_all add: safe_elem_def path_elem_def plain_def)

lemma safe_nonempty: "safe_elem k \<Longrightarrow> k \<noteq> []"
  by (simp add: safe_elem_def path_elem_def)

lemmas mux_simps = muxMatch_def muxCollection_def muxObject_def muxParts_def muxPart_def

text \<open>The packs the client sends, read by the server.\<close>

lemma parsePack_doc [simp]:
  "to_lower name \<noteq> ''ttl'' \<Longrightarrow> parsePack name dec (JObj [(name, d), (''TTL'', t)]) = dec d"
  "parsePack name dec (JObj [(name, d)]) = dec d"
  by (simp_all add: parsePack_def packField_def json_simps)

lemma parsePackTTL_doc:
  assumes "vc_ParseDuration vc ttl = Inr t" and "dec d = Some (Inr x)" and "to_lower name \<noteq> ''ttl''"
  shows "\<exists>t. parsePackTTL vc name dec (JObj [(name, d), (''TTL'', JStr ttl)]) = Some (Inr (x, t))"
  using assms by (simp add: parsePackTTL_def parseTTL_def json_simps)

section \<open>What a server holds\<close>

text \<open>
  The objects a server can hold: valid ones, each under its own identifier, and no frontend
  without its backend.
\<close>

definition entries_ok :: "('k \<Rightarrow> 'v \<Rightarrow> bool) \<Rightarrow> ('k, 'v) gomap \<Rightarrow> bool" where
  "entries_ok P g \<longleftrightarrow> (\<forall>e \<in> set g. P (fst e) (snd e))"

definition mem_sound :: "vulcan_checks \<Rightarrow> mem \<Rightarrow> bool" where
  "mem_sound vc m \<longleftrightarrow> mem_wf m \<and>
     entries_ok (\<lambda>k f. ef_Id f = k \<and> valid_frontend vc f \<and> gm_get (m_Backends m) (ef_BackendId f) \<noteq> None) (m_Frontends m) \<and>
     entries_ok (\<lambda>k b. eb_Id b = k \<and> valid_backend vc b) (m_Backends m) \<and>
     entries_ok (\<lambda>_. list_all (valid_server vc)) (m_Servers m)"

lemma entries_ok_put: "entries_ok P g \<Longrightarrow> P k v \<Longrightarrow> entries_ok P (gm_put k v g)"
  unfolding entries_ok_def using set_gm_put [of k v g] by fastforce

lemma entries_ok_del: "entries_ok P g \<Longrightarrow> entries_ok P (gm_del k g)"
  by (auto simp: entries_ok_def gm_del_def)

lemma entries_ok_get: "entries_ok P g \<Longrightarrow> gm_get g k = Some v \<Longrightarrow> P k v"
  by (force simp: entries_ok_def dest: map_of_SomeD)

lemma entries_ok_mono: "entries_ok P g \<Longrightarrow> (\<And>k v. (k, v) \<in> set g \<Longrightarrow> P k v \<Longrightarrow> Q k v) \<Longrightarrow> entries_ok Q g"
  by (auto simp: entries_ok_def)

lemma list_all_upsert: "list_all P ys \<Longrightarrow> P x \<Longrightarrow> list_all P (list_upsert idf x ys)"
  by (induction ys) auto

lemma list_all_remove: "list_remove idf k ys = Some zs \<Longrightarrow> list_all P ys \<Longrightarrow> list_all P zs"
  by (induction ys arbitrary: zs) (auto split: if_splits)

lemma mem_sound_frame [simp]:
  "mem_sound vc (emit c m) = mem_sound vc m" "mem_sound vc (m\<lparr>m_Hosts := h\<rparr>) = mem_sound vc m"
  "mem_sound vc (m\<lparr>m_Listeners := l\<rparr>) = mem_sound vc m"
  by (simp_all add: mem_sound_def mem_wf_def)

lemma mem_sound_NewMem: "mem_sound vc NewMem"
  by (simp add: mem_sound_def) (simp add: NewMem_def entries_ok_def)

lemma mem_sound_middlewares: "mem_sound vc m \<Longrightarrow> gm_wf g \<Longrightarrow> mem_sound vc (m\<lparr>m_Middlewares := g\<rparr>)"
  by (simp add: mem_sound_def mem_wf_def)

lemma mem_sound_wf: "mem_sound vc m \<Longrightarrow> mem_wf m"
  by (simp add: mem_sound_def)

lemma sound_frontend:
  assumes "mem_sound vc m"
  shows "valid_frontend vc f \<Longrightarrow> mem_sound vc (snd (MemUpsertFrontend f m))"
    and "mem_sound vc (snd (MemDeleteFrontend k m))"
  using assms
  by (auto simp: mem_sound_def mem_wf_def MemUpsertFrontend_def MemDeleteFrontend_def Let_def
      intro!: entries_ok_put entries_ok_del)

lemma sound_backend:
  assumes "mem_sound vc m" and "valid_backend vc b"
  shows "mem_sound vc (snd (MemUpsertBackend b m))"
proof -
  have wf: "gm_wf (m_Backends m)" using assms(1) by (simp add: mem_sound_def mem_wf_def)
  have "entries_ok (\<lambda>k f. ef_Id f = k \<and> valid_frontend vc f \<and> gm_get (gm_put (eb_Id b) b (m_Backends m)) (ef_BackendId f) \<noteq> None)
      (m_Frontends m)"
    using assms(1) wf unfolding mem_sound_def by (auto elim!: entries_ok_mono)
  then show ?thesis
    using assms by (auto simp: mem_sound_def mem_wf_def MemUpsertBackend_def Let_def intro!: entries_ok_put)
qed

lemma sound_delete_backend:
  assumes "mem_sound vc m"
  shows "mem_sound vc (snd (MemDeleteBackend k m))"
proof (cases "\<exists>f \<in> set (map snd (m_Frontends m)). ef_BackendId f = k")
  case True
  with assms show ?thesis by (simp add: MemDeleteBackend_def)
next
  case False
  then have "entries_ok (\<lambda>i f. ef_Id f = i \<and> valid_frontend vc f \<and> gm_get (gm_del k (m_Backends m)) (ef_BackendId f) \<noteq> None)
      (m_Frontends m)"
    using assms unfolding mem_sound_def by (auto elim!: entries_ok_mono)
  with False assms show ?thesis
    by (auto simp: mem_sound_def mem_wf_def MemDeleteBackend_def Let_def intro!: entries_ok_del)
qed

lemma sound_server:
  assumes "mem_sound vc m"
  shows "valid_server vc s \<Longrightarrow> mem_sound vc (snd (MemUpsertServer bk s m))" and "mem_sound vc (snd (MemDeleteServer bk sid m))"
proof -
  have srv: "entries_ok (\<lambda>_. list_all (valid_server vc)) (m_Servers m)" using assms by (simp add: mem_sound_def)
  show "mem_sound vc (snd (MemUpsertServer bk s m))" if "valid_server vc s"
    using that assms mem_wf_upsert_server [OF mem_sound_wf [OF assms], of bk s] entries_ok_get [OF srv]
    by (auto simp: mem_sound_def MemUpsertServer_def split: option.split intro!: entries_ok_put list_all_upsert)
  show "mem_sound vc (snd (MemDeleteServer bk sid m))"
    using assms mem_wf_delete_server [OF mem_sound_wf [OF assms], of bk sid] entries_ok_get [OF srv, of bk]
    by (auto simp: mem_sound_def MemDeleteServer_def split: option.split intro!: entries_ok_put elim!: list_all_remove)
qed

text \<open>The handlers keep it, whatever they are sent.\<close>

lemma upsertWith_keeps:
  "upsertWith parsed up out m = Some (r, m') \<Longrightarrow> P m \<Longrightarrow> (\<And>x. parsed = Some (Inr x) \<Longrightarrow> P (snd (up x m))) \<Longrightarrow> P m'"
  by (force simp: upsertWith_def split: option.splits sum.splits prod.splits)

lemma deleteWith_state: "deleteWith x msg = Some (r, m') \<Longrightarrow> m' = snd x"
  by (auto simp: deleteWith_def split: prod.splits option.splits)

lemma getWith_state: "getWith x out = Some (r, m') \<Longrightarrow> m' = snd x"
  by (auto simp: getWith_def split: prod.splits)

lemma listWith_state: "listWith onError x name out = Some (r, m') \<Longrightarrow> m' = snd x"
  by (auto simp: listWith_def split: prod.splits sum.splits)

lemma parsePack_Inr: "parsePack name dec v = Some (Inr x) \<Longrightarrow> \<exists>j. dec j = Some (Inr x)"
  by (auto simp: parsePack_def split: sum.splits)

lemma parsePackTTL_Inr: "parsePackTTL vc name dec v = Some (Inr (x, t)) \<Longrightarrow> \<exists>j. dec j = Some (Inr x)"
  by (auto simp: parsePackTTL_def and_then_Inr split: sum.splits dest!: parsePack_Inr)

lemma parsed_valid:
  "parseFrontendPack vc v = Some (Inr (f, t)) \<Longrightarrow> valid_frontend vc f"
  "parseBackendPack vc v = Some (Inr b) \<Longrightarrow> valid_backend vc b"
  "parseServerPack vc v = Some (Inr (s, t)) \<Longrightarrow> valid_server vc s"
  unfolding parseFrontendPack_def parseBackendPack_def parseServerPack_def
  by (blast dest: parsePack_Inr parsePackTTL_Inr FrontendFromJSON_valid BackendFromJSON_valid ServerFromJSON_valid)+

lemma upserts_keep_sound:
  assumes "mem_sound (ae_checks env) m"
  shows "upsertHost body m = Some (r, m') \<Longrightarrow> mem_sound (ae_checks env) m'"
    and "upsertListener env body m = Some (r, m') \<Longrightarrow> mem_sound (ae_checks env) m'"
    and "upsertFrontend env body m = Some (r, m') \<Longrightarrow> mem_sound (ae_checks env) m'"
    and "upsertBackend env body m = Some (r, m') \<Longrightarrow> mem_sound (ae_checks env) m'"
    and "upsertServer env k body m = Some (r, m') \<Longrightarrow> mem_sound (ae_checks env) m'"
    and "upsertMiddleware env k body m = Some (r, m') \<Longrightarrow> mem_sound (ae_checks env) m'"
proof -
  note keeps = upsertWith_keeps [where P = "mem_sound (ae_checks env)", OF _ assms]
  show "upsertHost body m = Some (r, m') \<Longrightarrow> mem_sound (ae_checks env) m'"
    unfolding upsertHost_def by (erule keeps) (simp add: MemUpsertHost_def assms)
  show "upsertListener env body m = Some (r, m') \<Longrightarrow> mem_sound (ae_checks env) m'"
    unfolding upsertListener_def by (erule keeps) (simp add: MemUpsertListener_def assms)
  show "upsertFrontend env body m = Some (r, m') \<Longrightarrow> mem_sound (ae_checks env) m'"
    unfolding upsertFrontend_def by (erule keeps) (auto intro: sound_frontend(1) [OF assms] parsed_valid(1))
  show "upsertBackend env body m = Some (r, m') \<Longrightarrow> mem_sound (ae_checks env) m'"
    unfolding upsertBackend_def by (erule keeps) (auto intro: sound_backend [OF assms] parsed_valid(2))
  show "upsertServer env k body m = Some (r, m') \<Longrightarrow> mem_sound (ae_checks env) m'"
    unfolding upsertServer_def by (erule keeps) (auto intro: sound_server(1) [OF assms] parsed_valid(3))
  have "gm_wf (m_Middlewares m)" using assms by (simp add: mem_sound_def mem_wf_def)
  then show "upsertMiddleware env k body m = Some (r, m') \<Longrightarrow> mem_sound (ae_checks env) m'"
    unfolding upsertMiddleware_def
    by (elim keeps) (auto simp: MemUpsertMiddleware_def assms intro!: mem_sound_middlewares)
qed

lemma deletes_keep_sound:
  assumes "mem_sound vc m"
  shows "deleteHost k m = Some (r, m') \<Longrightarrow> mem_sound vc m'" and "deleteListener k m = Some (r, m') \<Longrightarrow> mem_sound vc m'"
    and "deleteFrontend k m = Some (r, m') \<Longrightarrow> mem_sound vc m'" and "deleteBackend k m = Some (r, m') \<Longrightarrow> mem_sound vc m'"
    and "deleteServer k i m = Some (r, m') \<Longrightarrow> mem_sound vc m'" and "deleteMiddleware k i m = Some (r, m') \<Longrightarrow> mem_sound vc m'"
proof -
  have wf: "gm_wf (m_Middlewares m)" using assms by (simp add: mem_sound_def mem_wf_def)
  have "mem_sound vc (snd (MemDeleteHost k m))" "mem_sound vc (snd (MemDeleteListener k m))"
    using assms by (simp_all add: MemDeleteHost_def MemDeleteListener_def)
  moreover have "mem_sound vc (snd (MemDeleteMiddleware k i m))"
    using assms wf by (auto simp: MemDeleteMiddleware_def mem_sound_middlewares split: option.split)
  note sound = calculation this sound_frontend(2) [OF assms] sound_delete_backend [OF assms] sound_server(2) [OF assms]
  show "deleteHost k m = Some (r, m') \<Longrightarrow> mem_sound vc m'" "deleteListener k m = Some (r, m') \<Longrightarrow> mem_sound vc m'"
    "deleteFrontend k m = Some (r, m') \<Longrightarrow> mem_sound vc m'" "deleteBackend k m = Some (r, m') \<Longrightarrow> mem_sound vc m'"
    "deleteServer k i m = Some (r, m') \<Longrightarrow> mem_sound vc m'" "deleteMiddleware k i m = Some (r, m') \<Longrightarrow> mem_sound vc m'"
    unfolding deleteHost_def deleteListener_def deleteFrontend_def deleteBackend_def deleteServer_def deleteMiddleware_def
    by (drule deleteWith_state, simp add: sound)+
qed

lemma gets_keep_state:
  "getStatus m = Some (r, m') \<Longrightarrow> m' = m" "handleError m = Some (r, m') \<Longrightarrow> m' = m"
  "getHosts env m = Some (r, m') \<Longrightarrow> m' = m" "getHost k m = Some (r, m') \<Longrightarrow> m' = m"
  "getListeners env m = Some (r, m') \<Longrightarrow> m' = m" "getListener k m = Some (r, m') \<Longrightarrow> m' = m"
  "getFrontends env m = Some (r, m') \<Longrightarrow> m' = m" "apiGetFrontend k m = Some (r, m') \<Longrightarrow> m' = m"
  "getBackends env m = Some (r, m') \<Longrightarrow> m' = m" "apiGetBackend k m = Some (r, m') \<Longrightarrow> m' = m"
  "apiGetServers k m = Some (r, m') \<Longrightarrow> m' = m" "getServer k i m = Some (r, m') \<Longrightarrow> m' = m"
  "getMiddlewares env k m = Some (r, m') \<Longrightarrow> m' = m" "getMiddleware env k i m = Some (r, m') \<Longrightarrow> m' = m"
  unfolding getStatus_def handleError_def getHosts_def getHost_def getListeners_def getListener_def getFrontends_def apiGetFrontend_def
    getBackends_def apiGetBackend_def apiGetServers_def getServer_def getMiddlewares_def getMiddleware_def
  by (auto dest!: getWith_state listWith_state simp: MemGetHosts_def MemGetHost_def MemGetListeners_def MemGetListener_def
      MemGetFrontends_def MemGetFrontend_def MemGetBackends_def MemGetBackend_def MemGetServers_def MemGetServer_def
      MemGetMiddlewares_def MemGetMiddleware_def)

lemma muxMatch_keeps_sound:
  assumes "mem_sound (ae_checks env) m" and "muxMatch env meth segs body m = Some (r, m')"
  shows "mem_sound (ae_checks env) m'"
proof -
  note keep = upserts_keep_sound [OF assms(1)] deletes_keep_sound [OF assms(1)]
  have "mem_sound (ae_checks env) m'" if "handleError m = Some (r, m')"
    using gets_keep_state(2) [OF that] assms(1) by simp
  moreover have "mem_sound (ae_checks env) m'" if "muxCollection env meth coll body m = Some (r, m')" for coll
    using that assms(1) unfolding muxCollection_def by (auto split: if_splits dest: gets_keep_state keep)
  moreover have "mem_sound (ae_checks env) m'" if "muxObject meth coll k m = Some (r, m')" for coll k
    using that assms(1) unfolding muxObject_def by (auto split: if_splits dest: gets_keep_state keep)
  moreover have "mem_sound (ae_checks env) m'" if "muxParts env meth coll k sub body m = Some (r, m')" for coll k sub
    using that assms(1) unfolding muxParts_def by (auto split: if_splits dest: gets_keep_state keep)
  moreover have "mem_sound (ae_checks env) m'" if "muxPart env meth coll k sub i m = Some (r, m')" for coll k sub i
    using that assms(1) unfolding muxPart_def by (auto split: if_splits dest: gets_keep_state keep)
  ultimately show ?thesis
    using assms unfolding muxMatch_def by (auto split: list.splits if_splits)
qed

lemma ServeHTTP_keeps_sound:
  assumes "mem_sound (ae_checks env) m" and "ServeHTTP env meth path body m = Some (r, m')"
  shows "mem_sound (ae_checks env) m'"
  using assms muxMatch_keeps_sound [OF assms(1)]
  by (auto simp: ServeHTTP_def split: if_splits option.splits prod.splits sum.splits)

inductive served :: "api_env \<Rightarrow> mem \<Rightarrow> bool" for env :: api_env where
  fresh: "served env NewMem"
| request: "served env m \<Longrightarrow> ServeHTTP env meth path body m = Some (r, m') \<Longrightarrow> served env m'"

lemma served_sound: "served env m \<Longrightarrow> mem_sound (ae_checks env) m"
  by (induction rule: served.induct) (auto intro: mem_sound_NewMem ServeHTTP_keeps_sound)

section \<open>The operations over the network\<close>

text \<open>What each operation of the client gives, in terms of the engine's own.\<close>

definition wireErr :: "err option \<times> mem \<Rightarrow> err option \<times> mem" where
  "wireErr r = map_prod (map_option wire) id r"

definition wireSum :: "(err + 'a) \<times> mem \<Rightarrow> (err + 'a) \<times> mem" where
  "wireSum r = map_prod (map_sum wire id) id r"

lemma settle_wire:
  "settleErr (Some (map_option wire (fst r)), snd r) = wireErr r"
  "settleSum (Some (map_sum wire id (fst q)), snd q) = wireSum q"
  by (simp_all add: settleErr_def settleSum_def wireErr_def wireSum_def map_prod_def split: prod.split)

text \<open>The client prints a time to live that the server can read.\<close>

definition ttl_readable :: "vulcan_checks \<Rightarrow> bool" where
  "ttl_readable vc \<longleftrightarrow> (case vc_ParseDuration vc (vc_DurationString vc 0) of Inl _ \<Rightarrow> False | Inr _ \<Rightarrow> True)"

lemma http_GetStatus:
  assumes "server_addr addr"
  shows "va_GetStatus (http_api env addr) m = wireErr (va_GetStatus mem_api m)"
proof -
  have "ClientGet env addr [''status''] m = (Some (Inr (Some (JObj [(''Status'', JStr ''ok'')]))), m)"
    unfolding ClientGet_def using send_safe [OF assms, of "[''status'']"]
    by (simp add: mux_simps getStatus_def RoundTrip_ok)
  then show ?thesis by (simp add: http_api_def mem_api_def RemoteGetStatus_def settleErr_def wireErr_def)
qed

lemma http_Get:
  assumes "server_addr addr" and "safe_elem k" and "mem_sound (ae_checks env) m"
  shows "va_GetFrontend (http_api env addr) k m = wireSum (va_GetFrontend mem_api k m)"
    and "va_GetBackend (http_api env addr) k m = wireSum (va_GetBackend mem_api k m)"
proof -
  have fs: "entries_ok (\<lambda>k f. ef_Id f = k \<and> valid_frontend (ae_checks env) f \<and> gm_get (m_Backends m) (ef_BackendId f) \<noteq> None)
      (m_Frontends m)"
    and bs: "entries_ok (\<lambda>k b. eb_Id b = k \<and> valid_backend (ae_checks env) b) (m_Backends m)"
    using assms(3) unfolding mem_sound_def by blast+
  have "FrontendFromJSON (ae_checks env) (marshalFrontend f) None = Some (Inr f)" if "fst (MemGetFrontend k m) = Inr f" for f
    using that entries_ok_get [OF fs] by (auto simp: MemGetFrontend_def FrontendFromJSON_marshal split: option.splits)
  then show "va_GetFrontend (http_api env addr) k m = wireSum (va_GetFrontend mem_api k m)"
    using assms(2) safe_nonempty [OF assms(2)]
    by (simp add: http_api_def mem_api_def RemoteGetFrontend_def settle_wire
        ClientGet_get [OF assms(1), where r = "MemGetFrontend k m" and out = marshalFrontend] mux_simps apiGetFrontend_def)
  have "BackendFromJSON (ae_checks env) (marshalBackend b) None = Some (Inr b)" if "fst (MemGetBackend k m) = Inr b" for b
    using that entries_ok_get [OF bs] by (auto simp: MemGetBackend_def BackendFromJSON_marshal split: option.splits)
  then show "va_GetBackend (http_api env addr) k m = wireSum (va_GetBackend mem_api k m)"
    using assms(2) safe_nonempty [OF assms(2)]
    by (simp add: http_api_def mem_api_def RemoteGetBackend_def settle_wire
        ClientGet_get [OF assms(1), where r = "MemGetBackend k m" and out = marshalBackend] mux_simps apiGetBackend_def)
qed

lemma http_GetServers:
  assumes "server_addr addr" and "safe_elem bk" and "mem_sound (ae_checks env) m"
  shows "va_GetServers (http_api env addr) bk m = wireSum (va_GetServers mem_api bk m)"
proof -
  have ss: "entries_ok (\<lambda>_. list_all (valid_server (ae_checks env))) (m_Servers m)"
    using assms(3) unfolding mem_sound_def by blast
  let ?xs = "case gm_get (m_Servers m) bk of None \<Rightarrow> [] | Some vals \<Rightarrow> vals"
  have "list_all (valid_server (ae_checks env)) ?xs" using entries_ok_get [OF ss] by (simp split: option.split)
  then have "ServersFromJSON (ae_checks env) (JObj [(''Servers'', JArr (map marshalServer ?xs))]) = Some (Inr ?xs)"
    unfolding ServersFromJSON_def by (intro collection_inverse) (auto simp: list_all_iff ServerFromJSON_marshal)
  then show ?thesis
    using assms(2) safe_nonempty [OF assms(2)]
    by (simp add: http_api_def mem_api_def RemoteGetServers_def MemGetServers_def settleSum_def wireSum_def
        ClientGet_list [OF assms(1), where xs = ?xs and out = marshalServer and name = "''Servers''" and onError = formatError]
        mux_simps apiGetServers_def)
qed

lemma http_Delete:
  assumes "server_addr addr" and "safe_elem k"
  shows "va_DeleteFrontend (http_api env addr) k m = wireErr (va_DeleteFrontend mem_api k m)"
    and "va_DeleteBackend (http_api env addr) k m = wireErr (va_DeleteBackend mem_api k m)"
    and "safe_elem sid \<Longrightarrow> va_DeleteServer (http_api env addr) k sid m = wireErr (va_DeleteServer mem_api k sid m)"
  using assms(2) safe_nonempty
  by (simp_all add: http_api_def mem_api_def RemoteDeleteFrontend_def RemoteDeleteBackend_def RemoteDeleteServer_def settle_wire
      ClientDelete_delete [OF assms(1), where r = "MemDeleteFrontend k m"] ClientDelete_delete [OF assms(1), where r = "MemDeleteBackend k m"]
      ClientDelete_delete [OF assms(1), where r = "MemDeleteServer k sid m"] mux_simps deleteFrontend_def deleteBackend_def deleteServer_def)

lemma ttl_pack:
  assumes "ttl_readable vc" and "dec d = Some (Inr x)" and "to_lower name \<noteq> ''ttl''"
  obtains t where "parsePackTTL vc name dec (JObj [(name, d), (''TTL'', JStr (vc_DurationString vc 0))]) = Some (Inr (x, t))"
  using assms parsePackTTL_doc [of vc "vc_DurationString vc 0" _ dec d x name] by (auto simp: ttl_readable_def split: sum.splits)

lemma http_UpsertBackend:
  assumes "server_addr addr" and "valid_backend (ae_checks env) b"
  shows "va_UpsertBackend (http_api env addr) b m = wireErr (va_UpsertBackend mem_api b m)"
proof -
  have "muxMatch env ''POST'' [''v2'', ''backends''] (JObj [(''Backend'', marshalBackend b)]) m =
      upsertWith (Some (Inr b)) MemUpsertBackend marshalBackend m"
    by (simp add: mux_simps upsertBackend_def parseBackendPack_def BackendFromJSON_marshal [OF assms(2)])
  from ClientPost_upsert [OF assms(1) _ _ this] show ?thesis
    by (simp add: http_api_def mem_api_def RemoteUpsertBackend_def settle_wire)
qed

lemma http_UpsertFrontend:
  assumes "server_addr addr" and "ttl_readable (ae_checks env)" and "valid_frontend (ae_checks env) f"
  shows "va_UpsertFrontend (http_api env addr) f m = wireErr (va_UpsertFrontend mem_api f m)"
proof -
  let ?doc = "JObj [(''Frontend'', marshalFrontend f), (''TTL'', JStr (vc_DurationString (ae_checks env) 0))]"
  obtain t where "parseFrontendPack (ae_checks env) ?doc = Some (Inr (f, t))"
    unfolding parseFrontendPack_def
    using ttl_pack [where dec = "\<lambda>j. FrontendFromJSON (ae_checks env) j None" and name = "''Frontend''",
        OF assms(2) FrontendFromJSON_marshal [OF assms(3)]] by (auto simp: lower_keys)
  then have "muxMatch env ''POST'' [''v2'', ''frontends''] ?doc m =
      upsertWith (Some (Inr (f, t))) (\<lambda>(f, ttl). MemUpsertFrontend f) (\<lambda>(f, ttl). marshalFrontend f) m"
    by (simp add: mux_simps upsertFrontend_def)
  from ClientPost_upsert [OF assms(1) _ _ this] show ?thesis
    by (simp add: http_api_def mem_api_def RemoteUpsertFrontend_def settle_wire)
qed

lemma http_UpsertServer:
  assumes "server_addr addr" and "ttl_readable (ae_checks env)" and "safe_elem bk" and "valid_server (ae_checks env) srv"
  shows "va_UpsertServer (http_api env addr) bk srv m = wireErr (va_UpsertServer mem_api bk srv m)"
proof -
  let ?doc = "JObj [(''Server'', marshalServer srv), (''TTL'', JStr (vc_DurationString (ae_checks env) 0))]"
  obtain t where "parseServerPack (ae_checks env) ?doc = Some (Inr (srv, t))"
    unfolding parseServerPack_def
    using ttl_pack [where dec = "\<lambda>j. ServerFromJSON (ae_checks env) j None" and name = "''Server''",
        OF assms(2) ServerFromJSON_marshal [OF assms(4)]] by (auto simp: lower_keys)
  then have "muxMatch env ''POST'' [''v2'', ''backends'', bk, ''servers''] ?doc m =
      upsertWith (Some (Inr (srv, t))) (\<lambda>(s, ttl). MemUpsertServer bk s) (\<lambda>(s, ttl). marshalServer s) m"
    using safe_nonempty [OF assms(3)] by (simp add: mux_simps upsertServer_def)
  from ClientPost_upsert [OF assms(1) _ _ this] assms(3) show ?thesis
    by (simp add: http_api_def mem_api_def RemoteUpsertServer_def settle_wire)
qed

lemma http_UpsertMiddleware:
  assumes "server_addr addr" and "ttl_readable (ae_checks env)" and "safe_elem fk"
    and "valid_middleware (ae_plugin env) (ae_spec env) x"
  shows "va_UpsertMiddleware (http_api env addr) fk x m = wireErr (va_UpsertMiddleware mem_api fk x m)"
proof -
  let ?doc = "JObj [(''Middleware'', marshalMiddleware (ae_plugin env) x), (''TTL'', JStr (vc_DurationString (ae_checks env) 0))]"
  obtain t where "parseMiddlewarePack (ae_checks env) (ae_spec env) ?doc = Some (Inr (x, t))"
    unfolding parseMiddlewarePack_def
    using ttl_pack [where dec = "\<lambda>j. MiddlewareOfJSON (ae_spec env) j None" and name = "''Middleware''",
        OF assms(2) MiddlewareOfJSON_marshal [OF assms(4)]] by (auto simp: lower_keys)
  then have "muxMatch env ''POST'' [''v2'', ''frontends'', fk, ''middlewares''] ?doc m =
      upsertWith (Some (Inr (x, t))) (\<lambda>(x, ttl). MemUpsertMiddleware fk x) (\<lambda>(x, ttl). marshalMiddleware (ae_plugin env) x) m"
    using safe_nonempty [OF assms(3)] by (simp add: mux_simps upsertMiddleware_def)
  from ClientPost_upsert [OF assms(1) _ _ this] assms(3) show ?thesis
    by (simp add: http_api_def mem_api_def RemoteUpsertMiddleware_def settle_wire)
qed

section \<open>Properties\<close>


definition sample_api :: api_env where
  "sample_api = \<lparr>ae_checks = sample_json_checks, ae_scope = (\<lambda>_. True), ae_plugin = JStr,
     ae_spec = (\<lambda>t. if t = ''trace'' then Some (\<lambda>d. case d of Some (JStr s) \<Rightarrow> Inr s | _ \<Rightarrow> Inl badType) else None),
     ae_range = (\<lambda>ks. ks), ae_rest = (\<lambda>_ _. Inl (NotFoundError []))\<rparr>"

definition sample_web_backend :: eng_backend where
  "sample_web_backend = \<lparr>eb_Id = ''ns.web'', eb_Type = ''http'', eb_Settings = zeroBackendSettings\<rparr>"

definition sample_web_server :: eng_server where
  "sample_web_server = \<lparr>es_Id = ''s1'', es_URL = ''http://10.0.0.1:80''\<rparr>"

definition sample_served :: mem where
  "sample_served = snd (RemoteUpsertServer sample_api ''http://vulcand:8182'' ''ns.web'' sample_web_server 0
     (snd (RemoteUpsertBackend sample_api ''http://vulcand:8182'' sample_web_backend NewMem)))"


text \<open>
  C13: The API over HTTP is the engine: through the client, the routes and the handlers every
  operation has the effect and the result of the engine's own, with an error rewritten as the
  status and the message tell it (a missing object stays one). This is so for identifiers that
  stand for themselves in a URL and for valid objects, on what a server can hold.
\<close>

theorem http_api_mirrors_engine:
  assumes "server_addr addr" and "mem_sound (ae_checks env) m" and "ttl_readable (ae_checks env)"
    and "safe_elem k" and "safe_elem sid"
    and "valid_frontend (ae_checks env) f" and "valid_backend (ae_checks env) b" and "valid_server (ae_checks env) srv"
    and "valid_middleware (ae_plugin env) (ae_spec env) x"
  shows "let api = http_api env addr in
     va_GetStatus api m = (None, m) \<and>
     va_GetFrontend api k m = wireSum (MemGetFrontend k m) \<and> va_UpsertFrontend api f m = wireErr (MemUpsertFrontend f m) \<and>
     va_DeleteFrontend api k m = wireErr (MemDeleteFrontend k m) \<and> va_GetBackend api k m = wireSum (MemGetBackend k m) \<and>
     va_UpsertBackend api b m = wireErr (MemUpsertBackend b m) \<and> va_DeleteBackend api k m = wireErr (MemDeleteBackend k m) \<and>
     va_GetServers api k m = wireSum (MemGetServers k m) \<and> va_UpsertServer api k srv m = wireErr (MemUpsertServer k srv m) \<and>
     va_DeleteServer api k sid m = wireErr (MemDeleteServer k sid m) \<and>
     va_UpsertMiddleware api k x m = wireErr (MemUpsertMiddleware k x m)"
  unfolding Let_def http_GetStatus [OF assms(1)] http_Get [OF assms(1,4,2)] http_GetServers [OF assms(1,4,2)]
    http_Delete(1,2) [OF assms(1,4)] http_Delete(3) [OF assms(1,4,5)] http_UpsertBackend [OF assms(1,7)]
    http_UpsertFrontend [OF assms(1,3,6)] http_UpsertServer [OF assms(1,3,4,8)] http_UpsertMiddleware [OF assms(1,3,4,9)]
  by (simp add: mem_api_def wireErr_def)

theorem http_api_mirrors_engine_witness:
  "va_DeleteFrontend (http_api sample_api ''http://vulcand:8182'') ''ns.web'' NewMem = (Some (NotFound ''Object not found''), NewMem) \<and>
   va_UpsertServer (http_api sample_api ''http://vulcand:8182'') ''ns.web'' sample_web_server NewMem =
     wireErr (MemUpsertServer ''ns.web'' sample_web_server NewMem)"
proof -
  let ?f = "\<lparr>ef_Id = ''ns.web'', ef_Route = ''Path(`/`)'', ef_Type = ''http'', ef_BackendId = ''ns.web'',
     ef_Settings = zeroFrontendSettings\<rparr>"
  let ?x = "\<lparr>em_Id = ''t'', em_Priority = 1, em_Type = ''trace'', em_Middleware = ''log''\<rparr>"
  have hyps: "server_addr ''http://vulcand:8182''" "ttl_readable (ae_checks sample_api)" "safe_elem ''ns.web''" "safe_elem ''s1''"
    "valid_frontend (ae_checks sample_api) ?f" "valid_backend (ae_checks sample_api) sample_web_backend"
    "valid_server (ae_checks sample_api) sample_web_server" "valid_middleware (ae_plugin sample_api) (ae_spec sample_api) ?x"
    by code_simp+
  have gone: "wireErr (MemDeleteFrontend ''ns.web'' NewMem) = (Some (NotFound ''Object not found''), NewMem)" by code_simp
  show ?thesis
    using http_api_mirrors_engine [OF hyps(1) mem_sound_NewMem hyps(2-)] by (simp add: Let_def gone)
qed

text \<open>
  The client puts identifiers into a URL as they are. An identifier with a question mark is cut
  there: the request to delete one object deletes another.
\<close>

lemma delete_unescaped_id:
  assumes "server_addr addr" and "plain k"
  shows "va_DeleteBackend (http_api env addr) (k @ CHR ''?'' # q) m = va_DeleteBackend (http_api env addr) k m"
proof -
  let ?u = "addr @ ''/'' @ ''v2/backends/'' @ k"
  have pl: "plain (''v2/backends/'' @ k)" "plain ?u" using assms by (auto simp: server_addr_def plain_def)
  have "takeWhile (\<lambda>c. c \<noteq> CHR ''#'') (?u @ CHR ''?'' # q) = ?u @ CHR ''?'' # takeWhile (\<lambda>c. c \<noteq> CHR ''#'') q"
    using pl(2) by (subst takeWhile_append2) (auto simp: plain_def)
  moreover have "takeWhile (\<lambda>c. c \<noteq> CHR ''?'') (?u @ CHR ''?'' # q') = ?u" for q'
    using pl(2) by (subst takeWhile_append2) (auto simp: plain_def)
  moreover have "takeWhile (\<lambda>c. c \<noteq> CHR ''?'') (takeWhile (\<lambda>c. c \<noteq> CHR ''#'') ?u) = ?u"
    using pl(2) by (simp add: plain_def takeWhile_all)
  ultimately have "urlPath (?u @ CHR ''?'' # q) = urlPath ?u" unfolding urlPath_def by presburger
  also have "\<dots> = Some (''/'' @ ''v2/backends/'' @ k)" using urlPath_plain [OF assms(1) pl(1)] .
  finally have "urlPath (endpoint addr [''backends'', k @ CHR ''?'' # q]) = Some (''/'' @ ''v2/backends/'' @ k)"
    "urlPath (endpoint addr [''backends'', k]) = Some (''/'' @ ''v2/backends/'' @ k)"
    using urlPath_plain [OF assms(1) pl(1)] by (simp_all add: endpoint_def)
  then show ?thesis by (simp add: http_api_def RemoteDeleteBackend_def ClientDelete_def send_def)
qed

end
