(* ===== verification/Vulcand_Http.thy ===== *)
theory Vulcand_Http
  imports Engine_Vulcand Vulcan_Api
begin

text \<open>
  The provider, and with it the engine, over the network: \<^verbatim>\<open>addResources\<close> and \<^verbatim>\<open>deleteResources\<close>
  through the HTTP client, the handlers and the in-memory engine behind them do what they do on
  the engine itself.
\<close>

section \<open>What can be sent\<close>

definition sendable_server :: "api_env \<Rightarrow> eng_server \<Rightarrow> bool" where
  "sendable_server aenv s \<longleftrightarrow> valid_server (ae_checks aenv) s \<and> safe_elem (es_Id s)"

definition sendable_backend :: "api_env \<Rightarrow> v_backend \<Rightarrow> bool" where
  "sendable_backend aenv b \<longleftrightarrow> safe_elem (BackendGetID b) \<and> valid_backend (ae_checks aenv) (vb_Backend b) \<and>
     list_all (sendable_server aenv) (vb_servers b)"

definition sendable_frontend :: "api_env \<Rightarrow> v_frontend \<Rightarrow> bool" where
  "sendable_frontend aenv f \<longleftrightarrow> safe_elem (FrontendGetID f) \<and> valid_frontend (ae_checks aenv) (vf_Frontend f) \<and>
     list_all (valid_middleware (ae_plugin aenv) (ae_spec aenv)) (vf_middlewares f)"

text \<open>What the server holds beforehand: what it can hold, and servers whose identifiers can be sent.\<close>

definition net_inv :: "api_env \<Rightarrow> mem \<Rightarrow> bool" where
  "net_inv aenv m \<longleftrightarrow> mem_sound (ae_checks aenv) m \<and>
     entries_ok (\<lambda>_. list_all (\<lambda>s. safe_elem (es_Id s))) (m_Servers m)"

definition reachable_server :: "api_env \<Rightarrow> string \<Rightarrow> bool" where
  "reachable_server aenv addr \<longleftrightarrow> server_addr addr \<and> ttl_readable (ae_checks aenv)"

lemma net_inv_sound: "net_inv aenv m \<Longrightarrow> mem_sound (ae_checks aenv) m"
  by (simp add: net_inv_def)

lemma net_inv_server:
  assumes "net_inv aenv m"
  shows "sendable_server aenv s \<Longrightarrow> net_inv aenv (snd (MemUpsertServer bk s m))" and "net_inv aenv (snd (MemDeleteServer bk sid m))"
proof -
  have srv: "entries_ok (\<lambda>_. list_all (\<lambda>s. safe_elem (es_Id s))) (m_Servers m)" using assms by (simp add: net_inv_def)
  show "net_inv aenv (snd (MemUpsertServer bk s m))" if "sendable_server aenv s"
    using that sound_server(1) [OF net_inv_sound [OF assms], of s bk] srv entries_ok_get [OF srv, of bk]
    by (auto simp: net_inv_def sendable_server_def MemUpsertServer_def split: option.split intro!: entries_ok_put list_all_upsert)
  show "net_inv aenv (snd (MemDeleteServer bk sid m))"
    using sound_server(2) [OF net_inv_sound [OF assms], of bk sid] srv entries_ok_get [OF srv, of bk]
    by (auto simp: net_inv_def MemDeleteServer_def split: option.split intro!: entries_ok_put elim!: list_all_remove)
qed

lemma net_inv_objects:
  assumes "net_inv aenv m"
  shows "valid_backend (ae_checks aenv) b \<Longrightarrow> net_inv aenv (snd (MemUpsertBackend b m))"
    and "valid_frontend (ae_checks aenv) f \<Longrightarrow> net_inv aenv (snd (MemUpsertFrontend f m))"
    and "net_inv aenv (snd (MemUpsertMiddleware fk x m))"
    and "net_inv aenv (snd (MemDeleteFrontend k m))" and "net_inv aenv (snd (MemDeleteBackend k m))"
proof -
  note sound = net_inv_sound [OF assms]
  have wf: "gm_wf (m_Middlewares m)" using sound by (simp add: mem_sound_def mem_wf_def)
  have mid: "mem_sound (ae_checks aenv) (snd (MemUpsertMiddleware fk x m))"
    using sound wf by (auto simp: MemUpsertMiddleware_def intro!: mem_sound_middlewares)
  have frame: "m_Servers (snd (MemUpsertBackend b m)) = m_Servers m" "m_Servers (snd (MemUpsertFrontend f m)) = m_Servers m"
    "m_Servers (snd (MemUpsertMiddleware fk x m)) = m_Servers m" "m_Servers (snd (MemDeleteFrontend k m)) = m_Servers m"
    "m_Servers (snd (MemDeleteBackend k m)) = m_Servers m"
    by (simp_all add: MemUpsertBackend_def MemUpsertFrontend_def MemUpsertMiddleware_def MemDeleteFrontend_def MemDeleteBackend_def
        Let_def)
  show "valid_backend (ae_checks aenv) b \<Longrightarrow> net_inv aenv (snd (MemUpsertBackend b m))"
    "valid_frontend (ae_checks aenv) f \<Longrightarrow> net_inv aenv (snd (MemUpsertFrontend f m))"
    "net_inv aenv (snd (MemUpsertMiddleware fk x m))"
    "net_inv aenv (snd (MemDeleteFrontend k m))" "net_inv aenv (snd (MemDeleteBackend k m))"
    using assms sound_backend [OF sound] sound_frontend [OF sound] sound_delete_backend [OF sound] mid
    unfolding net_inv_def frame by blast+
qed

section \<open>Backends\<close>

lemma loop_over_http:
  assumes "reachable_server aenv addr" and "safe_elem bk" and "list_all (sendable_server aenv) xs" and "net_inv aenv m"
  shows "upsertServersLoop (http_api aenv addr) bk xs extra m = upsertServersLoop mem_api bk xs extra m \<and>
     net_inv aenv (snd (upsertServersLoop mem_api bk xs extra m)) \<and> fst (fst (upsertServersLoop mem_api bk xs extra m)) = None"
  using assms(3,4)
proof (induction xs arbitrary: extra m)
  case (Cons x xs)
  obtain m1 where up: "MemUpsertServer bk x m = (None, m1)" by (simp add: MemUpsertServer_def)
  have x: "sendable_server aenv x" "valid_server (ae_checks aenv) x" "es_Id x \<noteq> []" "bk \<noteq> []"
    using Cons.prems(1) assms(2) safe_nonempty by (auto simp: sendable_server_def)
  have "va_UpsertServer (http_api aenv addr) bk x m = wireErr (MemUpsertServer bk x m)"
    using http_UpsertServer [OF _ _ assms(2) x(2)] assms(1) by (simp add: reachable_server_def mem_api_def)
  then have "ClientUpsertServer (http_api aenv addr) bk x m = (None, m1)" "ClientUpsertServer mem_api bk x m = (None, m1)"
    using x(3,4) up by (simp_all add: ClientUpsertServer_def wireErr_def mem_api_def)
  moreover have "net_inv aenv m1" using net_inv_server(1) [OF Cons.prems(2) x(1), of bk] up by simp
  ultimately show ?case using Cons.IH [of m1] Cons.prems(1) by simp
qed simp

lemma delete_over_http:
  assumes "reachable_server aenv addr" and "sendable_backend aenv b" and "\<forall>e \<in> set es. safe_elem (es_Id (snd e))"
  shows "fold (\<lambda>e s. snd (VulcanDeleteServer (http_api aenv addr) (Own b) (Own (snd e)) s)) es m =
     fold (\<lambda>e s. snd (VulcanDeleteServer mem_api (Own b) (Own (snd e)) s)) es m"
proof (rule fold_cong [OF refl refl])
  fix e assume e: "e \<in> set es"
  have "snd (va_DeleteServer (http_api aenv addr) (BackendGetID b) (es_Id (snd e)) s) =
      snd (va_DeleteServer mem_api (BackendGetID b) (es_Id (snd e)) s)" for s
    using http_Delete(3) [of addr "BackendGetID b" "es_Id (snd e)" aenv s] assms bspec [OF assms(3) e]
    by (simp add: reachable_server_def sendable_backend_def wireErr_def)
  then show "(\<lambda>s. snd (VulcanDeleteServer (http_api aenv addr) (Own b) (Own (snd e)) s)) =
      (\<lambda>s. snd (VulcanDeleteServer mem_api (Own b) (Own (snd e)) s))"
    by (simp add: VulcanDeleteServer_def ClientDeleteServer_def iface_GetID_def fun_eq_iff)
qed

lemma deletes_net_inv:
  "net_inv aenv m \<Longrightarrow> net_inv aenv (fold (\<lambda>e s. snd (VulcanDeleteServer mem_api (Own b) (Own (snd e)) s)) es m)"
proof (induction es arbitrary: m)
  case (Cons e es)
  have "net_inv aenv (snd (VulcanDeleteServer mem_api (Own b) (Own (snd e)) m))"
    using Cons.prems net_inv_server(2) by (simp add: VulcanDeleteServer_def ClientDeleteServer_def mem_api_def)
  then show ?case using Cons.IH by simp
qed simp

lemma upsertServersLoop_extra:
  "upsertServersLoop api bk xs extra m = ((r, extra'), m') \<Longrightarrow> entries_ok P extra \<Longrightarrow> entries_ok P extra'"
  by (induction xs arbitrary: extra m) (auto split: prod.splits option.splits intro: entries_ok_del)

lemma extra_safe:
  "list_all (\<lambda>s. safe_elem (es_Id s)) ss \<Longrightarrow> entries_ok (\<lambda>_ s. safe_elem (es_Id s)) g \<Longrightarrow>
   entries_ok (\<lambda>_ s. safe_elem (es_Id s)) (fold (\<lambda>x m. gm_put (es_Id x) x m) ss g)"
  by (induction ss arbitrary: g) (auto intro: entries_ok_put)

lemma gm_range_entries: "entries_ok P g \<Longrightarrow> e \<in> set (gm_range rng g) \<Longrightarrow> P (fst e) (snd e)"
  by (auto simp: gm_range_def List.map_filter_def dest: entries_ok_get split: option.splits)

lemma upsert_backend_over_http:
  assumes "reachable_server aenv addr" and "sendable_backend aenv b" and "net_inv aenv m"
  shows "VulcanUpsertBackend (http_api aenv addr) rng (Own b) m = VulcanUpsertBackend mem_api rng (Own b) m \<and>
     net_inv aenv (snd (VulcanUpsertBackend mem_api rng (Own b) m))"
proof -
  let ?h = "http_api aenv addr" and ?bk = "BackendGetID b" and ?m1 = "snd (MemUpsertBackend (vb_Backend b) m)"
  have b: "safe_elem ?bk" "eb_Id (vb_Backend b) \<noteq> []" "valid_backend (ae_checks aenv) (vb_Backend b)" "?bk \<noteq> []"
      "list_all (sendable_server aenv) (vb_servers b)"
    using assms(2) safe_nonempty by (auto simp: sendable_backend_def BackendGetID_def)
  have addr: "server_addr addr" using assms(1) by (simp add: reachable_server_def)
  have "va_UpsertBackend ?h (vb_Backend b) m = (None, ?m1)"
    unfolding http_UpsertBackend [OF addr b(3)] by (simp add: wireErr_def mem_api_def MemUpsertBackend_def Let_def)
  then have up: "ClientUpsertBackend ?h (vb_Backend b) m = (None, ?m1)" "ClientUpsertBackend mem_api (vb_Backend b) m = (None, ?m1)"
    using b(2) by (simp_all add: ClientUpsertBackend_def mem_api_def MemUpsertBackend_def Let_def)
  have inv1: "net_inv aenv ?m1" using net_inv_objects(1) [OF assms(3) b(3)] .
  let ?ss = "mem_srvs ?m1 ?bk"
  have get: "ClientGetServers ?h ?bk ?m1 = (Inr ?ss, ?m1)" "ClientGetServers mem_api ?bk ?m1 = (Inr ?ss, ?m1)"
    using http_GetServers [OF addr b(1) net_inv_sound [OF inv1]] b(4)
    by (simp_all add: ClientGetServers_def wireSum_def mem_api_def MemGetServers_def mem_srvs_def)
  let ?extra = "fold (\<lambda>x m. gm_put (es_Id x) x m) ?ss []"
  obtain q m2 where q: "upsertServersLoop mem_api ?bk (vb_servers b) ?extra ?m1 = (q, m2)" by (rule prod.exhaust)
  obtain r extra' where q': "q = (r, extra')" by (rule prod.exhaust)
  note run = q [unfolded q']
  note same = loop_over_http [OF assms(1) b(1,5) inv1, of ?extra, unfolded run fst_conv snd_conv]
  then have loop: "upsertServersLoop mem_api ?bk (vb_servers b) ?extra ?m1 = ((None, extra'), m2)"
    and hloop: "upsertServersLoop ?h ?bk (vb_servers b) ?extra ?m1 = ((None, extra'), m2)" and inv2: "net_inv aenv m2"
    using run by blast+
  have "list_all (\<lambda>s. safe_elem (es_Id s)) ?ss"
    using inv1 entries_ok_get [of "\<lambda>_. list_all (\<lambda>s. safe_elem (es_Id s))" "m_Servers ?m1" ?bk]
    by (auto simp: net_inv_def mem_srvs_def split: option.split)
  then have "entries_ok (\<lambda>_ s. safe_elem (es_Id s)) ?extra"
    by (rule extra_safe) (simp add: entries_ok_def)
  then have "\<forall>e \<in> set (gm_range rng extra'). safe_elem (es_Id (snd e))"
    using gm_range_entries upsertServersLoop_extra [OF loop] by blast
  note del = delete_over_http [OF assms(1,2) this, of m2]
  let ?m3 = "fold (\<lambda>e s. snd (VulcanDeleteServer mem_api (Own b) (Own (snd e)) s)) (gm_range rng extra') m2"
  have "VulcanUpsertBackend mem_api rng (Own b) m = (None, ?m3)" "VulcanUpsertBackend ?h rng (Own b) m = (None, ?m3)"
    by (simp_all add: VulcanUpsertBackend_def up get loop hloop del)
  then show ?thesis using deletes_net_inv [OF inv2] by simp
qed

section \<open>Frontends\<close>

lemma upsert_frontend_over_http:
  assumes "reachable_server aenv addr" and "sendable_frontend aenv f" and "net_inv aenv m"
  shows "VulcanUpsertFrontend (http_api aenv addr) (Own f) m = wireErr (VulcanUpsertFrontend mem_api (Own f) m) \<and>
     net_inv aenv (snd (VulcanUpsertFrontend mem_api (Own f) m))"
proof -
  let ?h = "http_api aenv addr" and ?fk = "FrontendGetID f"
  have addr: "server_addr addr" "ttl_readable (ae_checks aenv)" using assms(1) by (simp_all add: reachable_server_def)
  have f: "safe_elem ?fk" "valid_frontend (ae_checks aenv) (vf_Frontend f)"
      "list_all (valid_middleware (ae_plugin aenv) (ae_spec aenv)) (vf_middlewares f)"
    using assms(2) by (simp_all add: sendable_frontend_def)
  obtain e m1 where up: "MemUpsertFrontend (vf_Frontend f) m = (e, m1)" by (rule prod.exhaust)
  have hup: "va_UpsertFrontend ?h (vf_Frontend f) m = (map_option wire e, m1)" "va_UpsertFrontend mem_api (vf_Frontend f) m = (e, m1)"
    unfolding http_UpsertFrontend [OF addr f(2)] by (simp_all add: wireErr_def mem_api_def up)
  have inv1: "net_inv aenv m1" using net_inv_objects(2) [OF assms(3) f(2)] up by simp
  have step: "snd (ClientUpsertMiddleware ?h ?fk x s) = snd (ClientUpsertMiddleware mem_api ?fk x s)"
    if "x \<in> set (vf_middlewares f)" for x s
    using http_UpsertMiddleware [OF addr f(1), of x s] that f(3) by (simp add: ClientUpsertMiddleware_def list_all_iff wireErr_def)
  have fold: "fold (\<lambda>x s. snd (ClientUpsertMiddleware ?h ?fk x s)) (vf_middlewares f) s =
      fold (\<lambda>x s. snd (ClientUpsertMiddleware mem_api ?fk x s)) (vf_middlewares f) s" for s
    by (rule fold_cong) (auto simp: step)
  have "net_inv aenv (fold (\<lambda>x s. snd (ClientUpsertMiddleware mem_api ?fk x s)) xs s)" if "net_inv aenv s" for xs s
    using that
  proof (induction xs arbitrary: s)
    case (Cons x xs)
    have "net_inv aenv (snd (ClientUpsertMiddleware mem_api ?fk x s))"
      using net_inv_objects(3) [OF Cons.prems] Cons.prems by (simp add: ClientUpsertMiddleware_def mem_api_def)
    then show ?case using Cons.IH by simp
  qed simp
  then show ?thesis
    using inv1 by (cases e) (simp_all add: VulcanUpsertFrontend_def hup fold wireErr_def)
qed

section \<open>Resources\<close>

lemma runAll_over_http:
  assumes "\<And>x m. x \<in> set xs \<Longrightarrow> net_inv aenv m \<Longrightarrow> g x m = wireErr (f x m) \<and> net_inv aenv (snd (f x m))" and "net_inv aenv m"
  shows "runAll g xs m = wireErr (runAll f xs m) \<and> net_inv aenv (snd (runAll f xs m))"
  using assms
proof (induction xs arbitrary: m)
  case (Cons x xs)
  obtain e m1 where fx: "f x m = (e, m1)" by (rule prod.exhaust)
  have gx: "g x m = (map_option wire e, m1)" and inv1: "net_inv aenv m1"
    using Cons.prems(1) [of x m] Cons.prems(2) fx by (simp_all add: wireErr_def)
  have "runAll g xs m1 = wireErr (runAll f xs m1) \<and> net_inv aenv (snd (runAll f xs m1))"
    using Cons.IH [OF _ inv1] Cons.prems(1) by (metis list.set_intros(2))
  then show ?case using fx gx inv1 by (cases e) (simp_all add: wireErr_def)
qed (simp add: wireErr_def)

lemma upsertObjects_over_http:
  assumes "reachable_server aenv addr" and "net_inv aenv m"
    and "list_all (\<lambda>(b, f). sendable_backend aenv b \<and> sendable_frontend aenv f) bfs"
  shows "upsertObjects (vulcan_ops env (http_api aenv addr)) bfs m = wireErr (upsertObjects (vulcan_ops env mem_api) bfs m) \<and>
     net_inv aenv (snd (upsertObjects (vulcan_ops env mem_api) bfs m))"
proof -
  let ?h = "vulcan_ops env (http_api aenv addr)" and ?e = "vulcan_ops env mem_api"
  have one: "lb_UpsertBackend ?h b m = wireErr (lb_UpsertBackend ?e b m) \<and> net_inv aenv (snd (lb_UpsertBackend ?e b m))"
    if "b \<in> set (map fst bfs)" "net_inv aenv m" for b m
  proof -
    have b: "sendable_backend aenv b" using that(1) assms(3) by (auto simp: list_all_iff)
    then have "fst (VulcanUpsertBackend mem_api (env_range (ve_go env)) (Own b) m) = None"
      by (intro VulcanUpsertBackend_mem_ok) (auto simp: sendable_backend_def sendable_server_def list_all_iff dest: safe_nonempty)
    then obtain m' where "VulcanUpsertBackend mem_api (env_range (ve_go env)) (Own b) m = (None, m')" by (metis prod.collapse)
    then show ?thesis
      using upsert_backend_over_http [OF assms(1) b that(2), of "env_range (ve_go env)"] by (simp add: wireErr_def)
  qed
  have front: "lb_UpsertFrontend ?h f m = wireErr (lb_UpsertFrontend ?e f m) \<and> net_inv aenv (snd (lb_UpsertFrontend ?e f m))"
    if "f \<in> set (map snd bfs)" "net_inv aenv m" for f m
  proof -
    have "sendable_frontend aenv f" using that(1) assms(3) by (auto simp: list_all_iff)
    then show ?thesis using upsert_frontend_over_http [OF assms(1) _ that(2)] by simp
  qed
  obtain e m1 where run: "runAll (lb_UpsertBackend ?e) (map fst bfs) m = (e, m1)" by (rule prod.exhaust)
  note first = runAll_over_http [where g = "lb_UpsertBackend ?h" and f = "lb_UpsertBackend ?e" and xs = "map fst bfs" and aenv = aenv,
      OF one assms(2), unfolded run]
  then have "net_inv aenv m1" by simp
  note second = runAll_over_http [where g = "lb_UpsertFrontend ?h" and f = "lb_UpsertFrontend ?e" and xs = "map snd bfs" and aenv = aenv,
      OF front this]
  show ?thesis
    using first second run by (cases e) (simp_all add: upsertObjects_def wireErr_def)
qed

lemma vulcan_ops_new [simp]:
  "lb_NewBackend (vulcan_ops env api) = VulcanNewBackend env" "lb_NewFrontend (vulcan_ops env api) = VulcanNewFrontend env"
  "lb_NewServers (vulcan_ops env api) = VulcanNewServers env" "lb_NewMiddlewares (vulcan_ops env api) = VulcanNewMiddlewares env"
  "lb_AddServer (vulcan_ops env api) = (\<lambda>s. VulcanAddServer (Own s))"
  "lb_AddMiddleware (vulcan_ops env api) = (\<lambda>m. VulcanAddMiddleware (Own m))"
  by (simp_all add: vulcan_ops_def)

lemma buildObjects_any_api: "buildObjects (vulcan_ops env api) rs = buildObjects (vulcan_ops env api') rs"
proof (induction rs)
  case (Cons r rs)
  have "buildObject (vulcan_ops env api) r = buildObject (vulcan_ops env api') r" unfolding buildObject_def vulcan_ops_new ..
  with Cons show ?case by simp
qed simp

text \<open>Deleting over the network succeeds where it does on the engine, with the same effect.\<close>

lemma delete_resources_over_http:
  assumes "reachable_server aenv addr" and "\<forall>r \<in> set rs. safe_elem (r_id r)" and "vulcan_inv env m" and "own_backends m"
    and "\<forall>r \<in> set rs. (\<exists>b. VulcanNewBackend env r = Inr b) \<and> (\<exists>f. VulcanNewFrontend env r = Inr f)"
    and "distinct (map r_id rs)" and "r_id ` set rs \<subseteq> dom (gm_get (m_Frontends m))" and "r_id ` set rs \<subseteq> dom (gm_get (m_Backends m))"
    and "\<And>n i. \<not> ce_done (ces n) i" and "\<And>n. ce_ok (ces n)" and "default_policy policy" and "0 \<le> MaxElapsedTime policy"
  shows "\<exists>m'. deleteResources (vulcan_ops env mem_api) policy ces rs m = Some (None, m') \<and>
     deleteResources (vulcan_ops env (http_api aenv addr)) policy ces rs m = Some (None, m') \<and> own_backends m'"
proof (rule deleteResources_vulcan_api [OF assms(3-12)])
  fix r f b m m'
  assume r: "r \<in> set rs" and ids: "FrontendGetID f = r_id r" "BackendGetID b = r_id r"
    and del: "deleteObject (vulcan_ops env mem_api) f b m = (None, m')"
  have addr: "server_addr addr" using assms(1) by (simp add: reachable_server_def)
  have safe: "safe_elem (r_id r)" using assms(2) r by blast
  show "deleteObject (vulcan_ops env (http_api aenv addr)) f b m = (None, m')"
    using del by (auto simp: deleteObject_def ids http_Delete(1,2) [OF addr safe] wireErr_def split: prod.splits option.splits)
qed

section \<open>Properties\<close>

text \<open>
  C12: Adding resources over the network registers them. Through the HTTP client and the handlers of
  vulcand the commit of the engine succeeds, and the server is left exactly as the same call leaves
  the in-memory engine: each backend with exactly its servers, each frontend with its middlewares,
  no other identifier added and none removed. The objects are such that they can be sent: valid,
  with identifiers that stand for themselves in a URL.
\<close>

theorem add_resources_over_http:
  assumes "reachable_server aenv addr" and "net_inv aenv m" and "range_ok (env_range (ve_go env))"
    and "buildObjects (vulcan_ops env mem_api) rs = Some (Inr bfs)"
    and "list_all (\<lambda>(b, f). sendable_backend aenv b \<and> sendable_frontend aenv f) bfs"
    and "distinct (map r_id rs)" and "\<forall>r \<in> set rs. \<forall>x \<in> set (r_servers r). sv_id x \<noteq> []"
    and "\<And>i. \<not> ce_done ce i" and "ce_ok ce" and "default_policy policy" and "0 \<le> MaxElapsedTime policy"
  shows "\<exists>m'. addResources (vulcan_ops env (http_api aenv addr)) policy ce rs m = Some (None, m') \<and>
     addResources (vulcan_ops env mem_api) policy ce rs m = Some (None, m') \<and> net_inv aenv m' \<and>
     list_all (\<lambda>(b, f). vulcan_has_backend m' b \<and> vulcan_has_frontend m' f) bfs \<and>
     dom (gm_get (m_Frontends m')) = dom (gm_get (m_Frontends m)) \<union> r_id ` set rs \<and>
     dom (gm_get (m_Backends m')) = dom (gm_get (m_Backends m)) \<union> r_id ` set rs"
proof -
  let ?h = "vulcan_ops env (http_api aenv addr)" and ?e = "vulcan_ops env mem_api"
  have inv: "vulcan_inv env m"
    using assms(2,3) by (simp add: vulcan_inv_def net_inv_def mem_sound_def)
  obtain m' where up: "upsertObjects ?e bfs m = (None, m')"
    using upsertObjects_vulcan_ok [OF inv assms(4,7)] by (metis prod.collapse)
  have hup: "upsertObjects ?h bfs m = (None, m')" and inv': "net_inv aenv m'"
    using upsertObjects_over_http [OF assms(1,2,5), of env] up by (simp_all add: wireErr_def)
  have "addResources ?h policy ce rs m = Some (None, m')" "addResources ?e policy ce rs m = Some (None, m')"
    using Commit_first_attempt [where fn = "upsertObjects ?h bfs" and s = m, OF assms(8-11) hup]
      Commit_first_attempt [where fn = "upsertObjects ?e bfs" and s = m, OF assms(8-11) up] assms(4)
      buildObjects_any_api [of env "http_api aenv addr" rs mem_api] by (simp_all add: addResources_def)
  then show ?thesis using addResources_vulcan [OF inv assms(4,6-11)] inv' by auto
qed

definition sample_http :: api_env where
  "sample_http = sample_api\<lparr>ae_checks := (ve_checks sample_vulcan)\<lparr>vc_ParseDuration := (\<lambda>d. if d = ''0s'' then Inr 0 else Inl badType),
     vc_DurationString := (\<lambda>_. ''0s'')\<rparr>\<rparr>"

theorem add_resources_over_http_witness:
  "\<exists>m'. addResources (vulcan_ops sample_vulcan (http_api sample_http ''http://vulcand:8182'')) sample_policy sample_ce
       [sample_resource] NewMem = Some (None, m') \<and> dom (gm_get (m_Frontends m')) = {''test.bar.web''}"
proof -
  let ?build = "buildObjects (vulcan_ops sample_vulcan mem_api) [sample_resource]"
  have "case ?build of
        Some (Inr bfs) \<Rightarrow> list_all (\<lambda>(b, f). sendable_backend sample_http b \<and> sendable_frontend sample_http f) bfs
      | _ \<Rightarrow> False"
    by code_simp
  then obtain bfs where bfs: "?build = Some (Inr bfs)"
      "list_all (\<lambda>(b, f). sendable_backend sample_http b \<and> sendable_frontend sample_http f) bfs"
    by (auto split: option.splits sum.splits)
  have reach: "reachable_server sample_http ''http://vulcand:8182''" by code_simp
  have inv: "net_inv sample_http NewMem"
    using mem_sound_NewMem by (simp add: net_inv_def) (simp add: NewMem_def entries_ok_def)
  have rng: "range_ok (env_range (ve_go sample_vulcan))" using sample_inv by (simp add: vulcan_inv_def)
  have "\<forall>r \<in> set [sample_resource]. \<forall>x \<in> set (r_servers r). sv_id x \<noteq> []" by (simp add: sample_resource_def)
  from add_resources_over_http [OF reach inv rng bfs _ this sample_never_done ce_ok_sample sample_policy_ok(1)] show ?thesis
    by (auto simp: sample_resource_def NewMem_def)
qed

end
