(* ===== verification/Spec2Isabelle.thy ===== *)
theory Spec2Isabelle
  imports Kube_Controller Vulcan_Changes Traefik_Etcd Vulcand_Http
begin

text \<open>
  A verification of romulus, a Kubernetes ingress controller.

  \<^bold>\<open>The program.\<close> romulus watches the Services, Endpoints and Ingresses of a Kubernetes cluster and
  keeps a load balancer (vulcand, or traefik through etcd) configured for them: every port of a
  Service becomes a frontend with a route and a backend with servers. An event travels

  reflector \<open>\<rightarrow>\<close> queue of deltas \<open>\<rightarrow>\<close> informer \<open>\<rightarrow>\<close> handler (\<^verbatim>\<open>kubernetes/kubernetes.go\<close>) \<open>\<rightarrow>\<close> engine
  (\<^verbatim>\<open>engine.go\<close>) \<open>\<rightarrow>\<close> resources (\<^verbatim>\<open>kubernetes/resource.go\<close>, with the object cache) \<open>\<rightarrow>\<close> objects of the
  load balancer (\<^verbatim>\<open>loadbalancer/*\<close>) \<open>\<rightarrow>\<close> commit with retries \<open>\<rightarrow>\<close> vulcand's engine or etcd.

  \<^bold>\<open>Theories\<close>, from the bottom up, with the code each models:

  \<^item> \<^verbatim>\<open>Prelude\<close>: Go's results (\<open>go\<close>, where \<open>None\<close> is a panic or no return), errors, maps
    (\<open>gomap\<close>, a sorted association list; a loop over one visits its keys in the order of a
    parameter \<open>rng\<close>, any permutation), sorting, and the locale \<open>keyed_store\<close> of every store.
    \<^verbatim>\<open>Go_Strings\<close>: what is used of \<^verbatim>\<open>strings\<close>, \<^verbatim>\<open>strconv\<close> and \<^verbatim>\<open>path\<close>.
  \<^item> \<^verbatim>\<open>Kube_Api\<close>: the API objects and the helpers of \<^verbatim>\<open>kubernetes/util.go\<close> (identifiers, ports).
    \<^verbatim>\<open>Kube_Cache\<close>: \<^verbatim>\<open>client/cache\<close>'s stores and \<^verbatim>\<open>kubernetes/cache.go\<close>. \<^verbatim>\<open>Kube_Endpoints\<close>:
    \<^verbatim>\<open>api/endpoints\<close>. \<^verbatim>\<open>Kube_Route\<close>, \<^verbatim>\<open>Kube_Resource\<close>: \<^verbatim>\<open>kubernetes/resource.go\<close>, \<^verbatim>\<open>types.go\<close>, \<^verbatim>\<open>sort.go\<close>.
  \<^item> \<^verbatim>\<open>Delta_FIFO\<close>, \<^verbatim>\<open>Informer\<close>: the queue \<^verbatim>\<open>client/cache/delta_fifo.go\<close>, the informer of
    \<^verbatim>\<open>controller/framework/controller.go\<close> and what the reflector writes, as a step relation of two
    threads. \<^verbatim>\<open>Reflector\<close>: \<^verbatim>\<open>client/cache/reflector.go\<close> over any store, with the locale \<open>reflected_store\<close>
    of what a store must promise, interpreted as \<open>rs\<close> on the program's stores.
    \<^verbatim>\<open>Kube_Labels\<close>: label selectors and \<^verbatim>\<open>selectorFromMap\<close>; \<^verbatim>\<open>Kube_Selector\<close>: their text, with lexer and
    parser. \<^verbatim>\<open>Kube_Request\<close>: the builder of requests to the cluster and the program's requests.
    \<^verbatim>\<open>Kube_Controller\<close>: \<^verbatim>\<open>kubernetes/kubernetes.go\<close>, the start of the engine and \<^verbatim>\<open>main.go\<close>.
  \<^item> \<^verbatim>\<open>LoadBalancer\<close>: \<^verbatim>\<open>loadbalancer/loadbalancer.go\<close> as a record of operations and as the locales
    \<open>registry\<close> and \<open>load_balancer\<close> of what a provider promises. \<^verbatim>\<open>Backoff\<close>, \<^verbatim>\<open>Commit\<close>: the back-off
    library and \<^verbatim>\<open>Engine.Commit\<close>. \<^verbatim>\<open>Engine\<close>: the handlers of \<^verbatim>\<open>engine.go\<close>, proved against the locale.
  \<^item> \<^verbatim>\<open>Vulcan_Model\<close>: vulcand's \<^verbatim>\<open>engine/model.go\<close> and \<^verbatim>\<open>tls.go\<close>; \<^verbatim>\<open>Vulcan_Json\<close>: its objects as
    documents and the decoders of \<^verbatim>\<open>engine/json.go\<close>. \<^verbatim>\<open>Vulcan_Engine\<close>: the checks of its client
    and the in-memory engine \<^verbatim>\<open>memng/mem.go\<close>; \<^verbatim>\<open>Vulcan_Changes\<close>: the events it emits. \<^verbatim>\<open>Vulcan_Api\<close>:
    the requests of the client \<^verbatim>\<open>api/client.go\<close> and the server \<^verbatim>\<open>api/api.go\<close> with \<^verbatim>\<open>mailgun/scroll\<close>
    and \<^verbatim>\<open>gorilla/mux\<close>. \<^verbatim>\<open>Vulcand\<close>: the provider \<^verbatim>\<open>loadbalancer/vulcand\<close>, with the interpretation \<open>vl\<close>
    of \<open>load_balancer\<close>. \<^verbatim>\<open>Engine_Vulcand\<close>, \<^verbatim>\<open>Vulcand_Http\<close>: the engine on it, on the in-memory engine
    itself and over the network.
  \<^item> \<^verbatim>\<open>Ezd\<close>, \<^verbatim>\<open>Traefik\<close>, \<^verbatim>\<open>Traefik_Etcd\<close>: the etcd client \<^verbatim>\<open>gearbox/ezd\<close>, the provider
    \<^verbatim>\<open>loadbalancer/traefik\<close>, and what it leaves in an etcd that keeps a tree of keys.

  \<^bold>\<open>State and operations.\<close> Each component's state is a record with the fields of the Go structure,
  each method a definition with the method's name; a name that several types share carries the
  type or package (\<open>VulcanUpsertBackend\<close>, \<open>MemUpsertBackend\<close>, \<open>ClientUpsertBackend\<close>). An operation
  that fails returns \<open>err option\<close> or \<open>err + 'a\<close> with the state it leaves. Locks make operations
  steps; what runs concurrently (the reflector and the processing loop) is interleaved.

  \<^bold>\<open>What is shown.\<close>

  \<^item> From the cluster to the engine: the queue keeps its keys and items together; the informer's
    store catches up with the server under any interleaving (except for the lost deletion below);
    each event of a quiet informer is one call of the engine. A store that a reflector feeds
    mirrors the server, however connections break, and the object cache's stores hold objects of
    their kind only; the requests ask for the right objects, and a selector survives its text form,
    whose parser never panics.
  \<^item> Resources: identifiers are unambiguous; a Service, its Endpoints and its Ingress give the same
    resources; repacking Endpoints keeps what each port offers; none of it depends on the order of Go's map loops, except where a theorem says so.
  \<^item> Engine: against any provider with the laws of \<open>load_balancer\<close>, and so for vulcand, adding,
    updating and deleting resources change exactly the objects of these resources; commits
    return after a bounded number of attempts unless the timeout is zero.
  \<^item> vulcand: an upserted backend has exactly its servers; the engine's tables stay consistent,
    and a subscriber who replays its events has the same configuration. Whatever requests it serves
    it holds valid objects; its objects survive their documents; and the API over HTTP does what the
    engine does, so that resources are registered over the network as they are in memory. etcd: which
    keys an upsert of a backend writes.
  \<^item> Error behaviour, with the defects that modelling showed: lost deletions and tombstones,
    retried deletions that leak a backend, stale middlewares, swallowed etcd errors, ambiguous
    server identifiers, panics.

  \<^bold>\<open>Bounds and fuel.\<close> No definition takes fuel. Loops over data are structural; the processing loop
  ends where \<^verbatim>\<open>Pop\<close> would block (each round shortens the queue); \<open>commitLoop\<close> is a
  \<^theory_text>\<open>partial_function\<close> whose \<open>None\<close> is not returning, with theorems for both outcomes. Ports in
  identifiers are 32-bit words, the reflector's durations wrap at 64 bits, TLS versions and cipher suites 16-bit words, other integers
  mathematical: they count or are compared, far from their limits. Durations are integers, back-off
  intervals rationals where Go rounds a float to nanoseconds.

  \<^bold>\<open>Parameters\<close>, for code that is not part of the sources: the Kubernetes API client, the etcd server,
  a vulcand server in the lemmas on any API, the plugins of middlewares, MD5 and the hash of address sets, regular
  expressions of users, validity of URIs, duration parsing, the JSON of annotations, the order of map
  loops, the clock.
  Go's sort of more than a few equal keys may reorder them; the model's sort is stable, and the keys
  sorted by are distinct where a theorem depends on it.

  \<^bold>\<open>Not modelled:\<close> logging; the text of JSON documents and the transport of HTTP messages; run-time
  statistics and log severity of vulcand; flag parsing, signals and process exit in
  \<^verbatim>\<open>main.go\<close>; the configuration of the REST client, sending requests and decoding answers; the generated
  and vendored code the program does not run; the types of \<^verbatim>\<open>loadbalancer/nginx\<close>, which nothing uses.
\<close>

section \<open>From the watch to the load balancer\<close>

text \<open>
  C1: a watched Service is registered. When the informer of the Services is quiet and the watch
  reports a Service it did not have, whose ports have distinct identifiers and for which the
  objects can be built, the processing loop returns with an empty queue; the informer has the
  Service; and vulcand has a frontend and a backend for each of its ports and for nothing new
  besides, each backend with exactly the servers, and each frontend with the route and settings, of
  its resource.
\<close>

theorem watched_service_registered:
  assumes "e = \<lparr>e_env = ve_go env, e_client = cl, e_backoff = pol, e_ops = vulcan_ops env mem_api\<rparr>"
    and "informer_reachable (fullHandler (engineUpdater e ces)) rng expected (i, srv)" and "range_ok rng" and "quiet i"
    and "expected (KService svc)" and "objKey (KService svc) = Inr k" and "client i k = None"
    and "vulcan_inv env (e_lb (in_world i))" and "default_policy pol" and "0 \<le> MaxElapsedTime pol"
    and "\<And>n. \<not> ce_done (ces 0) n" and "ce_ok (ces 0)"
    and "GenResources (ve_go env) cl (KService svc) (e_cache (in_world i)) = Some ((rs, er), kc)"
    and "buildObjects (vulcan_ops env mem_api) rs = Some (Inr bfs)"
    and "distinct (map (portID svc) (svc_ports svc))"
  shows "\<exists>c m'. processLoop (fullHandler (engineUpdater e ces))
         (watchEvent rng expected (WatchAdded (KService svc)) (in_client i) (in_fifo i)) (in_client i, in_world i) =
       Some (NewDeltaFIFO, c, \<lparr>e_cache = kc, e_lb = m'\<rparr>) \<and>
     StoreGetByKey 0 c k = Some (KService svc) \<and>
     list_all (\<lambda>(b, f). vulcan_has_backend m' b \<and> vulcan_has_frontend m' f) bfs \<and>
     dom (gm_get (m_Frontends m')) = dom (gm_get (m_Frontends (e_lb (in_world i)))) \<union> portID svc ` set (svc_ports svc) \<and>
     dom (gm_get (m_Backends m')) = dom (gm_get (m_Backends (e_lb (in_world i)))) \<union> portID svc ` set (svc_ports svc)"
proof -
  have inv: "informer_inv (i, srv)" using informer_reachable_inv [OF assms(2,3)] .
  then have st: "informer_store (in_client i)" by (simp add: informer_inv_def)
  have ok: "expected (KService svc) \<and> hasMeta (KService svc)" using assms(5) by simp
  note run = dispatch_added [of i srv expected "KService svc" k, OF inv assms(4) ok assms(6,7),
      of "engineUpdater e ces" rng]
  note add = Add_service_vulcan [of env "in_world i" pol ces cl svc rs er kc bfs, OF assms(8-15)]
  show ?thesis using run add st by (auto simp: engineUpdater_def assms(1) simp del: watchEvent.simps)
qed

theorem watched_service_registered_witness:
  "\<exists>c kc m'. processLoop (fullHandler (engineUpdater sample_engine (\<lambda>_. sample_ce)))
       (watchEvent (\<lambda>ks. ks) (\<lambda>obj. True) (WatchAdded (KService sample_service)) (NewStore DeletionHandlingKey) NewDeltaFIFO)
       (NewStore DeletionHandlingKey, \<lparr>e_cache = NewCache, e_lb = NewMem\<rparr>) = Some (NewDeltaFIFO, c, \<lparr>e_cache = kc, e_lb = m'\<rparr>) \<and>
     dom (gm_get (m_Frontends m')) = {''test.bar.web''}"
proof -
  let ?i = "NewInformer \<lparr>e_cache = NewCache, e_lb = NewMem\<rparr>"
  let ?gen = "GenResources (ve_go sample_vulcan) sample_client (KService sample_service) NewCache"
  let ?ops = "vulcan_ops sample_vulcan mem_api"
  have "case ?gen of Some ((rs, _), _) \<Rightarrow> (case buildObjects ?ops rs of Some (Inr _) \<Rightarrow> True | _ \<Rightarrow> False) | None \<Rightarrow> False"
    by code_simp
  then obtain rs er kc bfs where gen: "?gen = Some ((rs, er), kc)" and build: "buildObjects ?ops rs = Some (Inr bfs)"
    by (cases ?gen) (fastforce split: option.splits sum.splits)+
  have ports: "svc_ports sample_service = [\<lparr>sp_name = ''web'', sp_port = 80\<rparr>]"
      "portID sample_service \<lparr>sp_name = ''web'', sp_port = 80\<rparr> = ''test.bar.web''" by code_simp+
  have new: "in_client ?i = NewStore DeletionHandlingKey" "in_fifo ?i = NewDeltaFIFO"
    "in_world ?i = \<lparr>e_cache = NewCache, e_lb = NewMem\<rparr>" by (simp_all add: NewInformer_def)
  have "\<exists>c m'. processLoop (fullHandler (engineUpdater sample_engine (\<lambda>_. sample_ce)))
         (watchEvent (\<lambda>ks. ks) (\<lambda>obj. True) (WatchAdded (KService sample_service)) (in_client ?i) (in_fifo ?i)) (in_client ?i, in_world ?i) =
       Some (NewDeltaFIFO, c, \<lparr>e_cache = kc, e_lb = m'\<rparr>) \<and>
     StoreGetByKey 0 c ''test/bar'' = Some (KService sample_service) \<and>
     list_all (\<lambda>(b, f). vulcan_has_backend m' b \<and> vulcan_has_frontend m' f) bfs \<and>
     dom (gm_get (m_Frontends m')) = dom (gm_get (m_Frontends (e_lb (in_world ?i)))) \<union> portID sample_service ` set (svc_ports sample_service) \<and>
     dom (gm_get (m_Backends m')) = dom (gm_get (m_Backends (e_lb (in_world ?i)))) \<union> portID sample_service ` set (svc_ports sample_service)"
    by (rule watched_service_registered [where er = er, OF sample_engine_def informer_reachable.new range_ok_id sample_quiet(1) _
          sample_key sample_quiet(2) _ _ _ _ _ _ build]) (simp_all add: new gen ports)
  then obtain c m' where run: "processLoop (fullHandler (engineUpdater sample_engine (\<lambda>_. sample_ce)))
         (watchEvent (\<lambda>ks. ks) (\<lambda>obj. True) (WatchAdded (KService sample_service)) (in_client ?i) (in_fifo ?i)) (in_client ?i, in_world ?i) =
       Some (NewDeltaFIFO, c, \<lparr>e_cache = kc, e_lb = m'\<rparr>)"
    and fe: "dom (gm_get (m_Frontends m')) = dom (gm_get (m_Frontends (e_lb (in_world ?i)))) \<union>
       portID sample_service ` set (svc_ports sample_service)"
    by (elim exE conjE) (erule (1) that)
  have "dom (gm_get (m_Frontends m')) = {''test.bar.web''}" unfolding fe new by (simp add: ports NewMem_def)
  with run show ?thesis unfolding new by (intro exI conjI)
qed

text \<open>
  C2: a Service that the watch reports as deleted is removed. When the informer is quiet and has the
  Service, and vulcand has the frontends and backends of its ports, each frontend in front of the
  backend of its own identifier, the processing loop returns with an empty queue; the informer no
  longer has the Service; vulcand no longer has the frontend and the backend of any of its ports, and
  has every other frontend and backend as before.
\<close>

theorem watched_service_removed:
  assumes "e = \<lparr>e_env = ve_go env, e_client = cl, e_backoff = pol, e_ops = vulcan_ops env mem_api\<rparr>"
    and "informer_reachable (fullHandler (engineUpdater e ces)) rng expected (i, srv)" and "range_ok rng" and "quiet i"
    and "expected (KService svc)" and "objKey (KService svc) = Inr k" and "client i k \<noteq> None"
    and "vulcan_inv env (e_lb (in_world i))" and "own_backends (e_lb (in_world i))"
    and "default_policy pol" and "0 \<le> MaxElapsedTime pol"
    and "\<And>n i. \<not> ce_done (ces n) i" and "\<And>n. ce_ok (ces n)"
    and "GenResources (ve_go env) cl (KService svc) (e_cache (in_world i)) = Some ((rs, er), kc)"
    and "\<forall>r \<in> set rs. (\<exists>b. VulcanNewBackend env r = Inr b) \<and> (\<exists>f. VulcanNewFrontend env r = Inr f)"
    and "distinct (map (portID svc) (svc_ports svc))"
    and "portID svc ` set (svc_ports svc) \<subseteq> dom (gm_get (m_Frontends (e_lb (in_world i))))"
    and "portID svc ` set (svc_ports svc) \<subseteq> dom (gm_get (m_Backends (e_lb (in_world i))))"
  shows "\<exists>c kc' m'. processLoop (fullHandler (engineUpdater e ces))
         (watchEvent rng expected (WatchDeleted (KService svc)) (in_client i) (in_fifo i)) (in_client i, in_world i) =
       Some (NewDeltaFIFO, c, \<lparr>e_cache = kc', e_lb = m'\<rparr>) \<and>
     StoreGetByKey 0 c k = None \<and>
     dom (gm_get (m_Frontends m')) = dom (gm_get (m_Frontends (e_lb (in_world i)))) - portID svc ` set (svc_ports svc) \<and>
     dom (gm_get (m_Backends m')) = dom (gm_get (m_Backends (e_lb (in_world i)))) - portID svc ` set (svc_ports svc) \<and>
     (\<forall>b. BackendGetID b \<notin> portID svc ` set (svc_ports svc) \<longrightarrow>
        vulcan_has_backend m' b = vulcan_has_backend (e_lb (in_world i)) b) \<and>
     (\<forall>f. FrontendGetID f \<notin> portID svc ` set (svc_ports svc) \<longrightarrow>
        vulcan_has_frontend m' f = vulcan_has_frontend (e_lb (in_world i)) f)"
proof -
  let ?P = "portID svc ` set (svc_ports svc)"
  have inv: "informer_inv (i, srv)" using informer_reachable_inv [OF assms(2,3)] .
  then have st: "informer_store (in_client i)" by (simp add: informer_inv_def)
  have ok: "expected (KService svc) \<and> hasMeta (KService svc)" using assms(5) by simp
  note run = dispatch_deleted [of i srv expected "KService svc" k, OF inv assms(4) ok assms(6), of "engineUpdater e ces" rng]
  obtain kc' m' where del: "Delete e ces (KService svc) (in_world i) = Some \<lparr>e_cache = kc', e_lb = m'\<rparr>"
    and sh: "vl.shrunk env ?P (e_lb (in_world i)) m'"
    and doms: "dom (gm_get (m_Frontends m')) = dom (gm_get (m_Frontends (e_lb (in_world i)))) - ?P"
      "dom (gm_get (m_Backends m')) = dom (gm_get (m_Backends (e_lb (in_world i)))) - ?P"
    using Delete_service_vulcan [of env "in_world i" pol ces cl svc rs er kc, OF assms(8-18)] assms(1) by blast
  have loop: "processLoop (fullHandler (engineUpdater e ces))
         (watchEvent rng expected (WatchDeleted (KService svc)) (in_client i) (in_fifo i)) (in_client i, in_world i) =
       Some (NewDeltaFIFO, storeDel k (in_client i), \<lparr>e_cache = kc', e_lb = m'\<rparr>)"
    unfolding run using assms(7) del by (auto simp: engineUpdater_def)
  have "StoreGetByKey 0 (storeDel k (in_client i)) k = None" using st by simp
  then show ?thesis
    using loop doms sh [unfolded vl.shrunk_def] by (intro exI conjI) blast+
qed

theorem watched_service_removed_witness:
  "\<exists>(i :: mem engine_state informer) c kc m'. processLoop (fullHandler (engineUpdater sample_engine (\<lambda>_. sample_ce)))
       (watchEvent (\<lambda>ks. ks) (\<lambda>obj. True) (WatchDeleted (KService sample_service)) (in_client i) (in_fifo i)) (in_client i, in_world i) =
       Some (NewDeltaFIFO, c, \<lparr>e_cache = kc, e_lb = m'\<rparr>) \<and>
     dom (gm_get (m_Frontends (e_lb (in_world i)))) = {''test.bar.web''} \<and> dom (gm_get (m_Frontends m')) = {}"
proof -
  let ?w = "engineUpdater sample_engine (\<lambda>_. sample_ce)" and ?i = "NewInformer sample_state"
  let ?s = "the (Add sample_engine (\<lambda>_. sample_ce) (KService sample_service) sample_state)"
  let ?i1 = "?i\<lparr>in_client := storePut 0 ''test/bar'' (KService sample_service) (in_client ?i), in_world := ?s\<rparr>"
  let ?gen = "GenResources (ve_go sample_vulcan) sample_client (KService sample_service) (e_cache ?s)"
  have s: "Add sample_engine (\<lambda>_. sample_ce) (KService sample_service) sample_state = Some ?s" using sample_add by auto
  then have "up_Add ?w (KService sample_service) (in_world ?i) = Some ?s" by (simp add: engineUpdater_def NewInformer_def)
  then have r: "informer_reachable (fullHandler ?w) (\<lambda>ks. ks) (\<lambda>obj. True) (?i1, [''test/bar'' \<mapsto> KService sample_service])"
    using reachable_added [OF informer_reachable.new range_ok_id sample_quiet(1) _ sample_key sample_quiet(2), of "\<lambda>obj. True"]
    by simp
  have q: "quiet ?i1" "client ?i1 ''test/bar'' \<noteq> None" using sample_quiet(1) by (simp_all add: quiet_def NewInformer_def NewStore_def)
  have inv: "vulcan_inv sample_vulcan (e_lb ?s)"
    using s vl.addResources_changed [OF sample_inv]
    by (auto simp: Add_def sample_engine_def sample_state_def vl.changed_def split: bind_splits prod.splits)
  have "case ?gen of
        Some ((rs, _), _) \<Rightarrow> list_all (\<lambda>r. \<not> isl (VulcanNewBackend sample_vulcan r) \<and> \<not> isl (VulcanNewFrontend sample_vulcan r)) rs
      | None \<Rightarrow> False" by code_simp
  then obtain rs er kc where gen: "?gen = Some ((rs, er), kc)"
    and right: "list_all (\<lambda>r. \<not> isl (VulcanNewBackend sample_vulcan r) \<and> \<not> isl (VulcanNewFrontend sample_vulcan r)) rs"
    by (cases ?gen) (auto split: prod.splits)
  have build: "\<forall>r \<in> set rs. (\<exists>b. VulcanNewBackend sample_vulcan r = Inr b) \<and> (\<exists>f. VulcanNewFrontend sample_vulcan r = Inr f)"
    using right unfolding list_all_iff by (metis sum.collapse(2))
  have "map fst (m_Frontends (e_lb ?s)) = [''test.bar.web'']" "map fst (m_Backends (e_lb ?s)) = [''test.bar.web'']" by code_simp+
  then have doms: "dom (gm_get (m_Frontends (e_lb ?s))) = {''test.bar.web''}" "dom (gm_get (m_Backends (e_lb ?s))) = {''test.bar.web''}"
    by (metis dom_map_of_conv_image_fst image_set list.set(1,2))+
  have own: "own_backends (e_lb ?s)" by code_simp
  have "map (portID sample_service) (svc_ports sample_service) = [''test.bar.web'']" by code_simp
  then have ports: "distinct (map (portID sample_service) (svc_ports sample_service))"
      "portID sample_service ` set (svc_ports sample_service) = {''test.bar.web''}"
    by (simp, metis image_set list.set(1,2))
  have world: "in_world ?i1 = ?s" by simp
  note removed = watched_service_removed [OF sample_engine_def r range_ok_id q(1) TrueI sample_key q(2), unfolded world,
      OF inv own sample_policy_ok(1) _ sample_never_done ce_ok_sample gen build ports(1)]
  show ?thesis
    by (rule exI [of _ ?i1], use removed in \<open>simp add: ports(2) doms world\<close>) (elim exE conjE, intro exI conjI, assumption+)
qed

end
